theory Spec2Isabelle
  imports Complex_Main
begin

section \<open>Numerical conventions\<close>

text \<open>
  The program is numpy code over double-precision floats. Every float is modelled as a
  real number: there is no rounding, no NaN and no infinity in the model. Where the source
  would produce NaN or an infinity (a division by zero, a square root of a negative
  number) the model holds the value HOL gives to that expression. Such values flow on
  into the collaborators of the engine (the potential layer and the isochrone solver),
  which the model takes as parameters, and into stored attributes (a frequency divided
  by a zero mean). The one place where the sign of a floating-point test on such a
  value decides the control flow, the isochrone check of the constructors, is written
  out case by case (\<open>ampb_negative\<close>). The constructions evaluated in the
  examples below stay clear of all of these: every quotient in them has a non-zero
  divisor and every square root a non-negative argument.

  A one-dimensional array is a list; a two-dimensional array is the list of its rows
  (one row per torus, one column per node of the angle table).
\<close>

type_synonym vec = "real list"
type_synonym grid = "real list list"

datatype error =
    OSError                    \<comment> \<open>pot is None\<close>
  | ValueError_lengths         \<comment> \<open>len(Es) != len(Ls)\<close>
  | IndexError                 \<comment> \<open>an index outside an array\<close>
  | ValueError_slice_step      \<comment> \<open>vrls[::0]\<close>
  | NotImplementedError        \<comment> \<open>the isochrone check\<close>
  | ZeroDivisionError          \<comment> \<open>1.0 / nta with nta = 0; a Python float divided by zero\<close>
  | NumpyShapeError            \<comment> \<open>shapes that numpy cannot broadcast or index\<close>
  | ValueError_empty_reduction \<comment> \<open>nanmax or nanargmin of an empty array\<close>
  | LeastsqError               \<comment> \<open>optimize.leastsq (with opt_func inside) raised\<close>
  | ValueError_not_found       \<comment> \<open>Given actions not found\<close>
  | UnboundLocalError          \<comment> \<open>a local variable read before any assignment\<close>

datatype warning =
    NewtonFallback             \<comment> \<open>Torus mapping with Newton-Raphson did not converge\<close>
  | BisectionNotConverged vec  \<comment> \<open>... with bisection did not converge, for energies\<close>
  | RadialNewtonFallback       \<comment> \<open>Radial angle mapping with Newton-Raphson did not converge\<close>
  | RadialBisectionNotConverged vec

text \<open>Python's float \<open>%\<close> (numpy.remainder): the result has the sign of the divisor.\<close>

definition fmod :: "real \<Rightarrow> real \<Rightarrow> real" where
  "fmod x y = x - y * of_int \<lfloor>x / y\<rfloor>"

text \<open>The recurring expression \<open>(x + numpy.pi) % (2.0 * numpy.pi) - numpy.pi\<close>.\<close>

definition wrap_angle :: "real \<Rightarrow> real" where
  "wrap_angle x = fmod (x + pi) (2 * pi) - pi"

text \<open>numpy.linspace(start, stop, num).\<close>

definition linspace :: "real \<Rightarrow> real \<Rightarrow> nat \<Rightarrow> vec" where
  "linspace a b n =
     (if n = 1 then [a]
      else map (\<lambda>i. a + real i * ((b - a) / real (n - 1))) [0..<n])"

text \<open>numpy.polynomial.polynomial.polyval: coefficients from the constant term up.\<close>

fun polyval :: "real \<Rightarrow> vec \<Rightarrow> real" where
  "polyval x [] = 0"
| "polyval x (c # cs) = c + x * polyval x cs"

text \<open>
  numpy.polynomial.polynomial.polyder(c, m): one derivative maps \<open>[c0, c1, c2, ...]\<close> to
  \<open>[1 c1, 2 c2, ...]\<close>, and a constant to \<open>[0]\<close>.
\<close>

definition polyder1 :: "vec \<Rightarrow> vec" where
  "polyder1 cs =
     (if length cs \<le> 1 then [0]
      else map (\<lambda>j. real j * cs ! j) [1..<length cs])"

fun polyder :: "nat \<Rightarrow> vec \<Rightarrow> vec" where
  "polyder 0 cs = cs"
| "polyder (Suc m) cs = polyder m (polyder1 cs)"

text \<open>numpy.mean and numpy.nanmean of a row (there is no NaN in the model).\<close>

definition mean :: "vec \<Rightarrow> real" where
  "mean xs = sum_list xs / real (length xs)"

text \<open>numpy.nanargmin and numpy.nanargmax of a non-empty row: the first extremal index.\<close>

fun nanargmin :: "vec \<Rightarrow> nat" where
  "nanargmin [] = 0"
| "nanargmin [x] = 0"
| "nanargmin (x # y # ys) =
     (let j = nanargmin (y # ys) in if x \<le> (y # ys) ! j then 0 else Suc j)"

fun nanargmax :: "vec \<Rightarrow> nat" where
  "nanargmax [] = 0"
| "nanargmax [x] = 0"
| "nanargmax (x # y # ys) =
     (let j = nanargmax (y # ys) in if (y # ys) ! j \<le> x then 0 else Suc j)"

text \<open>
  The real part of numpy.fft.rfft of a row of length \<open>N\<close>: the coefficients
  \<open>n = 0 .. N div 2\<close> of the discrete Fourier transform.
\<close>

definition rfft_real :: "vec \<Rightarrow> vec" where
  "rfft_real xs =
     (let N = length xs in
      map (\<lambda>n. sum_list (map (\<lambda>k. xs ! k * cos (2 * pi * real n * real k / real N)) [0..<N]))
        [0..<N div 2 + 1])"

section \<open>Configuration, collaborators and per-torus parameters\<close>

text \<open>
  The keyword arguments of \<open>actionAngleSphericalInverse.__init__\<close>. The potential is an
  opaque value of type \<open>'p\<close>; \<open>pot = None\<close> is the default of the source. Counts are
  natural numbers (numpy.linspace refuses a negative count).
\<close>

record 'p config =
  pot :: "'p option"
  Es :: vec
  Ls :: vec
  setup_interp :: bool
  Rmax :: real
  Rinf :: real
  nL :: nat
  nE :: nat
  nta :: nat
  use_pointtransform :: bool
  pt_deg :: nat
  pt_nra :: nat
  maxiter :: int
  angle_tol :: real
  bisect :: bool

text \<open>
  The collaborators, whose code is not part of the engine: the potential layer (\<open>vcirc\<close>, \<open>rl\<close>, \<open>evaluatePotentials\<close>,
  \<open>evaluateRforces\<close>, all at \<open>z = 0\<close>), the forward solver actionAngleSpherical
  (\<open>actionsFreqs\<close> returning \<open>(Jr, Omegar, Omegaz)\<close>, \<open>EccZmaxRperiRap\<close> returning
  \<open>(rperi, rap)\<close>, both called with \<open>(R, vR, vT)\<close> and \<open>z = vz = 0\<close>), scipy
  (\<open>newton_rl L\<close> is the root of \<open>x vcirc(x) = L\<close> that optimize.newton returns;
  \<open>leastsq f start\<close> is \<open>optimize.leastsq(f, start)[0]\<close>, or the exception that it
  or the residual function \<open>f\<close> raises), and the isochrone model with
  its parameters \<open>(amp, b)\<close> passed at every call (IsochronePotential, its radial
  force, the methods of _actionAngleIsochroneHelper and actionAngleIsochroneInverse).
  Every theorem below holds for all collaborators.
\<close>

record 'p collaborators =
  vcirc :: "'p \<Rightarrow> real \<Rightarrow> real"
  rl :: "'p \<Rightarrow> real \<Rightarrow> real"
  newton_rl :: "'p \<Rightarrow> real \<Rightarrow> real"
  evaluatePotentials :: "'p \<Rightarrow> real \<Rightarrow> real"
  evaluateRforces :: "'p \<Rightarrow> real \<Rightarrow> real"
  actionsFreqs :: "'p \<Rightarrow> real \<Rightarrow> real \<Rightarrow> real \<Rightarrow> real \<times> real \<times> real"
  EccZmaxRperiRap :: "'p \<Rightarrow> real \<Rightarrow> real \<Rightarrow> real \<Rightarrow> real \<times> real"
  leastsq :: "(vec \<Rightarrow> error + vec) \<Rightarrow> vec \<Rightarrow> error + vec"
  IsochronePotential :: "real \<Rightarrow> real \<Rightarrow> real \<Rightarrow> real"
  iso_Rforce :: "real \<Rightarrow> real \<Rightarrow> real \<Rightarrow> real"
  iso_rperirap :: "real \<Rightarrow> real \<Rightarrow> real \<Rightarrow> real \<Rightarrow> real \<times> real"
  iso_angler :: "real \<Rightarrow> real \<Rightarrow> real \<Rightarrow> real \<Rightarrow> real \<Rightarrow> bool \<Rightarrow> real"
  iso_danglerdr_constant_L ::
    "real \<Rightarrow> real \<Rightarrow> real \<Rightarrow> real \<Rightarrow> real \<Rightarrow> real \<Rightarrow> bool \<Rightarrow> real"
  iso_Jr :: "real \<Rightarrow> real \<Rightarrow> real \<Rightarrow> real \<Rightarrow> real"
  iso_Or :: "real \<Rightarrow> real \<Rightarrow> real \<Rightarrow> real"
  iso_drdEL_constant_angler ::
    "real \<Rightarrow> real \<Rightarrow> real \<Rightarrow> real \<Rightarrow> real \<Rightarrow> real \<Rightarrow> real \<Rightarrow> real \<Rightarrow> real \<times> real"
  isoaainv ::
    "real \<Rightarrow> real \<Rightarrow> real \<Rightarrow> real \<Rightarrow> real \<Rightarrow> real \<Rightarrow> real \<Rightarrow> real
       \<Rightarrow> real \<times> real \<times> real \<times> real \<times> real \<times> real"

text \<open>
  One row of the parameter grids \<open>Egrid, Lgrid, ampgrid, bgrid, Omegargrid, rperigrid,
  rapgrid, ptrperigrid, ptrapgrid, ptcoeffsgrid, ptderivcoeffsgrid, ptderiv2coeffsgrid\<close>:
  the source tiles each per-torus array over the nodes, so every node of a torus is
  evaluated with the parameters of that torus.
\<close>

record torus =
  t_E :: real
  t_L :: real
  t_amp :: real
  t_b :: real
  t_Omegar :: real
  t_rperi :: real
  t_rap :: real
  t_ptrperi :: real
  t_ptrap :: real
  t_ptcoeffs :: vec
  t_ptderivcoeffs :: vec
  t_ptderiv2coeffs :: vec

section \<open>The module-level kernels\<close>

text \<open>\<open>_anglera\<close>, for one node.\<close>

definition anglera :: "'p collaborators \<Rightarrow> 'p \<Rightarrow> torus \<Rightarrow> bool \<Rightarrow> real \<Rightarrow> real" where
  "anglera K p T vrneg ra =
     (let x = (ra - t_ptrperi T) / (t_ptrap T - t_ptrperi T);
          r = (t_rap T - t_rperi T) * polyval x (t_ptcoeffs T) + t_rperi T;
          vr2u = 2 * (t_E T - evaluatePotentials K p r) - (t_L T)\<^sup>2 / r\<^sup>2;
          vr2 = (if vr2u < 0 then 0 else vr2u);
          piprime = (t_rap T - t_rperi T) / (t_ptrap T - t_ptrperi T)
                      * polyval x (t_ptderivcoeffs T)
      in iso_angler K (t_amp T) (t_b T) ra (vr2 * inverse (piprime\<^sup>2)) (t_L T) vrneg)"

text \<open>\<open>_danglera\<close>, for one node (always called with the default \<open>vrneg = False\<close>).\<close>

definition danglera :: "'p collaborators \<Rightarrow> 'p \<Rightarrow> torus \<Rightarrow> real \<Rightarrow> real" where
  "danglera K p T ra =
     (let x = (ra - t_ptrperi T) / (t_ptrap T - t_ptrperi T);
          r = (t_rap T - t_rperi T) * polyval x (t_ptcoeffs T) + t_rperi T;
          L2 = (t_L T)\<^sup>2;
          vr2u = 2 * (t_E T - evaluatePotentials K p r) - L2 / r\<^sup>2;
          vr2 = (if vr2u < 0 then 0 else vr2u);
          piprime = (t_rap T - t_rperi T) / (t_ptrap T - t_ptrperi T)
                      * polyval x (t_ptderivcoeffs T);
          piprime2 = (t_rap T - t_rperi T) / (t_ptrap T - t_ptrperi T)\<^sup>2
                      * polyval x (t_ptderiv2coeffs T);
          dEadra = - piprime2 * inverse (piprime ^ 3) * vr2
                   + (L2 * inverse (r ^ 3) + evaluateRforces K p r) / piprime
                   - L2 * inverse (ra ^ 3)
                   - iso_Rforce K (t_amp T) (t_b T) ra
      in iso_danglerdr_constant_L K (t_amp T) (t_b T) ra (vr2 * inverse (piprime\<^sup>2))
           (t_L T) dEadra False)"

text \<open>\<open>_jraora\<close>, for one node: \<open>(Jr^A, Omegar^A, E^A)\<close>.\<close>

definition jraora :: "'p collaborators \<Rightarrow> 'p \<Rightarrow> torus \<Rightarrow> real \<Rightarrow> real \<times> real \<times> real" where
  "jraora K p T ra =
     (let x = (ra - t_ptrperi T) / (t_ptrap T - t_ptrperi T);
          r = (t_rap T - t_rperi T) * polyval x (t_ptcoeffs T) + t_rperi T;
          L2 = (t_L T)\<^sup>2;
          vr2u = 2 * (t_E T - evaluatePotentials K p r) - L2 / r\<^sup>2;
          vr2 = (if vr2u < 0 then 0 else vr2u);
          piprime = (t_rap T - t_rperi T) / (t_ptrap T - t_ptrperi T)
                      * polyval x (t_ptderivcoeffs T);
          Ea = (1 / 2) * (vr2 * inverse (piprime\<^sup>2) + L2 * inverse (ra\<^sup>2))
               + IsochronePotential K (t_amp T) (t_b T) ra
      in (iso_Jr K (t_amp T) (t_b T) Ea (t_L T), iso_Or K (t_amp T) (t_b T) Ea, Ea))"

text \<open>\<open>_djradjrLish\<close>, for one node: \<open>(djradjr, djradLish, dEadE, dEadL)\<close>.\<close>

definition djradjrLish ::
  "'p collaborators \<Rightarrow> 'p \<Rightarrow> torus \<Rightarrow> real \<Rightarrow> real \<times> real \<times> real \<times> real" where
  "djradjrLish K p T ra =
     (let x = (ra - t_ptrperi T) / (t_ptrap T - t_ptrperi T);
          r = (t_rap T - t_rperi T) * polyval x (t_ptcoeffs T) + t_rperi T;
          L2 = (t_L T)\<^sup>2;
          vr2u = 2 * (t_E T - evaluatePotentials K p r) - L2 / r\<^sup>2;
          vr2 = (if vr2u < 0 then 0 else vr2u);
          piprime = (t_rap T - t_rperi T) / (t_ptrap T - t_ptrperi T)
                      * polyval x (t_ptderivcoeffs T);
          piprime2 = (t_rap T - t_rperi T) / (t_ptrap T - t_ptrperi T)\<^sup>2
                      * polyval x (t_ptderiv2coeffs T);
          Ea = (1 / 2) * (vr2 * inverse (piprime\<^sup>2) + L2 * inverse (ra\<^sup>2))
               + IsochronePotential K (t_amp T) (t_b T) ra;
          dEadra = - piprime2 * inverse (piprime ^ 3) * vr2
                   + (L2 * inverse (r ^ 3) + evaluateRforces K p r) / piprime
                   - L2 * inverse (ra ^ 3)
                   - iso_Rforce K (t_amp T) (t_b T) ra;
          pardEapardL = t_L T * (inverse (ra\<^sup>2) - inverse (r\<^sup>2));
          Ora = iso_Or K (t_amp T) (t_b T) Ea;
          dd = iso_drdEL_constant_angler K (t_amp T) (t_b T) ra
                 (vr2 * inverse (piprime\<^sup>2)) Ea (t_L T) dEadra pardEapardL;
          dEadE = fst dd * dEadra + 1;
          dEadL = snd dd * dEadra + pardEapardL
      in (t_Omegar T / Ora * dEadE, dEadL / Ora, dEadE, dEadL))"

section \<open>Isochrone matching\<close>

text \<open>
  Lines 120-169 of \<open>__init__\<close>: the (E, L) nodes. Without \<open>setup_interp\<close> they are the
  two input lists, which must have one length; with it they are the flattened
  \<open>nL\<close> by \<open>nE\<close> grid. The result is \<open>(self._Ls, self._internal_Es, self._internal_Ls)\<close>.
\<close>

definition internal_EL :: "'p collaborators \<Rightarrow> 'p \<Rightarrow> 'p config \<Rightarrow> error + vec \<times> vec \<times> vec" where
  "internal_EL K p c =
     (if \<not> setup_interp c then
        (if length (Es c) \<noteq> length (Ls c) then Inl ValueError_lengths
         else Inr (Ls c, Es c, Ls c))
      else
        (let Lmin = 1 / 100;
             Lsg = linspace Lmin (Rmax c * vcirc K p (Rmax c)) (nL c)
         in if Lsg = [] then Inl IndexError
            else
              (let RL = map (rl K p) Lsg;
                   ERRL = map2 (\<lambda>r l. evaluatePotentials K p r + l\<^sup>2 / 2 / r\<^sup>2) RL Lsg;
                   ERRa = map (\<lambda>l. evaluatePotentials K p (Rinf c) + l\<^sup>2 / 2 / (Rinf c)\<^sup>2) Lsg
               in Inr (Lsg,
                       concat (map2 (\<lambda>a r. map (\<lambda>x. x * (a - r) + r) (linspace 0 1 (nE c)))
                                 ERRa ERRL),
                       concat (map (replicate (nE c)) Lsg)))))"

text \<open>
  Lines 172-206 for node \<open>i\<close>: the orbit is set up at the radius of the circular orbit
  of its \<open>L\<close>; in grid mode \<open>vrls[::nE] = 0\<close> forces every \<open>nE\<close>-th node to be circular.
  The result is \<open>(Jr, Omegar, Omegaz, rperi, rap)\<close>.
\<close>

definition forward_node ::
  "'p collaborators \<Rightarrow> 'p \<Rightarrow> 'p config \<Rightarrow> nat \<Rightarrow> real \<Rightarrow> real
     \<Rightarrow> real \<times> real \<times> real \<times> real \<times> real" where
  "forward_node K p c i E L =
     (let rls = newton_rl K p L;
          vrls0 = sqrt (2 * (E - evaluatePotentials K p rls) - L\<^sup>2 / rls\<^sup>2);
          vrls = (if setup_interp c \<and> i mod nE c = 0 then 0 else vrls0);
          af = actionsFreqs K p rls vrls (L / rls);
          pa = EccZmaxRperiRap K p rls vrls (L / rls)
      in (fst af, fst (snd af), snd (snd af), fst pa, snd pa))"

text \<open>
  Lines 209-218 (and 1689-1698 of the single-torus class): the product \<open>amp b\<close> of the
  matching isochrone and the test \<open>ampb < 0.0\<close>. The test is written out for the float
  quotient: over a zero denominator the quotient is minus infinity for a negative
  numerator (the test holds) and plus infinity or NaN otherwise (it does not).
\<close>

definition ampb_of :: "real \<Rightarrow> real \<Rightarrow> real \<Rightarrow> real" where
  "ampb_of L2 Omegar Omegaz = L2 * Omegaz * (Omegar - Omegaz) / (2 * Omegaz - Omegar)\<^sup>2"

definition ampb_negative :: "real \<Rightarrow> real \<Rightarrow> real \<Rightarrow> bool" where
  "ampb_negative L2 Omegar Omegaz =
     (if (2 * Omegaz - Omegar)\<^sup>2 = 0 then L2 * Omegaz * (Omegar - Omegaz) < 0
      else ampb_of L2 Omegar Omegaz < 0)"

definition amp_of :: "real \<Rightarrow> real \<Rightarrow> real \<Rightarrow> real \<Rightarrow> real" where
  "amp_of L2 jr Omegar Omegaz =
     sqrt (Omegar * (jr + sqrt (L2 + 4 * ampb_of L2 Omegar Omegaz) * Omegaz / Omegar) ^ 3)"

section \<open>The point transformation\<close>

text \<open>
  \<open>opt_func\<close>, the residual function handed to optimize.leastsq for torus \<open>ii\<close>. It
  builds the constrained coefficients \<open>ccoeffs\<close> from the free ones; \<open>ccoeffs[3]\<close> needs
  \<open>pt_deg + 1 > 3\<close> (an IndexError otherwise), and the slice assignment \<open>ccoeffs[4::] = coeffs\<close> needs \<open>coeffs\<close>
  to have the length of the slice or length one.
\<close>

definition constrained_coeffs :: "nat \<Rightarrow> vec \<Rightarrow> error + vec" where
  "constrained_coeffs deg coeffs =
     (if deg < 3 then Inl IndexError
      else if length coeffs \<noteq> deg - 3 \<and> length coeffs \<noteq> 1 then Inl NumpyShapeError
      else
        (let c3 = - sum_list (tl (polyder 1 ([0, 0] @ coeffs)));
             c2 = - sum_list coeffs - c3;
             rest = (if length coeffs = deg - 3 then coeffs else replicate (deg - 3) (hd coeffs))
         in Inr ([0, 1, c2, c3] @ rest)))"

definition opt_func ::
  "'p collaborators \<Rightarrow> 'p \<Rightarrow> nat \<Rightarrow> nat \<Rightarrow> real \<Rightarrow> real \<Rightarrow> real \<Rightarrow> real \<Rightarrow> real \<Rightarrow> real
     \<Rightarrow> real \<Rightarrow> real \<Rightarrow> real \<Rightarrow> vec \<Rightarrow> error + vec" where
  "opt_func K p deg nra E L2 rperi rap pt_rperi pt_rap amp b Ea coeffs =
     (case constrained_coeffs deg coeffs of
        Inl e \<Rightarrow> Inl e
      | Inr ccoeffs \<Rightarrow>
          Inr (map (\<lambda>ra.
                 let rmesh = (rap - rperi) * polyval ra ccoeffs + rperi;
                     vr2u = 2 * (E - evaluatePotentials K p rmesh) - L2 / rmesh\<^sup>2;
                     vr2mesh = (if vr2u < 0 then 0 else vr2u);
                     vrmesh = sqrt vr2mesh;
                     real_ramesh = (pt_rap - pt_rperi) * ra + pt_rperi;
                     vra2u = 2 * (Ea - IsochronePotential K amp b real_ramesh)
                               - L2 / real_ramesh\<^sup>2;
                     vra2mesh = (if vra2u < 0 then 0 else vra2u);
                     vramesh = sqrt vra2mesh;
                     piprime = polyval ra (polyder 1 ccoeffs) * (rap - rperi) / (pt_rap - pt_rperi);
                     vrtildemesh = (vramesh - sqrt vr2mesh * (1 / piprime - piprime)) / piprime
                 in vrmesh - vrtildemesh)
               (linspace 0 1 nra)))"

text \<open>
  One torus before the point transformation is set up: the values that lines 120-228
  store for it.
\<close>

record matched =
  m_E :: real
  m_L :: real
  m_jr :: real
  m_Omegar :: real
  m_Omegaz :: real
  m_rperi :: real
  m_rap :: real
  m_amp :: real
  m_b :: real

text \<open>
  What \<open>_setup_pointtransform\<close> (or the branch of \<open>__init__\<close> taken instead) stores for
  one torus: its rows of \<open>_pt_coeffs\<close>, \<open>_pt_deriv_coeffs\<close>, \<open>_pt_deriv2_coeffs\<close> and its
  entries of \<open>_pt_rperi\<close>, \<open>_pt_rap\<close>.
\<close>

record ptrow =
  pr_coeffs :: vec
  pr_deriv_coeffs :: vec
  pr_deriv2_coeffs :: vec
  pr_rperi :: real
  pr_rap :: real

text \<open>
  The loop \<open>for ii in range(self._nE)\<close> of \<open>_setup_pointtransform\<close>, over the tori that are
  left; \<open>coeffs\<close> is the local variable of that name, carried from one torus to the next
  (it is read only for \<open>ii > 0\<close>, when the previous pass has assigned it).
\<close>

fun setup_pointtransform_loop ::
  "'p collaborators \<Rightarrow> 'p \<Rightarrow> nat \<Rightarrow> nat \<Rightarrow> nat \<Rightarrow> vec \<Rightarrow> matched list \<Rightarrow> error + ptrow list" where
  "setup_pointtransform_loop K p deg nra ii coeffs [] = Inr []"
| "setup_pointtransform_loop K p deg nra ii coeffs (m # ms) =
     (if m_jr m < 1 / 10 ^ 10 then
        (let row = \<lparr>pr_coeffs = (replicate (deg + 1) 0)[1 := 1],
                      pr_deriv_coeffs = replicate deg 1,
                      pr_deriv2_coeffs = replicate (deg - 1) 0,
                      pr_rperi = m_rperi m, pr_rap = m_rap m\<rparr>
         in case setup_pointtransform_loop K p deg nra (Suc ii) (pr_coeffs row) ms of
              Inl e \<Rightarrow> Inl e
            | Inr rows \<Rightarrow> Inr (row # rows))
      else
        (let L2 = (m_L m)\<^sup>2;
             Etilde = L2 / 2 / (m_rperi m)\<^sup>2 + IsochronePotential K (m_amp m) (m_b m) (m_rperi m);
             pp = iso_rperirap K (m_amp m) (m_b m) Etilde L2;
             start_coeffs =
               (if ii = 0 then 0 # replicate (deg - 4) 0
                else map (\<lambda>c. c / coeffs ! 1) (drop 2 coeffs))
         in case leastsq K
                   (opt_func K p deg nra (m_E m) L2 (m_rperi m) (m_rap m) (fst pp) (snd pp)
                      (m_amp m) (m_b m) Etilde)
                   start_coeffs of
              Inl e \<Rightarrow> Inl e
            | Inr fitted \<Rightarrow>
                (let ccoeffs = (replicate (deg + 1) 0)[1 := 1];
                     row = \<lparr>pr_coeffs = ccoeffs,
                            pr_deriv_coeffs = polyder 1 ccoeffs,
                            pr_deriv2_coeffs = polyder 2 ccoeffs,
                            pr_rperi = fst pp, pr_rap = snd pp\<rparr>
                 in case setup_pointtransform_loop K p deg nra (Suc ii) ccoeffs ms of
                      Inl e \<Rightarrow> Inl e
                    | Inr rows \<Rightarrow> Inr (row # rows))))"

text \<open>
  Lines 236-262 of \<open>__init__\<close>. \<open>_setup_pointtransform\<close> sizes its arrays and its loop by
  \<open>self._nE\<close>: the number of tori without \<open>setup_interp\<close>, but only the first \<open>nE\<close> of
  the \<open>nE nL\<close> tori of a grid (\<open>_create_rgrid\<close> then finds arrays of the wrong shape, see
  there). The branch \<open>elif False\<close> (the identity transformation) is never taken. The last
  branch stores the cubic \<open>(0, 1.3, 0, -0.3)\<close> with its two derivatives.
\<close>

definition weird_ptrow :: "matched \<Rightarrow> ptrow" where
  "weird_ptrow m =
     (let c1 = 1 + 3 / 10; c3 = 1 - c1
      in \<lparr>pr_coeffs = [0, c1, 0, c3],
          pr_deriv_coeffs = [c1, 0, 3 * c3],
          pr_deriv2_coeffs = [0, 6 * c3],
          pr_rperi = m_rperi m, pr_rap = m_rap m\<rparr>)"

definition pointtransform :: "'p collaborators \<Rightarrow> 'p \<Rightarrow> 'p config \<Rightarrow> matched list \<Rightarrow> error + ptrow list" where
  "pointtransform K p c ms =
     (if use_pointtransform c \<and> pt_deg c > 1 then
        setup_pointtransform_loop K p (pt_deg c) (pt_nra c) 0 []
          (if setup_interp c then take (nE c) ms else ms)
      else Inr (map weird_ptrow ms))"

section \<open>The angle table\<close>

text \<open>
  \<open>_create_rgrid\<close> works on the arrays \<open>rgrid\<close>, \<open>ta\<close> and \<open>unconv\<close>, all of one
  shape, and every update is element by element under the mask \<open>unconv\<close>. The model
  keeps the three entries of a node together; the compressed temporaries of the source
  (\<open>dta\<close>, \<open>dr\<close>, \<open>newta\<close>, \<open>tryr_min\<close>) are the values computed for the nodes whose
  mask is set.
\<close>

record node =
  n_r :: real
  n_ta :: real
  n_unconv :: bool

record bnode = node +
  n_tryr_min :: real
  n_dr :: real

definition any_unconv :: "'a node_scheme list list \<Rightarrow> bool" where
  "any_unconv st = list_ex (list_ex n_unconv) st"

text \<open>
  The trial radii of the coarse scan (lines 531-535), the scanned angles \<open>rta\<close> of one
  torus, and the first guess of its row (lines 563-580): the trial radius whose angle is
  nearest to the target, rescaled with \<open>rperi\<close> and \<open>rap\<close>; then node \<open>0\<close> is set to
  \<open>_pt_rperi\<close> and node \<open>nta // 2\<close> to \<open>_pt_rap\<close>, in this order.
\<close>

definition rta_row :: "'p collaborators \<Rightarrow> 'p \<Rightarrow> nat \<Rightarrow> torus \<Rightarrow> vec" where
  "rta_row K p n T =
     map (\<lambda>g. anglera K p T False
                (g * (t_ptrap T - t_ptrperi T - 2 * (1 / 10 ^ 8)) + (t_ptrperi T + 1 / 10 ^ 8)))
       (linspace 0 1 (2 * n))"

definition guess_row :: "'p collaborators \<Rightarrow> 'p \<Rightarrow> nat \<Rightarrow> vec \<Rightarrow> torus \<Rightarrow> vec" where
  "guess_row K p n thetaa T =
     (map (\<lambda>th. linspace 0 1 (2 * n)
                  ! nanargmin (map (\<lambda>t. \<bar>wrap_angle (t - th)\<bar>) (rta_row K p n T))
                 * (t_rap T - t_rperi T - 2 * (1 / 10 ^ 8)) + (t_rperi T + 1 / 10 ^ 8))
        thetaa)
       [0 := t_ptrperi T, n div 2 := t_ptrap T]"

text \<open>
  Lines 598-620: the angle of every guess, and the mask: node \<open>0\<close> and the nodes from
  \<open>nta // 2\<close> on are never solved; the others are unconverged while their wrapped
  residual exceeds \<open>angle_tol\<close>.
\<close>

definition start_row :: "'p collaborators \<Rightarrow> 'p \<Rightarrow> nat \<Rightarrow> real \<Rightarrow> vec \<Rightarrow> torus \<Rightarrow> node list" where
  "start_row K p n tol thetaa T =
     map (\<lambda>k. let r = guess_row K p n thetaa T ! k;
                  ta = anglera K p T False r
              in \<lparr>n_r = r, n_ta = ta,
                  n_unconv = (0 < k \<and> k < n div 2 \<and> \<bar>wrap_angle (ta - thetaa ! k)\<bar> > tol)\<rparr>)
       [0..<n]"

text \<open>
  The Newton-Raphson step \<open>dr = -dta / dtadr\<close>, cut to \<open>maxdr\<close> in size. Over a zero
  derivative the float quotient is infinite and the cut leaves a step of size \<open>maxdr\<close>
  (the derivative is read as \<open>+0.0\<close>).
\<close>

definition newton_dr :: "real \<Rightarrow> real \<Rightarrow> real \<Rightarrow> real" where
  "newton_dr dta dtadr maxdr =
     (if dtadr = 0 then sgn (- dta) * maxdr
      else (let dr = - dta / dtadr in if \<bar>dr\<bar> > maxdr then sgn dr * maxdr else dr))"

text \<open>One pass of the loop \<open>while not self._bisect\<close> (lines 629-672) at one node.\<close>

definition newton_node ::
  "'p collaborators \<Rightarrow> 'p \<Rightarrow> nat \<Rightarrow> real \<Rightarrow> torus \<Rightarrow> real \<Rightarrow> node \<Rightarrow> node" where
  "newton_node K p n tol T mta nd =
     (if \<not> n_unconv nd then nd
      else
        (let dtadr = danglera K p T (n_r nd);
             dta = wrap_angle (n_ta nd - mta);
             dr = newton_dr dta dtadr ((t_rap T - t_rperi T) / real n);
             r1 = n_r nd + dr;
             r2 = (if r1 > t_rap T then t_rap T else r1);
             r3 = (if r2 < t_rperi T then t_rperi T else r2);
             u = (\<bar>dta\<bar> > tol)
         in \<lparr>n_r = r3, n_ta = (if u then anglera K p T False r3 else n_ta nd), n_unconv = u\<rparr>))"

definition newton_step ::
  "'p collaborators \<Rightarrow> 'p \<Rightarrow> nat \<Rightarrow> real \<Rightarrow> vec \<Rightarrow> torus list \<Rightarrow> node list list \<Rightarrow> node list list" where
  "newton_step K p n tol thetaa tori st =
     map2 (\<lambda>T row. map2 (newton_node K p n tol T) thetaa row) tori st"

text \<open>
  The loop itself: it runs a pass, counts it, and stops when no node is left or when the
  count exceeds \<open>maxiter\<close> (with the warning that bisection takes over). It returns the
  arrays, the count and the warnings.
\<close>

function newton_loop ::
  "'p collaborators \<Rightarrow> 'p \<Rightarrow> nat \<Rightarrow> real \<Rightarrow> int \<Rightarrow> vec \<Rightarrow> torus list \<Rightarrow> node list list \<Rightarrow> int
     \<Rightarrow> node list list \<times> int \<times> warning list" where
  "newton_loop K p n tol mx thetaa tori st cntr =
     (if \<not> any_unconv (newton_step K p n tol thetaa tori st) then
        (newton_step K p n tol thetaa tori st, cntr + 1, [])
      else if cntr + 1 > mx then
        (newton_step K p n tol thetaa tori st, cntr + 1, [NewtonFallback])
      else newton_loop K p n tol mx thetaa tori (newton_step K p n tol thetaa tori st) (cntr + 1))"
  by pat_completeness auto
termination
  by (relation "measure (\<lambda>(K, p, n, tol, mx, thetaa, tori, st, cntr). nat (mx + 1 - cntr))") auto

declare newton_loop.simps [simp del]

text \<open>
  The bisection fallback (lines 684-745). Its start (lines 688-701): for every node the
  trial radius whose angle is nearest to the target from below (the residuals that are
  not negative are first pushed below all others, by the largest absolute residual of
  the whole array), rescaled with \<open>_pt_rperi\<close> and \<open>_pt_rap\<close>, and the width \<open>dr\<close> of
  one cell of the trial grid.
\<close>

definition da_rows :: "'p collaborators \<Rightarrow> 'p \<Rightarrow> nat \<Rightarrow> vec \<Rightarrow> torus \<Rightarrow> vec list" where
  "da_rows K p n thetaa T =
     map (\<lambda>th. map (\<lambda>t. wrap_angle (t - th)) (rta_row K p n T)) thetaa"

definition bisect_start ::
  "'p collaborators \<Rightarrow> 'p \<Rightarrow> nat \<Rightarrow> vec \<Rightarrow> torus list \<Rightarrow> node list list \<Rightarrow> bnode list list" where
  "bisect_start K p n thetaa tori st =
     (let M = Max (set (map abs (concat (concat (map (da_rows K p n thetaa) tori)))))
      in map2 (\<lambda>T row.
           map2 (\<lambda>da nd.
                  \<lparr>n_r = n_r nd, n_ta = n_ta nd, n_unconv = n_unconv nd,
                   n_tryr_min =
                     linspace 0 1 (2 * n)
                       ! nanargmax (map (\<lambda>d. if d \<ge> 0 then - M - 1 / 10 else d) da)
                     * (t_ptrap T - t_ptrperi T - 2 * (1 / 10 ^ 8)) + (t_ptrperi T + 1 / 10 ^ 8),
                   n_dr = 2 / (2 * real n - 1) * (t_ptrap T - t_ptrperi T)\<rparr>)
             (da_rows K p n thetaa T) row)
           tori st)"

text \<open>One pass of the loop \<open>while True\<close> (lines 702-745) at one node.\<close>

definition bisect_node :: "'p collaborators \<Rightarrow> 'p \<Rightarrow> real \<Rightarrow> torus \<Rightarrow> real \<Rightarrow> bnode \<Rightarrow> bnode" where
  "bisect_node K p tol T mta bn =
     (if \<not> n_unconv bn then bn\<lparr>n_dr := n_dr bn * (1 / 2)\<rparr>
      else
        (let dr = n_dr bn * (1 / 2);
             r = n_tryr_min bn + dr;
             newta = fmod (anglera K p T False r + 2 * pi) (2 * pi);
             dta = wrap_angle (newta - mta)
         in \<lparr>n_r = r, n_ta = newta, n_unconv = (\<bar>dta\<bar> > tol),
             n_tryr_min = (if newta < mta then r else n_tryr_min bn), n_dr = dr\<rparr>))"

definition bisect_step ::
  "'p collaborators \<Rightarrow> 'p \<Rightarrow> real \<Rightarrow> vec \<Rightarrow> torus list \<Rightarrow> bnode list list \<Rightarrow> bnode list list" where
  "bisect_step K p tol thetaa tori st =
     map2 (\<lambda>T row. map2 (bisect_node K p tol T) thetaa row) tori st"

definition unconv_energies :: "torus list \<Rightarrow> bnode list list \<Rightarrow> vec" where
  "unconv_energies tori st =
     sort (remdups (concat (map2 (\<lambda>T row. map (\<lambda>nd. t_E T) (filter n_unconv row)) tori st)))"

function bisect_loop ::
  "'p collaborators \<Rightarrow> 'p \<Rightarrow> real \<Rightarrow> int \<Rightarrow> vec \<Rightarrow> torus list \<Rightarrow> bnode list list \<Rightarrow> int
     \<Rightarrow> bnode list list \<times> warning list" where
  "bisect_loop K p tol mx thetaa tori st cntr =
     (if \<not> any_unconv (bisect_step K p tol thetaa tori st) then
        (bisect_step K p tol thetaa tori st, [])
      else if cntr + 1 > mx then
        (bisect_step K p tol thetaa tori st,
         [BisectionNotConverged (unconv_energies tori (bisect_step K p tol thetaa tori st))])
      else bisect_loop K p tol mx thetaa tori (bisect_step K p tol thetaa tori st) (cntr + 1))"
  by pat_completeness auto
termination
  by (relation "measure (\<lambda>(K, p, tol, mx, thetaa, tori, st, cntr). nat (mx + 1 - cntr))") auto

declare bisect_loop.simps [simp del]

text \<open>
  Line 746, \<open>rgrid[:, nta // 2 + 1 :] = rgrid[:, 1 : nta // 2][:, ::-1]\<close>, for one row.
  numpy accepts the assignment when the two slices have one length, or when the source
  slice has length one (it is then repeated); any other pair of shapes is refused.
\<close>

definition reflect_fits :: "nat \<Rightarrow> bool" where
  "reflect_fits n = (n div 2 - 1 = n - (n div 2 + 1) \<or> n div 2 - 1 = 1)"

definition reflect_row :: "nat \<Rightarrow> vec \<Rightarrow> vec" where
  "reflect_row n row =
     (let src = rev (take (n div 2 - 1) (drop 1 row));
          len = n - (n div 2 + 1)
      in take (n div 2 + 1) row @ (if length src = len then src else replicate len (hd src)))"

text \<open>
  Lines 598-745: the radii after the two loops, with the warnings. The Newton-Raphson
  loop is skipped with \<open>bisect\<close>; the bisection runs with \<open>bisect\<close> or when the
  count of the first loop exceeds \<open>maxiter\<close>.
\<close>

definition solve_rgrid ::
  "'p collaborators \<Rightarrow> 'p \<Rightarrow> nat \<Rightarrow> real \<Rightarrow> int \<Rightarrow> bool \<Rightarrow> vec \<Rightarrow> torus list
     \<Rightarrow> grid \<times> warning list" where
  "solve_rgrid K p n tol mx bis thetaa tori =
     (let st0 = map (start_row K p n tol thetaa) tori;
          nr = (if bis then (st0, 0, []) else newton_loop K p n tol mx thetaa tori st0 0);
          st1 = fst nr; cntr = fst (snd nr); w1 = snd (snd nr)
      in if bis \<or> cntr > mx then
           (let bs = bisect_loop K p tol mx thetaa tori (bisect_start K p n thetaa tori st1) 0
            in (map (map n_r) (fst bs), w1 @ snd bs))
         else (map (map n_r) st1, w1))"

text \<open>
  \<open>_create_rgrid\<close>: the returned \<open>rgrid\<close> and the warnings. Line 559 reads \<open>rs[0]\<close>, so
  there must be a torus; line 746 must fit. (The angles of the reflected half, lines
  752-768, only feed the diagnostic \<open>self._dta\<close> and are left out.)
\<close>

definition create_rgrid ::
  "'p collaborators \<Rightarrow> 'p \<Rightarrow> nat \<Rightarrow> real \<Rightarrow> int \<Rightarrow> bool \<Rightarrow> vec \<Rightarrow> torus list
     \<Rightarrow> error + grid \<times> warning list" where
  "create_rgrid K p n tol mx bis thetaa tori =
     (if tori = [] then Inl IndexError
      else if reflect_fits n then
        Inr (map (reflect_row n) (fst (solve_rgrid K p n tol mx bis thetaa tori)),
             snd (solve_rgrid K p n tol mx bis thetaa tori))
      else Inl NumpyShapeError)"

section \<open>Fourier coefficients\<close>

text \<open>
  Lines 314-349, for one torus: the real parts of the transforms without the \<open>n = 0\<close>
  term, divided by the number of nodes. (Lines 321-328 assign \<open>_dSndJr\<close> and
  \<open>_dSndLish\<close> a first time; lines 329-349 replace both.)
\<close>

definition extract_nSn :: "real \<Rightarrow> vec \<Rightarrow> vec" where
  "extract_nSn jr jra = map (\<lambda>x. x / real (length jra)) (tl (rfft_real (map (\<lambda>x. x - jr) jra)))"

definition extract_dSndJr :: "vec \<Rightarrow> vec \<Rightarrow> vec" where
  "extract_dSndJr jra djradjr =
     map (\<lambda>x. x / real (length jra)) (tl (rfft_real (map (\<lambda>x. x / mean djradjr - 1) djradjr)))"

definition extract_dSndLish :: "vec \<Rightarrow> vec \<Rightarrow> vec" where
  "extract_dSndLish jra djradLish =
     map (\<lambda>x. x / real (length jra)) (tl (rfft_real (map (\<lambda>x. x - mean djradLish) djradLish)))"

text \<open>Lines 352-355: \<open>a[numpy.fabs(a) < eps] = 0.0\<close>, run only under \<open>setup_interp\<close>.\<close>

definition zero_small :: "real \<Rightarrow> vec \<Rightarrow> vec" where
  "zero_small eps xs = map (\<lambda>x. if \<bar>x\<bar> < eps then 0 else x) xs"

text \<open>Lines 356-357: the division by \<open>_nforSn[1:]\<close>, the harmonic numbers \<open>1, 2, ...\<close>.\<close>

definition divide_by_n :: "nat \<Rightarrow> vec \<Rightarrow> vec" where
  "divide_by_n n xs = map2 (\<lambda>x k. x / real k) xs [1..<n div 2 + 1]"

section \<open>The engine\<close>

text \<open>The attributes of a constructed instance that the queries or the theorems below read.\<close>

record 'p engine =
  self_pot :: 'p
  self_interp :: bool
  self_Ls :: vec
  self_internal_Es :: vec
  self_internal_Ls :: vec
  self_jr_orig :: vec
  self_jr :: vec
  self_Omegar_orig :: vec
  self_Omegar :: vec
  self_Omegaz_orig :: vec
  self_Omegaz :: vec
  self_OmegazoverOmegar :: vec
  self_rperi :: vec
  self_rap :: vec
  self_amp :: vec
  self_b :: vec
  self_pt_rperi :: vec
  self_pt_rap :: vec
  self_pt_coeffs :: grid
  self_pt_deriv_coeffs :: grid
  self_pt_deriv2_coeffs :: grid
  self_nta :: nat
  self_thetaa :: vec
  self_maxiter :: int
  self_angle_tol :: real
  self_bisect :: bool
  self_rgrid :: grid
  self_jra :: grid
  self_djradjr :: grid
  self_djradLish :: grid
  self_nforSn :: "nat list"
  self_nSn :: grid
  self_dSndJr :: grid
  self_dSndLish :: grid

text \<open>Lines 172-228: the forward solution and the matching isochrone of every node.\<close>

definition match_node :: "'p collaborators \<Rightarrow> 'p \<Rightarrow> 'p config \<Rightarrow> nat \<Rightarrow> real \<Rightarrow> real \<Rightarrow> matched" where
  "match_node K p c i E L =
     (let f = forward_node K p c i E L;
          jr = fst f; Omegar = fst (snd f); Omegaz = fst (snd (snd f));
          amp = amp_of (L\<^sup>2) jr Omegar Omegaz
      in \<lparr>m_E = E, m_L = L, m_jr = jr, m_Omegar = Omegar, m_Omegaz = Omegaz,
          m_rperi = fst (snd (snd (snd f))), m_rap = snd (snd (snd (snd f))),
          m_amp = amp, m_b = ampb_of (L\<^sup>2) Omegar Omegaz / amp\<rparr>)"

definition match_nodes :: "'p collaborators \<Rightarrow> 'p \<Rightarrow> 'p config \<Rightarrow> vec \<Rightarrow> vec \<Rightarrow> matched list" where
  "match_nodes K p c iEs iLs =
     map (\<lambda>i. match_node K p c i (iEs ! i) (iLs ! i)) [0..<length iEs]"

definition torus_of :: "matched \<Rightarrow> ptrow \<Rightarrow> torus" where
  "torus_of m pr =
     \<lparr>t_E = m_E m, t_L = m_L m, t_amp = m_amp m, t_b = m_b m, t_Omegar = m_Omegar m,
      t_rperi = m_rperi m, t_rap = m_rap m, t_ptrperi = pr_rperi pr, t_ptrap = pr_rap pr,
      t_ptcoeffs = pr_coeffs pr, t_ptderivcoeffs = pr_deriv_coeffs pr,
      t_ptderiv2coeffs = pr_deriv2_coeffs pr\<rparr>"

text \<open>
  Lines 272-367: the attributes stored once \<open>_create_rgrid\<close> has returned \<open>rgrid\<close>.
  The refined action is the mean of \<open>Jr^A\<close> over the nodes, the refined radial
  frequency is the forward one divided by the mean of \<open>dJr^A/dJr\<close>, and the vertical
  frequency follows with the ratio of the two forward frequencies. Small Fourier
  coefficients are zeroed only under \<open>setup_interp\<close>; \<open>_nSn\<close> is not divided by the
  harmonic numbers.
\<close>

definition store ::
  "'p collaborators \<Rightarrow> 'p \<Rightarrow> 'p config \<Rightarrow> vec \<Rightarrow> matched list \<Rightarrow> ptrow list \<Rightarrow> vec \<Rightarrow> grid
     \<Rightarrow> 'p engine" where
  "store K p c Lsg ms prs thetaa rgrid =
     (let tori = map2 torus_of ms prs;
          jra = map2 (\<lambda>T row. map (\<lambda>ra. fst (jraora K p T ra)) row) tori rgrid;
          djradjr = map2 (\<lambda>T row. map (\<lambda>ra. fst (djradjrLish K p T ra)) row) tori rgrid;
          djradLish = map2 (\<lambda>T row. map (\<lambda>ra. fst (snd (djradjrLish K p T ra))) row) tori rgrid;
          jr = map mean jra;
          Omegar = map2 (\<lambda>m d. m_Omegar m / mean d) ms djradjr;
          OmegazoverOmegar = map (\<lambda>m. m_Omegaz m / m_Omegar m) ms;
          nSn = map2 extract_nSn jr jra;
          dSndJr = map2 extract_dSndJr jra djradjr;
          dSndLish = map2 extract_dSndLish jra djradLish
      in \<lparr>self_pot = p,
          self_interp = setup_interp c,
          self_Ls = Lsg,
          self_internal_Es = map m_E ms,
          self_internal_Ls = map m_L ms,
          self_jr_orig = map m_jr ms,
          self_jr = jr,
          self_Omegar_orig = map m_Omegar ms,
          self_Omegar = Omegar,
          self_Omegaz_orig = map m_Omegaz ms,
          self_Omegaz = map2 (\<lambda>q w. q * w) OmegazoverOmegar Omegar,
          self_OmegazoverOmegar = OmegazoverOmegar,
          self_rperi = map m_rperi ms,
          self_rap = map m_rap ms,
          self_amp = map m_amp ms,
          self_b = map m_b ms,
          self_pt_rperi = map pr_rperi prs,
          self_pt_rap = map pr_rap prs,
          self_pt_coeffs = map pr_coeffs prs,
          self_pt_deriv_coeffs = map pr_deriv_coeffs prs,
          self_pt_deriv2_coeffs = map pr_deriv2_coeffs prs,
          self_nta = nta c,
          self_thetaa = thetaa,
          self_maxiter = maxiter c,
          self_angle_tol = angle_tol c,
          self_bisect = bisect c,
          self_rgrid = rgrid,
          self_jra = jra,
          self_djradjr = djradjr,
          self_djradLish = djradLish,
          self_nforSn = [1..<nta c div 2 + 1],
          self_nSn = (if setup_interp c then map (zero_small (1 / 10 ^ 16)) nSn else nSn),
          self_dSndJr =
            map (divide_by_n (nta c))
              (if setup_interp c then map (zero_small (1 / 10 ^ 15)) dSndJr else dSndJr),
          self_dSndLish =
            map (divide_by_n (nta c))
              (if setup_interp c then map (zero_small (1 / 10 ^ 15)) dSndLish else dSndLish)\<rparr>)"

text \<open>
  The parameters of torus \<open>i\<close> as lines 275-304 hand them to \<open>_jraora\<close> and
  \<open>_djradjrLish\<close>: row \<open>i\<close> of \<open>_Egrid\<close>, \<open>_Lgrid\<close>, \<open>_Omegargrid\<close>, \<open>_ampgrid\<close>,
  \<open>_bgrid\<close>, \<open>_rperigrid\<close>, ..., which lines 771-782 set to copies of the attributes, one
  per node. \<open>_Omegargrid\<close> is made of \<open>_Omegar\<close> before line 310 divides it, the values
  that \<open>_Omegar_orig\<close> keeps.
\<close>

definition torus_at :: "'p engine \<Rightarrow> nat \<Rightarrow> torus" where
  "torus_at e i =
     \<lparr>t_E = self_internal_Es e ! i, t_L = self_internal_Ls e ! i,
      t_amp = self_amp e ! i, t_b = self_b e ! i, t_Omegar = self_Omegar_orig e ! i,
      t_rperi = self_rperi e ! i, t_rap = self_rap e ! i,
      t_ptrperi = self_pt_rperi e ! i, t_ptrap = self_pt_rap e ! i,
      t_ptcoeffs = self_pt_coeffs e ! i, t_ptderivcoeffs = self_pt_deriv_coeffs e ! i,
      t_ptderiv2coeffs = self_pt_deriv2_coeffs e ! i\<rparr>"

text \<open>
  Lines 263-367, once the tori are matched and their point transformations stored.
  \<open>1.0 / nta\<close> needs \<open>nta\<close> not to be zero, and \<open>_create_rgrid\<close> needs arrays of the
  point transformation with one row per torus.
\<close>

definition map_tori ::
  "'p collaborators \<Rightarrow> 'p \<Rightarrow> 'p config \<Rightarrow> vec \<Rightarrow> matched list \<Rightarrow> ptrow list
     \<Rightarrow> error + 'p engine \<times> warning list" where
  "map_tori K p c Lsg ms prs =
     (if nta c = 0 then Inl ZeroDivisionError
      else if length prs \<noteq> length ms then Inl NumpyShapeError
      else
        (let thetaa = linspace 0 (2 * pi * (1 - 1 / real (nta c))) (nta c)
         in case create_rgrid K p (nta c) (angle_tol c) (maxiter c) (bisect c) thetaa
                   (map2 torus_of ms prs) of
              Inl e \<Rightarrow> Inl e
            | Inr (rgrid, ws) \<Rightarrow> Inr (store K p c Lsg ms prs thetaa rgrid, ws)))"

text \<open>
  \<open>actionAngleSphericalInverse.__init__\<close>: the instance and the warnings, or the exception
  that ends the construction.
\<close>

definition actionAngleSphericalInverse_init ::
  "'p collaborators \<Rightarrow> 'p config \<Rightarrow> error + 'p engine \<times> warning list" where
  "actionAngleSphericalInverse_init K c =
     (case pot c of
        None \<Rightarrow> Inl OSError
      | Some p \<Rightarrow>
          (case internal_EL K p c of
             Inl e \<Rightarrow> Inl e
           | Inr (Lsg, iEs, iLs) \<Rightarrow>
               if setup_interp c \<and> nE c = 0 then Inl ValueError_slice_step
               else
                 (let ms = match_nodes K p c iEs iLs
                  in if list_ex (\<lambda>m. ampb_negative ((m_L m)\<^sup>2) (m_Omegar m) (m_Omegaz m)) ms
                     then Inl NotImplementedError
                     else
                       (case pointtransform K p c ms of
                          Inl e \<Rightarrow> Inl e
                        | Inr prs \<Rightarrow> map_tori K p c Lsg ms prs))))"

text \<open>
  Lines 1687-1704 of \<open>actionAngleSphericalInverseSingle.__init__\<close>, from the action, the
  frequencies and \<open>L\<close> that the constructor was given or has computed: the same test,
  and the parameters \<open>(amp, b)\<close> of the isochrone it sets up. When the caller has given
  \<open>L\<close> and the frequencies as Python floats (\<open>pyfloats\<close>), a division by zero raises:
  \<open>Omegaz / Omegar\<close> at line 1687 and the quotient \<open>ampb\<close> at lines 1688-1693. With numpy
  scalars (which is also what the constructor computes by itself) neither does.
\<close>

definition single_isochrone :: "bool \<Rightarrow> real \<Rightarrow> real \<Rightarrow> real \<Rightarrow> real \<Rightarrow> error + real \<times> real" where
  "single_isochrone pyfloats L jr Omegar Omegaz =
     (if pyfloats \<and> Omegar = 0 then Inl ZeroDivisionError
      else if pyfloats \<and> (2 * Omegaz - Omegar)\<^sup>2 = 0 then Inl ZeroDivisionError
      else if ampb_negative (L\<^sup>2) Omegar Omegaz then Inl NotImplementedError
      else Inr (amp_of (L\<^sup>2) jr Omegar Omegaz,
                ampb_of (L\<^sup>2) Omegar Omegaz / amp_of (L\<^sup>2) jr Omegar Omegaz))"

section \<open>Queries\<close>

text \<open>
  Lines 1350-1358 of \<open>_xvFreqs\<close> and 1551-1559 of \<open>_Freqs\<close>, the branch taken when
  \<open>self._interp\<close> is false: the index of the stored \<open>Jr\<close> nearest to the query (the
  first one on a tie; numpy refuses an empty array), then the test of that one torus.
  \<open>or\<close> does not evaluate its second operand when the first holds. \<open>_xvFreqs\<close> compares
  with \<open>self._internal_Ls\<close>, \<open>_Freqs\<close> with \<open>self._Ls\<close>.
\<close>

definition find_torus :: "vec \<Rightarrow> vec \<Rightarrow> real \<Rightarrow> real \<Rightarrow> real \<Rightarrow> error + nat" where
  "find_torus jrs Lsv jr jphi jz =
     (if jrs = [] then Inl ValueError_empty_reduction
      else
        (let indx = nanargmin (map (\<lambda>j. \<bar>jr - j\<bar>) jrs)
         in if \<bar>jr - jrs ! indx\<bar> > 1 / 10 ^ 10 then Inl ValueError_not_found
            else if length Lsv \<le> indx then Inl IndexError
            else if \<bar>jz + \<bar>jphi\<bar> - Lsv ! indx\<bar> > 1 / 10 ^ 10 then Inl ValueError_not_found
            else Inr indx))"

text \<open>
  Lines 1359-1374: the rows of the stored arrays that the query reads for torus \<open>indx\<close>.
  An array without that row raises, and so do rows of Fourier coefficients that do not
  have one entry per harmonic number (numpy cannot multiply them); neither happens on a
  constructed instance.
\<close>

record stored_torus =
  st_nSn :: vec
  st_dSndJr :: vec
  st_dSndLish :: vec
  st_OmegazoverOmegar :: real
  st_Omegar :: real
  st_Omegaz :: real
  st_amp :: real
  st_b :: real
  st_ptcoeffs :: vec
  st_ptderivcoeffs :: vec
  st_rperi :: real
  st_rap :: real
  st_ptrperi :: real
  st_ptrap :: real

definition read_torus :: "'p engine \<Rightarrow> nat \<Rightarrow> error + stored_torus" where
  "read_torus e indx =
     (if list_ex (\<lambda>n. n \<le> indx)
           [length (self_internal_Es e), length (self_nSn e), length (self_dSndJr e),
            length (self_dSndLish e), length (self_OmegazoverOmegar e), length (self_Omegar e),
            length (self_Omegaz e), length (self_amp e), length (self_b e),
            length (self_pt_coeffs e), length (self_pt_deriv_coeffs e), length (self_rperi e),
            length (self_rap e), length (self_pt_rperi e), length (self_pt_rap e)]
      then Inl IndexError
      else if list_ex (\<lambda>row. length row \<noteq> length (self_nforSn e))
                [self_nSn e ! indx, self_dSndJr e ! indx, self_dSndLish e ! indx]
      then Inl NumpyShapeError
      else Inr \<lparr>st_nSn = self_nSn e ! indx,
                st_dSndJr = self_dSndJr e ! indx,
                st_dSndLish = self_dSndLish e ! indx,
                st_OmegazoverOmegar = self_OmegazoverOmegar e ! indx,
                st_Omegar = self_Omegar e ! indx,
                st_Omegaz = self_Omegaz e ! indx,
                st_amp = self_amp e ! indx,
                st_b = self_b e ! indx,
                st_ptcoeffs = self_pt_coeffs e ! indx,
                st_ptderivcoeffs = self_pt_deriv_coeffs e ! indx,
                st_rperi = self_rperi e ! indx,
                st_rap = self_rap e ! indx,
                st_ptrperi = self_pt_rperi e ! indx,
                st_ptrap = self_pt_rap e ! indx\<rparr>)"

text \<open>
  The two sums over the harmonics: \<open>numpy.sum(c * numpy.sin(self._nforSn * a))\<close> and
  \<open>numpy.sum(self._nforSn * c * numpy.cos(self._nforSn * a))\<close>, and the one with the
  cosine alone.
\<close>

definition sin_series :: "nat list \<Rightarrow> vec \<Rightarrow> real \<Rightarrow> real" where
  "sin_series ns cs a = sum_list (map2 (\<lambda>c n. c * sin (real n * a)) cs ns)"

definition cos_series :: "nat list \<Rightarrow> vec \<Rightarrow> real \<Rightarrow> real" where
  "cos_series ns cs a = sum_list (map2 (\<lambda>c n. c * cos (real n * a)) cs ns)"

definition ncos_series :: "nat list \<Rightarrow> vec \<Rightarrow> real \<Rightarrow> real" where
  "ncos_series ns cs a = sum_list (map2 (\<lambda>c n. real n * c * cos (real n * a)) cs ns)"

text \<open>
  The entries of \<open>anglera\<close>, \<open>tar\<close> and \<open>unconv\<close> (and of \<open>tryar_min\<close> in the
  bisection) for one of the requested radial angles.
\<close>

record anode =
  a_anglera :: real
  a_tar :: real
  a_unconv :: bool

record abnode = anode +
  a_tryar_min :: real

definition any_unconv_a :: "'a anode_scheme list \<Rightarrow> bool" where
  "any_unconv_a st = list_ex a_unconv st"

text \<open>One pass of the loop of lines 1390-1421 at one angle.\<close>

definition radial_newton_node :: "nat list \<Rightarrow> vec \<Rightarrow> real \<Rightarrow> real \<Rightarrow> anode \<Rightarrow> anode" where
  "radial_newton_node ns dS tol angler nd =
     (if \<not> a_unconv nd then nd
      else
        (let danglear = 1 + 2 * ncos_series ns dS (a_anglera nd);
             dtar = wrap_angle (a_tar nd - angler);
             dar = newton_dr dtar danglear (2 * pi / 101);
             a = a_anglera nd + dar;
             u = (\<bar>dtar\<bar> > tol)
         in \<lparr>a_anglera = a,
             a_tar = (if u then a + 2 * sin_series ns dS a else a_tar nd),
             a_unconv = u\<rparr>))"

function radial_newton_loop ::
  "nat list \<Rightarrow> vec \<Rightarrow> real \<Rightarrow> int \<Rightarrow> vec \<Rightarrow> anode list \<Rightarrow> int \<Rightarrow> anode list \<times> int \<times> warning list" where
  "radial_newton_loop ns dS tol mx anglers st cntr =
     (if \<not> any_unconv_a (map2 (radial_newton_node ns dS tol) anglers st) then
        (map2 (radial_newton_node ns dS tol) anglers st, cntr + 1, [])
      else if cntr + 1 > mx then
        (map2 (radial_newton_node ns dS tol) anglers st, cntr + 1, [RadialNewtonFallback])
      else radial_newton_loop ns dS tol mx anglers
             (map2 (radial_newton_node ns dS tol) anglers st) (cntr + 1))"
  by pat_completeness auto
termination
  by (relation "measure (\<lambda>(ns, dS, tol, mx, anglers, st, cntr). nat (mx + 1 - cntr))") auto

declare radial_newton_loop.simps [simp del]

text \<open>
  One pass of the loop of lines 1428-1461 at one angle; \<open>dar\<close> is the halved step of
  the pass, one number for all angles.
\<close>

definition radial_bisect_node :: "nat list \<Rightarrow> vec \<Rightarrow> real \<Rightarrow> real \<Rightarrow> real \<Rightarrow> abnode \<Rightarrow> abnode" where
  "radial_bisect_node ns dS tol dar angler nd =
     (if \<not> a_unconv nd then nd
      else
        (let a = a_tryar_min nd + dar;
             newtar = fmod (a + 2 * sin_series ns dS a + 2 * pi) (2 * pi);
             dtar = wrap_angle (newtar - angler)
         in \<lparr>a_anglera = a, a_tar = a_tar nd, a_unconv = (\<bar>dtar\<bar> > tol),
             a_tryar_min = (if newtar < angler then a else a_tryar_min nd)\<rparr>))"

function radial_bisect_loop ::
  "nat list \<Rightarrow> vec \<Rightarrow> real \<Rightarrow> int \<Rightarrow> vec \<Rightarrow> abnode list \<Rightarrow> real \<Rightarrow> int
     \<Rightarrow> abnode list \<times> warning list" where
  "radial_bisect_loop ns dS tol mx anglers st dar cntr =
     (if \<not> any_unconv_a (map2 (radial_bisect_node ns dS tol (dar * (1 / 2))) anglers st) then
        (map2 (radial_bisect_node ns dS tol (dar * (1 / 2))) anglers st, [])
      else if cntr + 1 > mx then
        (map2 (radial_bisect_node ns dS tol (dar * (1 / 2))) anglers st,
         [RadialBisectionNotConverged
            (sort (remdups (map fst (filter (\<lambda>(a, nd). a_unconv nd)
               (zip anglers (map2 (radial_bisect_node ns dS tol (dar * (1 / 2))) anglers st))))))])
      else radial_bisect_loop ns dS tol mx anglers
             (map2 (radial_bisect_node ns dS tol (dar * (1 / 2))) anglers st) (dar * (1 / 2))
             (cntr + 1))"
  by pat_completeness auto
termination
  by (relation "measure (\<lambda>(ns, dS, tol, mx, anglers, st, dar, cntr). nat (mx + 1 - cntr))") auto

declare radial_bisect_loop.simps [simp del]

text \<open>
  Lines 1377-1461: the auxiliary radial angle of every requested radial angle, with the
  warnings.
\<close>

definition solve_anglera ::
  "nat list \<Rightarrow> vec \<Rightarrow> real \<Rightarrow> int \<Rightarrow> bool \<Rightarrow> vec \<Rightarrow> vec \<times> warning list" where
  "solve_anglera ns dS tol mx bis anglers =
     (let st0 = map (\<lambda>a. \<lparr>a_anglera = a, a_tar = a + 2 * sin_series ns dS a,
                           a_unconv = (\<bar>wrap_angle (a + 2 * sin_series ns dS a - a)\<bar> > tol)\<rparr>)
                 anglers;
          nr = (if bis then (st0, 0, []) else radial_newton_loop ns dS tol mx anglers st0 0);
          st1 = fst nr; cntr = fst (snd nr); w1 = snd (snd nr)
      in if bis \<or> cntr > mx then
           (let bs = radial_bisect_loop ns dS tol mx anglers
                       (map (\<lambda>nd. \<lparr>a_anglera = a_anglera nd, a_tar = a_tar nd,
                                    a_unconv = a_unconv nd, a_tryar_min = 0\<rparr>) st1)
                       (2 * pi) 0
            in (map a_anglera (fst bs), w1 @ snd bs))
         else (map a_anglera st1, w1))"

text \<open>
  What a query returns: the six arrays of phase-space coordinates and the three
  frequencies of the torus.
\<close>

record xvfreqs =
  x_R :: vec
  x_vR :: vec
  x_vT :: vec
  x_z :: vec
  x_vz :: vec
  x_phi :: vec
  x_OmegaR :: real
  x_Omegaphi :: real
  x_Omegaz :: real

text \<open>
  Lines 1462-1521 for one triple of angles and its solved auxiliary radial angle \<open>ara\<close>
  (an entry of \<open>anglera\<close>): the six coordinates.
\<close>

definition xv_point ::
  "'p collaborators \<Rightarrow> stored_torus \<Rightarrow> nat list \<Rightarrow> bool \<Rightarrow> real \<Rightarrow> real \<Rightarrow> real
     \<Rightarrow> real \<times> real \<times> real \<Rightarrow> real \<Rightarrow> real \<times> real \<times> real \<times> real \<times> real \<times> real" where
  "xv_point K t ns point jr jphi jz angles ara =
     (let angler = fst angles; anglephi = fst (snd angles); anglez = snd (snd angles);
          jra = jr + 2 * cos_series ns (st_nSn t) ara;
          angleza = anglez + st_OmegazoverOmegar t * (ara - angler)
                      - 2 * sin_series ns (st_dSndLish t) ara;
          anglephia = anglephi + sgn jphi * (angleza - anglez);
          xa = isoaainv K (st_amp t) (st_b t) jra jphi jz ara anglephia angleza
      in if \<not> point then xa
         else
           (let Ra = fst xa; vRa = fst (snd xa); za = fst (snd (snd (snd xa)));
                vza = fst (snd (snd (snd (snd xa)))); phia = snd (snd (snd (snd (snd xa))));
                ra = sqrt (Ra\<^sup>2 + za\<^sup>2);
                sintheta = Ra / ra;
                costheta = za / ra;
                vra = sintheta * vRa + costheta * vza;
                vta = costheta * vRa - sintheta * vza;
                x = (ra - st_ptrperi t) / (st_ptrap t - st_ptrperi t);
                r = (st_rap t - st_rperi t) * polyval x (st_ptcoeffs t) + st_rperi t;
                piprime = (st_rap t - st_rperi t) / (st_ptrap t - st_ptrperi t)
                            * polyval x (st_ptderivcoeffs t);
                vr = vra * piprime;
                vt = vta * ra / r;
                R = sintheta * r;
                z = costheta * r;
                vR = vr * sintheta + vt * costheta;
                vz = vr * costheta - vt * sintheta;
                vT = jphi / R
            in (R, vR, vT, z, vz, phia)))"

text \<open>
  \<open>_xvFreqs\<close>. The three angle arrays are given as one list of triples
  \<open>(angler, anglephi, anglez)\<close>, the common shape \<open>[N]\<close> of the docstring. When
  \<open>self._interp\<close> is set the branch is \<open>pass\<close>, and the first statement that reads one of
  the locals the other branch assigns (\<open>tdSndJr\<close>, line 1383) raises.
\<close>

definition xvFreqs ::
  "'p collaborators \<Rightarrow> 'p engine \<Rightarrow> real \<Rightarrow> real \<Rightarrow> real \<Rightarrow> (real \<times> real \<times> real) list \<Rightarrow> bool
     \<Rightarrow> error + xvfreqs \<times> warning list" where
  "xvFreqs K e jr jphi jz angles point =
     (if self_interp e then Inl UnboundLocalError
      else
        (case find_torus (self_jr e) (self_internal_Ls e) jr jphi jz of
           Inl err \<Rightarrow> Inl err
         | Inr indx \<Rightarrow>
             (case read_torus e indx of
                Inl err \<Rightarrow> Inl err
              | Inr t \<Rightarrow>
                  (let sol = solve_anglera (self_nforSn e) (st_dSndJr t) (self_angle_tol e)
                               (self_maxiter e) (self_bisect e) (map fst angles);
                       xv = map2 (xv_point K t (self_nforSn e) point jr jphi jz) angles (fst sol)
                   in Inr (\<lparr>x_R = map fst xv,
                            x_vR = map (\<lambda>v. fst (snd v)) xv,
                            x_vT = map (\<lambda>v. fst (snd (snd v))) xv,
                            x_z = map (\<lambda>v. fst (snd (snd (snd v)))) xv,
                            x_vz = map (\<lambda>v. fst (snd (snd (snd (snd v))))) xv,
                            x_phi = map (\<lambda>v. snd (snd (snd (snd (snd v))))) xv,
                            x_OmegaR = st_Omegar t,
                            x_Omegaphi = sgn jphi * st_Omegaz t,
                            x_Omegaz = st_Omegaz t\<rparr>,
                           snd sol)))))"

text \<open>\<open>_evaluate\<close>: the first six entries of what \<open>_xvFreqs\<close> returns.\<close>

definition evaluate ::
  "'p collaborators \<Rightarrow> 'p engine \<Rightarrow> real \<Rightarrow> real \<Rightarrow> real \<Rightarrow> (real \<times> real \<times> real) list \<Rightarrow> bool
     \<Rightarrow> error + (vec \<times> vec \<times> vec \<times> vec \<times> vec \<times> vec) \<times> warning list" where
  "evaluate K e jr jphi jz angles point =
     (case xvFreqs K e jr jphi jz angles point of
        Inl err \<Rightarrow> Inl err
      | Inr (x, ws) \<Rightarrow> Inr ((x_R x, x_vR x, x_vT x, x_z x, x_vz x, x_phi x), ws))"

text \<open>
  \<open>_Freqs\<close>: \<open>(OmegaR, Omegaphi, Omegaz)\<close>. With \<open>self._interp\<close> set the \<open>return\<close> reads
  locals that were never assigned.
\<close>

definition Freqs :: "'p engine \<Rightarrow> real \<Rightarrow> real \<Rightarrow> real \<Rightarrow> error + real \<times> real \<times> real" where
  "Freqs e jr jphi jz =
     (if self_interp e then Inl UnboundLocalError
      else
        (case find_torus (self_jr e) (self_Ls e) jr jphi jz of
           Inl err \<Rightarrow> Inl err
         | Inr indx \<Rightarrow>
             if length (self_Omegar e) \<le> indx \<or> length (self_Omegaz e) \<le> indx
             then Inl IndexError
             else Inr (self_Omegar e ! indx, sgn jphi * (self_Omegaz e ! indx),
                       self_Omegaz e ! indx)))"

section \<open>Auxiliary notions for the proofs\<close>

text \<open>A table of \<open>m\<close> rows with \<open>n\<close> entries each.\<close>

definition shaped :: "nat \<Rightarrow> nat \<Rightarrow> 'a list list \<Rightarrow> bool" where
  "shaped m n st = (length st = m \<and> list_all (\<lambda>row. length row = n) st)"


text \<open>The state of the nodes when the bisection of \<open>_create_rgrid\<close> starts (or is skipped).\<close>

definition reached :: "'p collaborators \<Rightarrow> 'p \<Rightarrow> nat \<Rightarrow> real \<Rightarrow> int \<Rightarrow> bool \<Rightarrow> vec \<Rightarrow> torus list \<Rightarrow> node list list" where
  "reached K p n tol mx bis thetaa tori =
     (if bis then map (start_row K p n tol thetaa) tori
      else fst (newton_loop K p n tol mx thetaa tori (map (start_row K p n tol thetaa) tori) 0))"


section \<open>Example inputs\<close>

text \<open>
  Collaborators that return constants: a forward solver with \<open>Jr = 1\<close>, \<open>Omegar = 1\<close>,
  \<open>Omegaz = 3/4\<close>, \<open>rperi = 1\<close>, \<open>rap = 2\<close>; a potential that vanishes, with
  \<open>vcirc = 1\<close> and \<open>rl(L) = L\<close>; an isochrone solver whose angle is \<open>pi / 2\<close> everywhere,
  whose action is \<open>1/2\<close> and whose turning points are \<open>1\<close> and \<open>3\<close>; an optimiser that
  evaluates the residuals once and returns its starting point.
\<close>

definition K_ex :: "unit collaborators" where
  "K_ex =
     \<lparr>vcirc = (\<lambda>_ _. 1),
      rl = (\<lambda>_ L. L),
      newton_rl = (\<lambda>_ L. L),
      evaluatePotentials = (\<lambda>_ _. 0),
      evaluateRforces = (\<lambda>_ _. 0),
      actionsFreqs = (\<lambda>_ _ _ _. (1, 1, 3 / 4)),
      EccZmaxRperiRap = (\<lambda>_ _ _ _. (1, 2)),
      leastsq = (\<lambda>f start. case f start of Inl e \<Rightarrow> Inl e | Inr _ \<Rightarrow> Inr start),
      IsochronePotential = (\<lambda>_ _ _. 0),
      iso_Rforce = (\<lambda>_ _ _. 0),
      iso_rperirap = (\<lambda>_ _ _ _. (1, 3)),
      iso_angler = (\<lambda>_ _ _ _ _ _. pi / 2),
      iso_danglerdr_constant_L = (\<lambda>_ _ _ _ _ _ _. 1),
      iso_Jr = (\<lambda>_ _ _ _. 1 / 2),
      iso_Or = (\<lambda>_ _ _. 1),
      iso_drdEL_constant_angler = (\<lambda>_ _ _ _ _ _ _ _. (0, 0)),
      isoaainv = (\<lambda>_ _ _ _ _ _ _ _. (1, 0, 1, 0, 0, 0))\<rparr>"

text \<open>
  The default construction from one torus \<open>(E, L) = (1, 2)\<close> with four angle nodes
  \<open>0, pi/2, pi, 3 pi/2\<close>; the one solved node, \<open>pi/2\<close>, has the angle of its first guess.
\<close>

definition c_ex :: "unit config" where
  "c_ex =
     \<lparr>pot = Some (), Es = [1], Ls = [2], setup_interp = False, Rmax = 5, Rinf = 25,
      nL = 31, nE = 31, nta = 4, use_pointtransform = False, pt_deg = 7, pt_nra = 301,
      maxiter = 100, angle_tol = 1 / 10 ^ 12, bisect = False\<rparr>"


text \<open>What the matching stores for that torus.\<close>

definition m_ex :: matched where
  "m_ex = \<lparr>m_E = 1, m_L = 2, m_jr = 1, m_Omegar = 1, m_Omegaz = 3 / 4, m_rperi = 1, m_rap = 2,
     m_amp = 8, m_b = 3 / 8\<rparr>"


text \<open>
  Variants: a grid of one angular momentum and two energies; a fitted point
  transformation; an optimiser that returns \<open>g start\<close>; five nodes \<open>2 pi k / 5\<close> (with
  an isochrone angle \<open>2 pi / 5\<close>, the angle of the one solved node); two tori; a forward
  solver with \<open>Omegaz = Omegar / 4\<close>; two nodes with an isochrone action that differs
  between them by \<open>2 10\<^sup>-\<^sup>1\<^sup>7\<close>.
\<close>

definition c_interp :: "unit config" where
  "c_interp = c_ex\<lparr>setup_interp := True, nL := 1, nE := 2, Rinf := 1 / 200\<rparr>"

definition c_pt :: "unit config" where
  "c_pt = c_ex\<lparr>use_pointtransform := True\<rparr>"

definition K_fit :: "(vec \<Rightarrow> vec) \<Rightarrow> unit collaborators" where
  "K_fit g = K_ex\<lparr>leastsq := (\<lambda>f start. case f start of Inl e \<Rightarrow> Inl e | Inr _ \<Rightarrow> Inr (g start))\<rparr>"

definition K_odd :: "unit collaborators" where
  "K_odd = K_ex\<lparr>iso_angler := (\<lambda>_ _ _ _ _ _. 2 * pi / 5)\<rparr>"

definition c_odd :: "unit config" where
  "c_odd = c_ex\<lparr>nta := 5\<rparr>"

definition c_two :: "unit config" where
  "c_two = c_ex\<lparr>Es := [1, 2], Ls := [1, 6 / 5]\<rparr>"

definition K_low :: "unit collaborators" where
  "K_low = K_ex\<lparr>actionsFreqs := (\<lambda>_ _ _ _. (1 / 10, 1, 1 / 4))\<rparr>"



section \<open>The isochrone check, the interpolation flag and the azimuthal frequency\<close>

lemma div_neg_iff: "0 < d \<Longrightarrow> (x / d < 0) = (x < (0::real))"
  by (auto simp: divide_less_0_iff)

lemma ampb_negative_iff:
  "ampb_negative L2 Omegar Omegaz \<longleftrightarrow> L2 * Omegaz * (Omegar - Omegaz) < 0"
proof (cases "(2 * Omegaz - Omegar)\<^sup>2 = 0")
  case True
  then show ?thesis by (simp add: ampb_negative_def)
next
  case False
  then have pos: "0 < (2 * Omegaz - Omegar)\<^sup>2" by simp
  have "ampb_negative L2 Omegar Omegaz \<longleftrightarrow>
          L2 * Omegaz * (Omegar - Omegaz) / (2 * Omegaz - Omegar)\<^sup>2 < 0"
    using False unfolding ampb_negative_def ampb_of_def by presburger
  also have "\<dots> \<longleftrightarrow> L2 * Omegaz * (Omegar - Omegaz) < 0"
    by (rule div_neg_iff[OF pos])
  finally show ?thesis .
qed

lemma init_interp:
  "actionAngleSphericalInverse_init K c = Inr (e, ws) \<Longrightarrow> self_interp e = setup_interp c"
  by (auto simp: actionAngleSphericalInverse_init_def map_tori_def store_def Let_def
           split: option.splits sum.splits if_splits prod.splits)

lemma xv_sign: "xvFreqs K e jr jphi jz angles point = Inr (x, ws) \<Longrightarrow> x_Omegaphi x = sgn jphi * x_Omegaz x"
  by (auto simp: xvFreqs_def Let_def split: if_splits sum.splits)

lemma Freqs_sign: "Freqs e jr jphi jz = Inr (a, b, d) \<Longrightarrow> b = sgn jphi * d"
  by (auto simp: Freqs_def Let_def split: if_splits sum.splits)

section \<open>Shapes of masked element-wise passes\<close>

lemma length_map2_rows:
  "length (map2 (\<lambda>T row. map2 (f T) thetaa row) tori st) = min (length tori) (length st)"
  by simp

lemma nth_map2_rows:
  assumes "i < length tori" "i < length st" "k < length thetaa" "k < length (st ! i)"
  shows "map2 (\<lambda>T row. map2 (f T) thetaa row) tori st ! i ! k = f (tori ! i) (thetaa ! k) (st ! i ! k)"
  using assms by simp

lemma length_row_map2_rows:
  assumes "i < length tori" "i < length st"
  shows "length (map2 (\<lambda>T row. map2 (f T) thetaa row) tori st ! i) = min (length thetaa) (length (st ! i))"
  using assms by simp

lemma shapedD: "shaped m n st \<Longrightarrow> length st = m" "shaped m n st \<Longrightarrow> i < m \<Longrightarrow> length (st ! i) = n"
  by (auto simp: shaped_def list_all_length)

lemma shapedI: "length st = m \<Longrightarrow> (\<And>i. i < m \<Longrightarrow> length (st ! i) = n) \<Longrightarrow> shaped m n st"
  by (auto simp: shaped_def list_all_length)

lemma shaped_map2_rows:
  assumes "shaped (length tori) (length thetaa) st"
  shows "shaped (length tori) (length thetaa) (map2 (\<lambda>T row. map2 (f T) thetaa row) tori st)"
proof (rule shapedI)
  show "length (map2 (\<lambda>T row. map2 (f T) thetaa row) tori st) = length tori"
    using shapedD(1)[OF assms] by simp
next
  fix i assume "i < length tori"
  then show "length (map2 (\<lambda>T row. map2 (f T) thetaa row) tori st ! i) = length thetaa"
    using shapedD[OF assms] by simp
qed

section \<open>Newton-Raphson\<close>

lemma newton_node_conv [simp]: "\<not> n_unconv nd \<Longrightarrow> newton_node K p n tol T m nd = nd"
  by (simp add: newton_node_def)

lemma newton_node_range:
  assumes "t_rperi T \<le> t_rap T"
  assumes "t_rperi T \<le> n_r nd \<and> n_r nd \<le> t_rap T"
  shows "t_rperi T \<le> n_r (newton_node K p n tol T m nd) \<and> n_r (newton_node K p n tol T m nd) \<le> t_rap T"
  using assms by (cases "n_unconv nd") (auto simp: newton_node_def Let_def)

lemma shaped_newton_step:
  "shaped (length tori) (length thetaa) st \<Longrightarrow>
   shaped (length tori) (length thetaa) (newton_step K p n tol thetaa tori st)"
  unfolding newton_step_def by (rule shaped_map2_rows)

lemma nth_newton_step:
  assumes "shaped (length tori) (length thetaa) st" "i < length tori" "k < length thetaa"
  shows "newton_step K p n tol thetaa tori st ! i ! k =
         newton_node K p n tol (tori ! i) (thetaa ! k) (st ! i ! k)"
  using assms shapedD[OF assms(1)] by (simp add: newton_step_def)

lemma any_unconv_iff:
  assumes "shaped m n st"
  shows "any_unconv st \<longleftrightarrow> (\<exists>i<m. \<exists>k<n. n_unconv (st ! i ! k))"
proof -
  have "any_unconv st \<longleftrightarrow> (\<exists>i<length st. \<exists>k<length (st ! i). n_unconv (st ! i ! k))"
    by (simp add: any_unconv_def list_ex_length)
  then show ?thesis using shapedD[OF assms] by auto
qed

lemma newton_loop_props:
  assumes "shaped (length tori) (length thetaa) st"
  shows "shaped (length tori) (length thetaa) (fst (newton_loop K p n tol mx thetaa tori st cntr))
       \<and> (\<forall>i<length tori. \<forall>k<length thetaa. \<not> n_unconv (st ! i ! k) \<longrightarrow>
             fst (newton_loop K p n tol mx thetaa tori st cntr) ! i ! k = st ! i ! k)
       \<and> (\<forall>i<length tori. t_rperi (tori ! i) \<le> t_rap (tori ! i) \<longrightarrow>
             (\<forall>k<length thetaa. t_rperi (tori ! i) \<le> n_r (st ! i ! k) \<and> n_r (st ! i ! k) \<le> t_rap (tori ! i)) \<longrightarrow>
             (\<forall>k<length thetaa. t_rperi (tori ! i) \<le> n_r (fst (newton_loop K p n tol mx thetaa tori st cntr) ! i ! k)
                \<and> n_r (fst (newton_loop K p n tol mx thetaa tori st cntr) ! i ! k) \<le> t_rap (tori ! i)))
       \<and> (snd (snd (newton_loop K p n tol mx thetaa tori st cntr)) = [] \<longrightarrow>
             \<not> any_unconv (fst (newton_loop K p n tol mx thetaa tori st cntr)))"
  using assms
proof (induction K p n tol mx thetaa tori st cntr rule: newton_loop.induct)
  case (1 K p n tol mx thetaa tori st cntr)
  let ?st' = "newton_step K p n tol thetaa tori st"
  have sh': "shaped (length tori) (length thetaa) ?st'"
    using "1.prems" by (rule shaped_newton_step)
  have frozen: "\<And>i k. i < length tori \<Longrightarrow> k < length thetaa \<Longrightarrow> \<not> n_unconv (st ! i ! k) \<Longrightarrow>
             ?st' ! i ! k = st ! i ! k"
    using "1.prems" by (simp add: nth_newton_step)
  have range: "\<And>i. i < length tori \<Longrightarrow> t_rperi (tori ! i) \<le> t_rap (tori ! i) \<Longrightarrow>
             (\<forall>k<length thetaa. t_rperi (tori ! i) \<le> n_r (st ! i ! k) \<and> n_r (st ! i ! k) \<le> t_rap (tori ! i)) \<Longrightarrow>
             (\<forall>k<length thetaa. t_rperi (tori ! i) \<le> n_r (?st' ! i ! k) \<and> n_r (?st' ! i ! k) \<le> t_rap (tori ! i))"
  proof (intro allI impI)
    fix i k
    assume a: "i < length tori" "t_rperi (tori ! i) \<le> t_rap (tori ! i)"
      "\<forall>k<length thetaa. t_rperi (tori ! i) \<le> n_r (st ! i ! k) \<and> n_r (st ! i ! k) \<le> t_rap (tori ! i)"
      "k < length thetaa"
    have "?st' ! i ! k = newton_node K p n tol (tori ! i) (thetaa ! k) (st ! i ! k)"
      using "1.prems" a(1,4) by (rule nth_newton_step)
    moreover have "t_rperi (tori ! i) \<le> n_r (st ! i ! k) \<and> n_r (st ! i ! k) \<le> t_rap (tori ! i)"
      using a(3,4) by blast
    ultimately show "t_rperi (tori ! i) \<le> n_r (?st' ! i ! k) \<and> n_r (?st' ! i ! k) \<le> t_rap (tori ! i)"
      using newton_node_range[OF a(2), of "st ! i ! k" K p n tol "thetaa ! k"] by simp
  qed
  show ?case
  proof (cases "\<not> any_unconv ?st'")
    case True
    then have eq: "newton_loop K p n tol mx thetaa tori st cntr = (?st', cntr + 1, [])"
      by (subst newton_loop.simps) simp
    show ?thesis unfolding eq using sh' frozen range True by simp
  next
    case False
    note unc = this
    show ?thesis
    proof (cases "cntr + 1 > mx")
      case True
      then have eq: "newton_loop K p n tol mx thetaa tori st cntr = (?st', cntr + 1, [NewtonFallback])"
        using unc by (subst newton_loop.simps) simp
      show ?thesis unfolding eq using sh' frozen range by simp
    next
      case False
      then have eq: "newton_loop K p n tol mx thetaa tori st cntr =
                     newton_loop K p n tol mx thetaa tori ?st' (cntr + 1)"
        using unc by (subst newton_loop.simps) simp
      have IH: "shaped (length tori) (length thetaa) (fst (newton_loop K p n tol mx thetaa tori ?st' (cntr + 1)))
       \<and> (\<forall>i<length tori. \<forall>k<length thetaa. \<not> n_unconv (?st' ! i ! k) \<longrightarrow>
             fst (newton_loop K p n tol mx thetaa tori ?st' (cntr + 1)) ! i ! k = ?st' ! i ! k)
       \<and> (\<forall>i<length tori. t_rperi (tori ! i) \<le> t_rap (tori ! i) \<longrightarrow>
             (\<forall>k<length thetaa. t_rperi (tori ! i) \<le> n_r (?st' ! i ! k) \<and> n_r (?st' ! i ! k) \<le> t_rap (tori ! i)) \<longrightarrow>
             (\<forall>k<length thetaa. t_rperi (tori ! i) \<le> n_r (fst (newton_loop K p n tol mx thetaa tori ?st' (cntr + 1)) ! i ! k)
                \<and> n_r (fst (newton_loop K p n tol mx thetaa tori ?st' (cntr + 1)) ! i ! k) \<le> t_rap (tori ! i)))
       \<and> (snd (snd (newton_loop K p n tol mx thetaa tori ?st' (cntr + 1))) = [] \<longrightarrow>
             \<not> any_unconv (fst (newton_loop K p n tol mx thetaa tori ?st' (cntr + 1))))"
        using "1.IH"[OF unc False sh'] .
      show ?thesis unfolding eq
      proof (intro conjI allI impI)
        show "shaped (length tori) (length thetaa) (fst (newton_loop K p n tol mx thetaa tori ?st' (cntr + 1)))"
          using IH by blast
      next
        fix i k assume a: "i < length tori" "k < length thetaa" "\<not> n_unconv (st ! i ! k)"
        then have "?st' ! i ! k = st ! i ! k" by (rule frozen)
        with a IH show "fst (newton_loop K p n tol mx thetaa tori ?st' (cntr + 1)) ! i ! k = st ! i ! k"
          by metis
      next
        fix i k assume a: "i < length tori" "t_rperi (tori ! i) \<le> t_rap (tori ! i)"
          "\<forall>k<length thetaa. t_rperi (tori ! i) \<le> n_r (st ! i ! k) \<and> n_r (st ! i ! k) \<le> t_rap (tori ! i)"
          "k < length thetaa"
        from range[OF a(1,2,3)] IH a(1,2,4)
        show "t_rperi (tori ! i) \<le> n_r (fst (newton_loop K p n tol mx thetaa tori ?st' (cntr + 1)) ! i ! k)"
          by blast
        from range[OF a(1,2,3)] IH a(1,2,4)
        show "n_r (fst (newton_loop K p n tol mx thetaa tori ?st' (cntr + 1)) ! i ! k) \<le> t_rap (tori ! i)"
          by blast
      next
        assume "snd (snd (newton_loop K p n tol mx thetaa tori ?st' (cntr + 1))) = []"
        with IH show "\<not> any_unconv (fst (newton_loop K p n tol mx thetaa tori ?st' (cntr + 1)))"
          by blast
      qed
    qed
  qed
qed

section \<open>Bisection\<close>

lemma bisect_node_conv:
  "\<not> n_unconv bn \<Longrightarrow> n_r (bisect_node K p tol T m bn) = n_r bn \<and> \<not> n_unconv (bisect_node K p tol T m bn)"
  by (simp add: bisect_node_def)

lemma shaped_bisect_step:
  "shaped (length tori) (length thetaa) st \<Longrightarrow>
   shaped (length tori) (length thetaa) (bisect_step K p tol thetaa tori st)"
  unfolding bisect_step_def by (rule shaped_map2_rows)

lemma nth_bisect_step:
  assumes "shaped (length tori) (length thetaa) st" "i < length tori" "k < length thetaa"
  shows "bisect_step K p tol thetaa tori st ! i ! k =
         bisect_node K p tol (tori ! i) (thetaa ! k) (st ! i ! k)"
  using assms shapedD[OF assms(1)] by (simp add: bisect_step_def)

lemma bisect_loop_props:
  assumes "shaped (length tori) (length thetaa) st"
  shows "shaped (length tori) (length thetaa) (fst (bisect_loop K p tol mx thetaa tori st cntr))
       \<and> (\<forall>i<length tori. \<forall>k<length thetaa. \<not> n_unconv (st ! i ! k) \<longrightarrow>
             n_r (fst (bisect_loop K p tol mx thetaa tori st cntr) ! i ! k) = n_r (st ! i ! k))"
  using assms
proof (induction K p tol mx thetaa tori st cntr rule: bisect_loop.induct)
  case (1 K p tol mx thetaa tori st cntr)
  let ?st' = "bisect_step K p tol thetaa tori st"
  have sh': "shaped (length tori) (length thetaa) ?st'"
    using "1.prems" by (rule shaped_bisect_step)
  have frozen: "\<And>i k. i < length tori \<Longrightarrow> k < length thetaa \<Longrightarrow> \<not> n_unconv (st ! i ! k) \<Longrightarrow>
             n_r (?st' ! i ! k) = n_r (st ! i ! k) \<and> \<not> n_unconv (?st' ! i ! k)"
    using "1.prems" by (simp add: nth_bisect_step bisect_node_conv)
  show ?case
  proof (cases "\<not> any_unconv ?st'")
    case True
    then have eq: "bisect_loop K p tol mx thetaa tori st cntr = (?st', [])"
      by (subst bisect_loop.simps) simp
    show ?thesis unfolding eq using sh' frozen by simp
  next
    case False
    note unc = this
    show ?thesis
    proof (cases "cntr + 1 > mx")
      case True
      then have eq: "fst (bisect_loop K p tol mx thetaa tori st cntr) = ?st'"
        using unc by (subst bisect_loop.simps) simp
      show ?thesis unfolding eq using sh' frozen by simp
    next
      case False
      then have eq: "bisect_loop K p tol mx thetaa tori st cntr =
                     bisect_loop K p tol mx thetaa tori ?st' (cntr + 1)"
        using unc by (subst bisect_loop.simps) simp
      have IH: "shaped (length tori) (length thetaa) (fst (bisect_loop K p tol mx thetaa tori ?st' (cntr + 1)))
       \<and> (\<forall>i<length tori. \<forall>k<length thetaa. \<not> n_unconv (?st' ! i ! k) \<longrightarrow>
             n_r (fst (bisect_loop K p tol mx thetaa tori ?st' (cntr + 1)) ! i ! k) = n_r (?st' ! i ! k))"
        using "1.IH"[OF unc False sh'] .
      show ?thesis unfolding eq
      proof (intro conjI allI impI)
        show "shaped (length tori) (length thetaa) (fst (bisect_loop K p tol mx thetaa tori ?st' (cntr + 1)))"
          using IH by blast
      next
        fix i k assume a: "i < length tori" "k < length thetaa" "\<not> n_unconv (st ! i ! k)"
        from frozen[OF a] IH a(1,2)
        show "n_r (fst (bisect_loop K p tol mx thetaa tori ?st' (cntr + 1)) ! i ! k) = n_r (st ! i ! k)"
          by metis
      qed
    qed
  qed
qed

lemmas newton_loop_shaped = newton_loop_props[THEN conjunct1]
lemmas newton_loop_frozen = newton_loop_props[THEN conjunct2, THEN conjunct1, rule_format]
lemmas newton_loop_range = newton_loop_props[THEN conjunct2, THEN conjunct2, THEN conjunct1, rule_format]
lemmas newton_loop_quiet = newton_loop_props[THEN conjunct2, THEN conjunct2, THEN conjunct2, rule_format]
lemmas bisect_loop_shaped = bisect_loop_props[THEN conjunct1]
lemmas bisect_loop_frozen = bisect_loop_props[THEN conjunct2, rule_format]

lemma length_guess_row [simp]: "length (guess_row K p n thetaa T) = length thetaa"
  by (simp add: guess_row_def)

lemma length_start_row [simp]: "length (start_row K p n tol thetaa T) = n"
  by (simp add: start_row_def)

lemma nth_start_row_r:
  "k < n \<Longrightarrow> n_r (start_row K p n tol thetaa T ! k) = guess_row K p n thetaa T ! k"
  by (simp add: start_row_def Let_def)

lemma nth_start_row_unconv:
  "k < n \<Longrightarrow> n_unconv (start_row K p n tol thetaa T ! k) \<Longrightarrow> 0 < k \<and> k < n div 2"
  by (simp add: start_row_def Let_def)

lemma shaped_start:
  "shaped (length tori) n (map (start_row K p n tol thetaa) tori)"
  by (rule shapedI) simp_all

lemma length_da_rows [simp]: "length (da_rows K p n thetaa T) = length thetaa"
  by (simp add: da_rows_def)

lemma shaped_bisect_start:
  assumes "shaped (length tori) (length thetaa) st"
  shows "shaped (length tori) (length thetaa) (bisect_start K p n thetaa tori st)"
proof (rule shapedI)
  show "length (bisect_start K p n thetaa tori st) = length tori"
    using shapedD(1)[OF assms] by (simp add: bisect_start_def Let_def)
next
  fix i assume "i < length tori"
  then show "length (bisect_start K p n thetaa tori st ! i) = length thetaa"
    using shapedD[OF assms] by (simp add: bisect_start_def Let_def)
qed

lemma nth_bisect_start:
  assumes "shaped (length tori) (length thetaa) st" "i < length tori" "k < length thetaa"
  shows "n_r (bisect_start K p n thetaa tori st ! i ! k) = n_r (st ! i ! k)"
    and "n_unconv (bisect_start K p n thetaa tori st ! i ! k) = n_unconv (st ! i ! k)"
  using assms(2,3) shapedD[OF assms(1)] by (simp_all add: bisect_start_def Let_def)

text \<open>The radii after the bisection stage, started from any state of the right shape.\<close>

lemma after_bisect:
  assumes sh: "shaped (length tori) (length thetaa) st1"
  shows "shaped (length tori) (length thetaa)
           (map (map n_r) (fst (bisect_loop K p tol mx thetaa tori (bisect_start K p n thetaa tori st1) 0)))"
    and "\<And>i k. i < length tori \<Longrightarrow> k < length thetaa \<Longrightarrow> \<not> n_unconv (st1 ! i ! k) \<Longrightarrow>
          map (map n_r) (fst (bisect_loop K p tol mx thetaa tori (bisect_start K p n thetaa tori st1) 0)) ! i ! k
            = n_r (st1 ! i ! k)"
proof -
  let ?B = "fst (bisect_loop K p tol mx thetaa tori (bisect_start K p n thetaa tori st1) 0)"
  have shb: "shaped (length tori) (length thetaa) (bisect_start K p n thetaa tori st1)"
    using sh by (rule shaped_bisect_start)
  have shB: "shaped (length tori) (length thetaa) ?B"
    using shb by (rule bisect_loop_shaped)
  show "shaped (length tori) (length thetaa) (map (map n_r) ?B)"
    using shapedD[OF shB] by (intro shapedI) simp_all
  fix i k assume a: "i < length tori" "k < length thetaa" "\<not> n_unconv (st1 ! i ! k)"
  have "\<not> n_unconv (bisect_start K p n thetaa tori st1 ! i ! k)"
    using nth_bisect_start(2)[OF sh a(1,2)] a(3) by simp
  then have "n_r (?B ! i ! k) = n_r (bisect_start K p n thetaa tori st1 ! i ! k)"
    by (rule bisect_loop_frozen[OF shb a(1,2)])
  also have "\<dots> = n_r (st1 ! i ! k)" by (rule nth_bisect_start(1)[OF sh a(1,2)])
  finally have "n_r (?B ! i ! k) = n_r (st1 ! i ! k)" .
  moreover have "map (map n_r) ?B ! i ! k = n_r (?B ! i ! k)"
    using shapedD[OF shB] a(1,2) by simp
  ultimately show "map (map n_r) ?B ! i ! k = n_r (st1 ! i ! k)" by simp
qed

lemma plain_radii:
  assumes sh: "shaped (length tori) (length thetaa) st1"
  shows "shaped (length tori) (length thetaa) (map (map n_r) st1)"
    and "\<And>i k. i < length tori \<Longrightarrow> k < length thetaa \<Longrightarrow> map (map n_r) st1 ! i ! k = n_r (st1 ! i ! k)"
  using shapedD[OF sh] by (auto intro!: shapedI)

text \<open>solve_rgrid, as the radii of a state reached from the start rows.\<close>

lemma solve_rgrid_bis:
  "solve_rgrid K p n tol mx True thetaa tori =
     (map (map n_r) (fst (bisect_loop K p tol mx thetaa tori
         (bisect_start K p n thetaa tori (map (start_row K p n tol thetaa) tori)) 0)),
      snd (bisect_loop K p tol mx thetaa tori
         (bisect_start K p n thetaa tori (map (start_row K p n tol thetaa) tori)) 0))"
  by (simp add: solve_rgrid_def Let_def)

lemma solve_rgrid_newton:
  "solve_rgrid K p n tol mx False thetaa tori =
     (if fst (snd (newton_loop K p n tol mx thetaa tori (map (start_row K p n tol thetaa) tori) 0)) > mx
      then (map (map n_r) (fst (bisect_loop K p tol mx thetaa tori (bisect_start K p n thetaa tori
                (fst (newton_loop K p n tol mx thetaa tori (map (start_row K p n tol thetaa) tori) 0))) 0)),
            snd (snd (newton_loop K p n tol mx thetaa tori (map (start_row K p n tol thetaa) tori) 0))
            @ snd (bisect_loop K p tol mx thetaa tori (bisect_start K p n thetaa tori
                (fst (newton_loop K p n tol mx thetaa tori (map (start_row K p n tol thetaa) tori) 0))) 0))
      else (map (map n_r) (fst (newton_loop K p n tol mx thetaa tori (map (start_row K p n tol thetaa) tori) 0)),
            snd (snd (newton_loop K p n tol mx thetaa tori (map (start_row K p n tol thetaa) tori) 0))))"
  by (simp add: solve_rgrid_def Let_def)

lemma reached_shaped:
  "shaped (length tori) (length thetaa) (reached K p (length thetaa) tol mx bis thetaa tori)"
  unfolding reached_def using shaped_start[of tori "length thetaa" K p tol thetaa]
  by (simp add: newton_loop_shaped)

lemma reached_frozen:
  assumes "i < length tori" "k < length thetaa"
    "\<not> n_unconv (start_row K p (length thetaa) tol thetaa (tori ! i) ! k)"
  shows "reached K p (length thetaa) tol mx bis thetaa tori ! i ! k
         = start_row K p (length thetaa) tol thetaa (tori ! i) ! k"
proof (cases bis)
  case True
  then show ?thesis using assms(1) by (simp add: reached_def)
next
  case False
  have "\<not> n_unconv (map (start_row K p (length thetaa) tol thetaa) tori ! i ! k)"
    using assms(1,3) by simp
  then have "fst (newton_loop K p (length thetaa) tol mx thetaa tori
                (map (start_row K p (length thetaa) tol thetaa) tori) 0) ! i ! k
             = map (start_row K p (length thetaa) tol thetaa) tori ! i ! k"
    by (rule newton_loop_frozen[OF shaped_start assms(1,2)])
  then show ?thesis using False assms(1) by (simp add: reached_def)
qed

lemma reached_range:
  assumes "i < length tori" "t_rperi (tori ! i) \<le> t_rap (tori ! i)"
    "\<forall>k<length thetaa. t_rperi (tori ! i) \<le> guess_row K p (length thetaa) thetaa (tori ! i) ! k
                  \<and> guess_row K p (length thetaa) thetaa (tori ! i) ! k \<le> t_rap (tori ! i)"
    "k < length thetaa"
  shows "t_rperi (tori ! i) \<le> n_r (reached K p (length thetaa) tol mx bis thetaa tori ! i ! k)
       \<and> n_r (reached K p (length thetaa) tol mx bis thetaa tori ! i ! k) \<le> t_rap (tori ! i)"
proof -
  let ?st0 = "map (start_row K p (length thetaa) tol thetaa) tori"
  have r0: "\<forall>k<length thetaa. t_rperi (tori ! i) \<le> n_r (?st0 ! i ! k) \<and> n_r (?st0 ! i ! k) \<le> t_rap (tori ! i)"
    using assms(1,3) by (simp add: nth_start_row_r)
  show ?thesis
  proof (cases bis)
    case True
    then show ?thesis using r0 assms(4) by (simp add: reached_def)
  next
    case False
    have "t_rperi (tori ! i) \<le> n_r (fst (newton_loop K p (length thetaa) tol mx thetaa tori ?st0 0) ! i ! k)
        \<and> n_r (fst (newton_loop K p (length thetaa) tol mx thetaa tori ?st0 0) ! i ! k) \<le> t_rap (tori ! i)"
      by (rule newton_loop_range[OF shaped_start assms(1,2) r0[rule_format] assms(4)])
    then show ?thesis using False by (simp add: reached_def)
  qed
qed

lemma solve_rgrid_shaped:
  "shaped (length tori) (length thetaa) (fst (solve_rgrid K p (length thetaa) tol mx bis thetaa tori))"
proof (cases bis)
  case True
  then have b: "bis = True" by simp
  show ?thesis unfolding b solve_rgrid_bis fst_conv
    by (rule after_bisect(1)[OF shaped_start])
next
  case False
  then have b: "bis = False" by simp
  let ?nl = "newton_loop K p (length thetaa) tol mx thetaa tori (map (start_row K p (length thetaa) tol thetaa) tori) 0"
  have sh1: "shaped (length tori) (length thetaa) (fst ?nl)"
    by (rule newton_loop_shaped[OF shaped_start])
  show ?thesis
  proof (cases "fst (snd ?nl) > mx")
    case True
    show ?thesis unfolding b solve_rgrid_newton if_P[OF True] fst_conv
      by (rule after_bisect(1)[OF sh1])
  next
    case False
    show ?thesis unfolding b solve_rgrid_newton if_not_P[OF False] fst_conv
      by (rule plain_radii(1)[OF sh1])
  qed
qed

lemma solve_rgrid_of_reached:
  assumes "i < length tori" "k < length thetaa"
    "\<not> n_unconv (reached K p (length thetaa) tol mx bis thetaa tori ! i ! k)"
  shows "fst (solve_rgrid K p (length thetaa) tol mx bis thetaa tori) ! i ! k
         = n_r (reached K p (length thetaa) tol mx bis thetaa tori ! i ! k)"
proof (cases bis)
  case True
  then have b: "bis = True" by simp
  have r: "reached K p (length thetaa) tol mx True thetaa tori = map (start_row K p (length thetaa) tol thetaa) tori"
    by (simp add: reached_def)
  have u: "\<not> n_unconv (map (start_row K p (length thetaa) tol thetaa) tori ! i ! k)"
    using assms(3) unfolding b r .
  show ?thesis unfolding b r solve_rgrid_bis fst_conv
    by (rule after_bisect(2)[OF shaped_start assms(1,2) u])
next
  case False
  then have b: "bis = False" by simp
  let ?nl = "newton_loop K p (length thetaa) tol mx thetaa tori (map (start_row K p (length thetaa) tol thetaa) tori) 0"
  have sh1: "shaped (length tori) (length thetaa) (fst ?nl)"
    by (rule newton_loop_shaped[OF shaped_start])
  have r: "reached K p (length thetaa) tol mx False thetaa tori = fst ?nl"
    by (simp add: reached_def)
  have u: "\<not> n_unconv (fst ?nl ! i ! k)"
    using assms(3) unfolding b r .
  show ?thesis
  proof (cases "fst (snd ?nl) > mx")
    case True
    show ?thesis unfolding b r solve_rgrid_newton if_P[OF True] fst_conv
      by (rule after_bisect(2)[OF sh1 assms(1,2) u])
  next
    case False
    show ?thesis unfolding b r solve_rgrid_newton if_not_P[OF False] fst_conv
      by (rule plain_radii(2)[OF sh1 assms(1,2)])
  qed
qed

lemma solve_rgrid_quiet:
  assumes "\<not> bis" "snd (solve_rgrid K p (length thetaa) tol mx bis thetaa tori) = []"
  shows "\<not> any_unconv (reached K p (length thetaa) tol mx bis thetaa tori)"
proof -
  let ?nl = "newton_loop K p (length thetaa) tol mx thetaa tori (map (start_row K p (length thetaa) tol thetaa) tori) 0"
  have b: "bis = False" using assms(1) by simp
  have "snd (snd ?nl) = []"
    using assms(2) unfolding b solve_rgrid_newton by (simp split: if_splits)
  then have "\<not> any_unconv (fst ?nl)"
    by (rule newton_loop_quiet[OF shaped_start])
  then show ?thesis using b by (simp add: reached_def)
qed

lemma init_succeeds:
  assumes "pot c = Some p" and "internal_EL K p c = Inr (Lsg, iEs, iLs)"
    and "\<not> (setup_interp c \<and> nE c = 0)"
    and "\<not> list_ex (\<lambda>m. ampb_negative ((m_L m)\<^sup>2) (m_Omegar m) (m_Omegaz m))
              (match_nodes K p c iEs iLs)"
    and "pointtransform K p c (match_nodes K p c iEs iLs) = Inr prs"
    and "nta c \<noteq> 0" and "length prs = length (match_nodes K p c iEs iLs)"
    and "iEs \<noteq> []" and "reflect_fits (nta c)"
  shows "actionAngleSphericalInverse_init K c =
           Inr (store K p c Lsg (match_nodes K p c iEs iLs) prs
                  (linspace 0 (2 * pi * (1 - 1 / real (nta c))) (nta c))
                  (map (reflect_row (nta c))
                     (fst (solve_rgrid K p (nta c) (angle_tol c) (maxiter c) (bisect c)
                        (linspace 0 (2 * pi * (1 - 1 / real (nta c))) (nta c))
                        (map2 torus_of (match_nodes K p c iEs iLs) prs)))),
                snd (solve_rgrid K p (nta c) (angle_tol c) (maxiter c) (bisect c)
                        (linspace 0 (2 * pi * (1 - 1 / real (nta c))) (nta c))
                        (map2 torus_of (match_nodes K p c iEs iLs) prs)))"
proof -
  have ne: "map2 torus_of (match_nodes K p c iEs iLs) prs \<noteq> []"
    using assms(7,8) by (cases prs) (auto simp: match_nodes_def)
  show ?thesis
    using assms(1-7,9) ne
    by (simp add: actionAngleSphericalInverse_init_def map_tori_def create_rgrid_def Let_def)
qed

lemma init_InrE:
  assumes "actionAngleSphericalInverse_init K c = Inr (e, ws)"
  obtains p Lsg iEs iLs prs where
    "pot c = Some p" "internal_EL K p c = Inr (Lsg, iEs, iLs)"
    "\<not> (setup_interp c \<and> nE c = 0)"
    "\<not> list_ex (\<lambda>m. ampb_negative ((m_L m)\<^sup>2) (m_Omegar m) (m_Omegaz m))
              (match_nodes K p c iEs iLs)"
    "pointtransform K p c (match_nodes K p c iEs iLs) = Inr prs"
    "nta c \<noteq> 0" "length prs = length (match_nodes K p c iEs iLs)"
    "iEs \<noteq> []" "reflect_fits (nta c)"
    "e = store K p c Lsg (match_nodes K p c iEs iLs) prs
                  (linspace 0 (2 * pi * (1 - 1 / real (nta c))) (nta c))
                  (map (reflect_row (nta c))
                     (fst (solve_rgrid K p (nta c) (angle_tol c) (maxiter c) (bisect c)
                        (linspace 0 (2 * pi * (1 - 1 / real (nta c))) (nta c))
                        (map2 torus_of (match_nodes K p c iEs iLs) prs))))"
    "ws = snd (solve_rgrid K p (nta c) (angle_tol c) (maxiter c) (bisect c)
                        (linspace 0 (2 * pi * (1 - 1 / real (nta c))) (nta c))
                        (map2 torus_of (match_nodes K p c iEs iLs) prs))"
proof -
  from assms obtain p where p: "pot c = Some p"
    by (auto simp: actionAngleSphericalInverse_init_def split: option.splits)
  from assms p obtain Lsg iEs iLs where el: "internal_EL K p c = Inr (Lsg, iEs, iLs)"
    by (auto simp: actionAngleSphericalInverse_init_def split: sum.splits)
  let ?ms = "match_nodes K p c iEs iLs"
  from assms p el have a3: "\<not> (setup_interp c \<and> nE c = 0)"
    and a4: "\<not> list_ex (\<lambda>m. ampb_negative ((m_L m)\<^sup>2) (m_Omegar m) (m_Omegaz m)) ?ms"
    by (auto simp: actionAngleSphericalInverse_init_def Let_def split: if_splits)
  from assms p el a3 a4 obtain prs where pt: "pointtransform K p c ?ms = Inr prs"
    and mt: "map_tori K p c Lsg ?ms prs = Inr (e, ws)"
    by (auto simp: actionAngleSphericalInverse_init_def Let_def split: if_splits sum.splits)
  from mt have n0: "nta c \<noteq> 0" and len: "length prs = length ?ms"
    by (auto simp: map_tori_def split: if_splits)
  let ?th = "linspace 0 (2 * pi * (1 - 1 / real (nta c))) (nta c)"
  let ?tori = "map2 torus_of ?ms prs"
  from mt n0 len have cr: "create_rgrid K p (nta c) (angle_tol c) (maxiter c) (bisect c) ?th ?tori \<noteq> Inl IndexError"
    and rf: "reflect_fits (nta c)"
    and e: "e = store K p c Lsg ?ms prs ?th (map (reflect_row (nta c))
                     (fst (solve_rgrid K p (nta c) (angle_tol c) (maxiter c) (bisect c) ?th ?tori)))"
    and w: "ws = snd (solve_rgrid K p (nta c) (angle_tol c) (maxiter c) (bisect c) ?th ?tori)"
    by (auto simp: map_tori_def create_rgrid_def Let_def split: if_splits sum.splits)
  from cr have "?tori \<noteq> []" by (auto simp: create_rgrid_def)
  then have "iEs \<noteq> []" by (auto simp: match_nodes_def)
  with p el a3 a4 pt n0 len rf e w show ?thesis using that by blast
qed

lemma ex_EL: "internal_EL K_ex () c_ex = Inr ([2], [1], [2])"
  by (simp add: internal_EL_def c_ex_def)

lemma sqrt16: "sqrt 16 = 4"
  using real_sqrt_abs[of 4] by simp

lemma sqrt64: "sqrt 64 = 8"
  using real_sqrt_abs[of 8] by simp

lemma ex_ms: "match_nodes K_ex () c_ex [1] [2] =
   [\<lparr>m_E = 1, m_L = 2, m_jr = 1, m_Omegar = 1, m_Omegaz = 3 / 4, m_rperi = 1, m_rap = 2,
     m_amp = 8, m_b = 3 / 8\<rparr>]"
  by (simp add: match_nodes_def match_node_def forward_node_def K_ex_def c_ex_def Let_def
        amp_of_def ampb_of_def power2_eq_square power3_eq_cube sqrt16 sqrt64)

lemma ex_ms': "match_nodes K_ex () c_ex [1] [2] = [m_ex]"
  by (simp add: ex_ms m_ex_def)

lemma ex_pt: "pointtransform K_ex () c_ex [m_ex] = Inr [weird_ptrow m_ex]"
  by (simp add: pointtransform_def c_ex_def)

lemma ex_ok: "\<not> list_ex (\<lambda>m. ampb_negative ((m_L m)\<^sup>2) (m_Omegar m) (m_Omegaz m)) [m_ex]"
  by (simp add: m_ex_def ampb_negative_def ampb_of_def)

lemma ex_init:
  "actionAngleSphericalInverse_init K_ex c_ex =
     Inr (store K_ex () c_ex [2] [m_ex] [weird_ptrow m_ex] (linspace 0 (2 * pi * (1 - 1 / real 4)) 4)
            (map (reflect_row 4)
               (fst (solve_rgrid K_ex () 4 (1 / 10 ^ 12) 100 False
                  (linspace 0 (2 * pi * (1 - 1 / real 4)) 4) [torus_of m_ex (weird_ptrow m_ex)]))),
          snd (solve_rgrid K_ex () 4 (1 / 10 ^ 12) 100 False
                  (linspace 0 (2 * pi * (1 - 1 / real 4)) 4) [torus_of m_ex (weird_ptrow m_ex)]))"
proof -
  have a: "pot c_ex = Some ()" "\<not> (setup_interp c_ex \<and> nE c_ex = 0)" "nta c_ex = 4"
      "angle_tol c_ex = 1 / 10 ^ 12" "maxiter c_ex = 100" "bisect c_ex = False"
    by (simp_all add: c_ex_def)
  have rf: "reflect_fits (nta c_ex)" by (simp add: a reflect_fits_def)
  show ?thesis
    using init_succeeds[where K=K_ex and c=c_ex and p="()", OF a(1) ex_EL a(2), of "[weird_ptrow m_ex]"]
      ex_ok ex_pt rf
    by (simp add: ex_ms' a)
qed

section \<open>linspace, nanargmin\<close>

lemma length_linspace [simp]: "length (linspace a b n) = n"
  by (simp add: linspace_def)

lemma nth_linspace:
  "j < n \<Longrightarrow> linspace a b n ! j = (if n = 1 then a else a + real j * ((b - a) / real (n - 1)))"
  by (auto simp: linspace_def)

lemma linspace_unit:
  assumes "j < n"
  shows "0 \<le> linspace 0 1 n ! j \<and> linspace 0 1 n ! j \<le> 1"
proof (cases "n = 1")
  case True
  then show ?thesis using assms by (simp add: nth_linspace)
next
  case False
  with assms have n: "2 \<le> n" by simp
  have "linspace 0 1 n ! j = real j / real (n - 1)"
    using assms False by (simp add: nth_linspace)
  moreover have "real j \<le> real (n - 1)" using assms by simp
  moreover have "0 < real (n - 1)" using n by simp
  ultimately show ?thesis by simp
qed

lemma nanargmin_less: "xs \<noteq> [] \<Longrightarrow> nanargmin xs < length xs"
  by (induction xs rule: nanargmin.induct) (auto simp: Let_def)

lemma nanargmin_min: "k < length xs \<Longrightarrow> xs ! nanargmin xs \<le> xs ! k"
proof (induction xs arbitrary: k rule: nanargmin.induct)
  case 1
  then show ?case by simp
next
  case (2 x)
  then show ?case by simp
next
  case (3 x y ys)
  show ?case
  proof (cases k)
    case 0
    then show ?thesis using "3.IH"[of 0] by (auto simp: Let_def)
  next
    case (Suc k')
    then show ?thesis using "3.IH"[of k'] "3.prems" by (auto simp: Let_def)
  qed
qed

lemma nanargmin_first: "k < nanargmin xs \<Longrightarrow> xs ! nanargmin xs < xs ! k"
proof (induction xs arbitrary: k rule: nanargmin.induct)
  case 1
  then show ?case by simp
next
  case (2 x)
  then show ?case by simp
next
  case (3 x y ys)
  let ?j = "nanargmin (y # ys)"
  show ?case
  proof (cases "x \<le> (y # ys) ! ?j")
    case True
    then show ?thesis using "3.prems" by (simp add: Let_def)
  next
    case False
    then have eq: "nanargmin (x # y # ys) = Suc ?j" by (simp add: Let_def)
    show ?thesis
    proof (cases k)
      case 0
      then show ?thesis using False eq by simp
    next
      case (Suc k')
      then have "k' < ?j" using "3.prems" eq by simp
      then show ?thesis using "3.IH"[of k'] eq Suc by simp
    qed
  qed
qed

section \<open>The first guess\<close>

lemma guess_row_first:
  assumes "0 < length thetaa" "0 < n div 2"
  shows "guess_row K p n thetaa T ! 0 = t_ptrperi T"
  using assms by (simp add: guess_row_def)

lemma guess_row_half:
  assumes "n div 2 < length thetaa"
  shows "guess_row K p n thetaa T ! (n div 2) = t_ptrap T"
  using assms by (simp add: guess_row_def)

lemma length_rta_row [simp]: "length (rta_row K p n T) = 2 * n"
  by (simp add: rta_row_def)

lemma guess_row_range:
  assumes gap: "2 * (1 / 10 ^ 8) \<le> t_rap T - t_rperi T"
    and pt: "t_ptrperi T = t_rperi T" "t_ptrap T = t_rap T"
    and k: "k < length thetaa" and n: "0 < n"
  shows "t_rperi T \<le> guess_row K p n thetaa T ! k \<and> guess_row K p n thetaa T ! k \<le> t_rap T"
proof -
  let ?xs = "map (\<lambda>t. \<bar>wrap_angle (t - thetaa ! k)\<bar>) (rta_row K p n T)"
  let ?g = "linspace 0 1 (2 * n) ! nanargmin ?xs"
  let ?v = "?g * (t_rap T - t_rperi T - 2 * (1 / 10 ^ 8)) + (t_rperi T + 1 / 10 ^ 8)"
  have "?xs \<noteq> []" using n by (auto simp: rta_row_def linspace_def)
  then have "nanargmin ?xs < 2 * n" using nanargmin_less[of ?xs] by simp
  then have g: "0 \<le> ?g" "?g \<le> 1" using linspace_unit by blast+
  let ?d = "t_rap T - t_rperi T - 2 * (1 / 10 ^ 8)"
  have d: "0 \<le> ?d" using gap by simp
  have "0 \<le> ?g * ?d" using g(1) d by (rule mult_nonneg_nonneg)
  moreover have "?g * ?d \<le> 1 * ?d" using g(2) d by (rule mult_right_mono)
  ultimately have v: "t_rperi T \<le> ?v" "?v \<le> t_rap T" by simp_all
  have "guess_row K p n thetaa T ! k =
          (if k = n div 2 then t_ptrap T else if k = 0 then t_ptrperi T else ?v)"
    using k by (auto simp: guess_row_def nth_list_update)
  then have cases: "guess_row K p n thetaa T ! k = t_ptrap T \<or> guess_row K p n thetaa T ! k = t_ptrperi T
        \<or> guess_row K p n thetaa T ! k = ?v"
    by presburger
  have "t_rperi T \<le> t_rap T" using gap by simp
  then show ?thesis using cases v pt by auto
qed

section \<open>The reflection\<close>

lemma length_reflect_row:
  assumes "length row = n" "0 < n"
  shows "length (reflect_row n row) = n"
  using assms by (auto simp: reflect_row_def Let_def)

lemma reflect_row_low:
  assumes "length row = n" "k \<le> n div 2" "0 < n"
  shows "reflect_row n row ! k = row ! k"
  using assms by (simp add: reflect_row_def Let_def nth_append)

lemma reflect_row_high:
  assumes "length row = n" "even n" "n div 2 < k" "k < n"
  shows "reflect_row n row ! k = row ! (n - k)"
proof -
  obtain h where h: "n = 2 * h" using assms(2) by (auto elim: evenE)
  have hk: "h < k" "k < 2 * h" using assms(3,4) h by simp_all
  let ?src = "rev (take (h - 1) (drop 1 row))"
  have ls: "length ?src = h - 1" using assms(1) h hk by simp
  have "reflect_row n row = take (h + 1) row @ ?src"
    using assms(1) h hk by (simp add: reflect_row_def Let_def)
  then have "reflect_row n row ! k = ?src ! (k - (h + 1))"
    using assms(1) h hk by (simp add: nth_append)
  also have "\<dots> = take (h - 1) (drop 1 row) ! (h - 1 - Suc (k - (h + 1)))"
    using hk ls by (subst rev_nth) simp_all
  also have "\<dots> = row ! (1 + (h - 1 - Suc (k - (h + 1))))"
    using assms(1) h hk by simp
  also have "1 + (h - 1 - Suc (k - (h + 1))) = n - k"
    using h hk by arith
  finally show ?thesis .
qed

lemma reflect_row_symmetric:
  assumes "length row = n" "even n" "0 < k" "k < n"
  shows "reflect_row n row ! k = reflect_row n row ! (n - k)"
proof -
  have n: "0 < n" using assms by simp
  consider "k < n div 2" | "k = n div 2" | "n div 2 < k" by linarith
  then show ?thesis
  proof cases
    case 1
    then have "n div 2 < n - k" "n - k < n" using assms by auto
    then have "reflect_row n row ! (n - k) = row ! (n - (n - k))"
      using reflect_row_high[OF assms(1,2)] by blast
    moreover have "reflect_row n row ! k = row ! k"
      using reflect_row_low[OF assms(1) _ n] 1 by simp
    ultimately show ?thesis using assms by simp
  next
    case 2
    then have "n - k = k" using assms(2) by (auto elim: evenE)
    then show ?thesis by simp
  next
    case 3
    then have "reflect_row n row ! k = row ! (n - k)"
      using reflect_row_high[OF assms(1,2) _ assms(4)] by blast
    moreover have "n - k \<le> n div 2" using 3 assms(2) by (auto elim!: evenE)
    then have "reflect_row n row ! (n - k) = row ! (n - k)"
      using reflect_row_low[OF assms(1) _ n] by blast
    ultimately show ?thesis by simp
  qed
qed

lemma reflect_row_elems:
  assumes "length row = n" "0 < n" "reflect_fits n" "k < n"
  shows "\<exists>j\<le>n div 2. reflect_row n row ! k = row ! j"
proof (cases "k \<le> n div 2")
  case True
  then show ?thesis using reflect_row_low[OF assms(1) _ assms(2)] by blast
next
  case False
  let ?h = "n div 2"
  let ?src = "rev (take (?h - 1) (drop 1 row))"
  let ?len = "n - (?h + 1)"
  let ?tail = "if length ?src = ?len then ?src else replicate ?len (hd ?src)"
  have ls: "length ?src = ?h - 1" using assms(1) by simp
  have src_elems: "\<And>x. x \<in> set ?src \<Longrightarrow> \<exists>j\<le>?h. x = row ! j"
  proof -
    fix x assume "x \<in> set ?src"
    then have "x \<in> set (take (?h - 1) (drop 1 row))" by simp
    then obtain j where j: "j < ?h - 1" "x = take (?h - 1) (drop 1 row) ! j"
      by (auto simp: in_set_conv_nth)
    then have "x = row ! (1 + j)" using assms(1) by simp
    then show "\<exists>j\<le>?h. x = row ! j" using j(1) by (intro exI[of _ "1 + j"]) simp
  qed
  have tail_elems: "\<And>x. x \<in> set ?tail \<Longrightarrow> \<exists>j\<le>?h. x = row ! j"
  proof -
    fix x assume x: "x \<in> set ?tail"
    show "\<exists>j\<le>?h. x = row ! j"
    proof (cases "length ?src = ?len")
      case True
      then show ?thesis using x src_elems by simp
    next
      case False
      then have "?h - 1 = 1" using assms(3) ls by (simp add: reflect_fits_def)
      then have "?src \<noteq> []" using ls by auto
      then have "hd ?src \<in> set ?src" by (rule hd_in_set)
      moreover have "x = hd ?src" using x False by (auto split: if_splits)
      ultimately show ?thesis using src_elems by blast
    qed
  qed
  have eq: "reflect_row n row = take (?h + 1) row @ ?tail"
    by (simp add: reflect_row_def Let_def)
  have lt: "length (take (?h + 1) row) = ?h + 1" using assms(1,2) by simp
  have "length ?tail = ?len" by simp
  moreover have "k - (?h + 1) < ?len" using False assms(4) by arith
  ultimately have "k - (?h + 1) < length ?tail" by presburger
  then have "?tail ! (k - (?h + 1)) \<in> set ?tail" by (rule nth_mem)
  moreover have "reflect_row n row ! k = ?tail ! (k - (?h + 1))"
    unfolding eq using False lt by (simp add: nth_append)
  ultimately have "reflect_row n row ! k \<in> set ?tail" by (simp only: nth_mem)
  then show ?thesis using tail_elems by blast
qed

lemma store_sel:
  "self_rgrid (store K p c Lsg ms prs thetaa rgrid) = rgrid"
  "self_rperi (store K p c Lsg ms prs thetaa rgrid) = map m_rperi ms"
  "self_rap (store K p c Lsg ms prs thetaa rgrid) = map m_rap ms"
  "self_pt_rperi (store K p c Lsg ms prs thetaa rgrid) = map pr_rperi prs"
  "self_pt_rap (store K p c Lsg ms prs thetaa rgrid) = map pr_rap prs"
  "self_pt_coeffs (store K p c Lsg ms prs thetaa rgrid) = map pr_coeffs prs"
  "self_pt_deriv_coeffs (store K p c Lsg ms prs thetaa rgrid) = map pr_deriv_coeffs prs"
  "self_pt_deriv2_coeffs (store K p c Lsg ms prs thetaa rgrid) = map pr_deriv2_coeffs prs"
  "self_interp (store K p c Lsg ms prs thetaa rgrid) = setup_interp c"
  "self_nta (store K p c Lsg ms prs thetaa rgrid) = nta c"
  "self_internal_Ls (store K p c Lsg ms prs thetaa rgrid) = map m_L ms"
  "self_internal_Es (store K p c Lsg ms prs thetaa rgrid) = map m_E ms"
  "self_Ls (store K p c Lsg ms prs thetaa rgrid) = Lsg"
  "self_jr_orig (store K p c Lsg ms prs thetaa rgrid) = map m_jr ms"
  "self_Omegar_orig (store K p c Lsg ms prs thetaa rgrid) = map m_Omegar ms"
  "self_Omegaz_orig (store K p c Lsg ms prs thetaa rgrid) = map m_Omegaz ms"
  "self_OmegazoverOmegar (store K p c Lsg ms prs thetaa rgrid) = map (\<lambda>m. m_Omegaz m / m_Omegar m) ms"
  "self_amp (store K p c Lsg ms prs thetaa rgrid) = map m_amp ms"
  "self_b (store K p c Lsg ms prs thetaa rgrid) = map m_b ms"
  "self_nforSn (store K p c Lsg ms prs thetaa rgrid) = [1..<nta c div 2 + 1]"
  "self_bisect (store K p c Lsg ms prs thetaa rgrid) = bisect c"
  "self_maxiter (store K p c Lsg ms prs thetaa rgrid) = maxiter c"
  "self_angle_tol (store K p c Lsg ms prs thetaa rgrid) = angle_tol c"
  by (simp_all add: store_def Let_def)

text \<open>What a successful construction fixes about the angle table.\<close>

lemma init_table:
  assumes "actionAngleSphericalInverse_init K c = Inr (e, ws)"
  obtains p ms prs where
    "pot c = Some p" "ms \<noteq> []" "length prs = length ms"
    "pointtransform K p c ms = Inr prs"
    "0 < nta c" "reflect_fits (nta c)"
    "self_rgrid e = map (reflect_row (nta c))
        (fst (solve_rgrid K p (nta c) (angle_tol c) (maxiter c) (bisect c)
               (linspace 0 (2 * pi * (1 - 1 / real (nta c))) (nta c)) (map2 torus_of ms prs)))"
    "ws = snd (solve_rgrid K p (nta c) (angle_tol c) (maxiter c) (bisect c)
               (linspace 0 (2 * pi * (1 - 1 / real (nta c))) (nta c)) (map2 torus_of ms prs))"
    "self_rperi e = map m_rperi ms" "self_rap e = map m_rap ms"
    "self_pt_rperi e = map pr_rperi prs" "self_pt_rap e = map pr_rap prs"
    "self_pt_coeffs e = map pr_coeffs prs"
proof -
  from assms obtain p Lsg iEs iLs prs where f:
    "pot c = Some p"
    "pointtransform K p c (match_nodes K p c iEs iLs) = Inr prs"
    "nta c \<noteq> 0" "length prs = length (match_nodes K p c iEs iLs)"
    "iEs \<noteq> []" "reflect_fits (nta c)"
    "e = store K p c Lsg (match_nodes K p c iEs iLs) prs
                  (linspace 0 (2 * pi * (1 - 1 / real (nta c))) (nta c))
                  (map (reflect_row (nta c))
                     (fst (solve_rgrid K p (nta c) (angle_tol c) (maxiter c) (bisect c)
                        (linspace 0 (2 * pi * (1 - 1 / real (nta c))) (nta c))
                        (map2 torus_of (match_nodes K p c iEs iLs) prs))))"
    "ws = snd (solve_rgrid K p (nta c) (angle_tol c) (maxiter c) (bisect c)
                        (linspace 0 (2 * pi * (1 - 1 / real (nta c))) (nta c))
                        (map2 torus_of (match_nodes K p c iEs iLs) prs))"
    by (rule init_InrE)
  have ne: "match_nodes K p c iEs iLs \<noteq> []" using f(5) by (simp add: match_nodes_def)
  show ?thesis
    by (rule that[of p "match_nodes K p c iEs iLs" prs])
       (use f ne in \<open>simp_all add: store_sel\<close>)
qed

lemma solved_fixed:
  assumes "i < length tori" "k < n" "k = 0 \<or> n div 2 \<le> k" "length thetaa = n"
  shows "fst (solve_rgrid K p n tol mx bis thetaa tori) ! i ! k = guess_row K p n thetaa (tori ! i) ! k"
proof -
  have k: "k < length thetaa" using assms(2,4) by simp
  have u0: "\<not> n_unconv (start_row K p (length thetaa) tol thetaa (tori ! i) ! k)"
    using nth_start_row_unconv[of k "length thetaa" K p tol thetaa "tori ! i"] k assms(3,4) by auto
  have r: "reached K p (length thetaa) tol mx bis thetaa tori ! i ! k
         = start_row K p (length thetaa) tol thetaa (tori ! i) ! k"
    by (rule reached_frozen[OF assms(1) k u0])
  have "fst (solve_rgrid K p (length thetaa) tol mx bis thetaa tori) ! i ! k
         = n_r (reached K p (length thetaa) tol mx bis thetaa tori ! i ! k)"
    using u0 r by (intro solve_rgrid_of_reached[OF assms(1) k]) simp
  also have "\<dots> = guess_row K p (length thetaa) thetaa (tori ! i) ! k"
    unfolding r using k by (rule nth_start_row_r)
  finally show ?thesis unfolding assms(4) .
qed

lemma solved_range:
  assumes i: "i < length tori" and len: "length thetaa = n" and n: "0 < n"
    and nb: "\<not> bis" and quiet: "snd (solve_rgrid K p n tol mx bis thetaa tori) = []"
    and gap: "2 * (1 / 10 ^ 8) \<le> t_rap (tori ! i) - t_rperi (tori ! i)"
    and pt: "t_ptrperi (tori ! i) = t_rperi (tori ! i)" "t_ptrap (tori ! i) = t_rap (tori ! i)"
    and k: "k < n"
  shows "t_rperi (tori ! i) \<le> fst (solve_rgrid K p n tol mx bis thetaa tori) ! i ! k
       \<and> fst (solve_rgrid K p n tol mx bis thetaa tori) ! i ! k \<le> t_rap (tori ! i)"
proof -
  have k': "k < length thetaa" using k len by simp
  have n': "0 < length thetaa" using n len by simp
  have quiet': "snd (solve_rgrid K p (length thetaa) tol mx bis thetaa tori) = []"
    using quiet len by simp
  have conv: "\<not> any_unconv (reached K p (length thetaa) tol mx bis thetaa tori)"
    by (rule solve_rgrid_quiet[OF nb quiet'])
  have "any_unconv (reached K p (length thetaa) tol mx bis thetaa tori) \<longleftrightarrow>
          (\<exists>i<length tori. \<exists>k<length thetaa.
              n_unconv (reached K p (length thetaa) tol mx bis thetaa tori ! i ! k))"
    by (rule any_unconv_iff[OF reached_shaped])
  then have u: "\<not> n_unconv (reached K p (length thetaa) tol mx bis thetaa tori ! i ! k)"
    using conv i k' by blast
  have eq: "fst (solve_rgrid K p (length thetaa) tol mx bis thetaa tori) ! i ! k
         = n_r (reached K p (length thetaa) tol mx bis thetaa tori ! i ! k)"
    by (rule solve_rgrid_of_reached[OF i k' u])
  have le: "t_rperi (tori ! i) \<le> t_rap (tori ! i)" using gap by simp
  have g: "\<forall>k<length thetaa. t_rperi (tori ! i) \<le> guess_row K p (length thetaa) thetaa (tori ! i) ! k
                  \<and> guess_row K p (length thetaa) thetaa (tori ! i) ! k \<le> t_rap (tori ! i)"
  proof (intro allI impI)
    fix j assume "j < length thetaa"
    then show "t_rperi (tori ! i) \<le> guess_row K p (length thetaa) thetaa (tori ! i) ! j
                  \<and> guess_row K p (length thetaa) thetaa (tori ! i) ! j \<le> t_rap (tori ! i)"
      by (rule guess_row_range[OF gap pt _ n'])
  qed
  have "t_rperi (tori ! i) \<le> n_r (reached K p (length thetaa) tol mx bis thetaa tori ! i ! k)
       \<and> n_r (reached K p (length thetaa) tol mx bis thetaa tori ! i ! k) \<le> t_rap (tori ! i)"
    by (rule reached_range[OF i le g k'])
  then show ?thesis using eq len by simp
qed

lemma solved_shape:
  assumes "length thetaa = n"
  shows "length (fst (solve_rgrid K p n tol mx bis thetaa tori)) = length tori"
    and "i < length tori \<Longrightarrow> length (fst (solve_rgrid K p n tol mx bis thetaa tori) ! i) = n"
  using shapedD[OF solve_rgrid_shaped[where tori=tori and thetaa=thetaa and K=K and p=p and tol=tol
        and mx=mx and bis=bis]] assms by auto

lemma nth_tori:
  assumes "i < length ms" "length prs = length ms"
  shows "map2 torus_of ms prs ! i = torus_of (ms ! i) (prs ! i)"
  using assms by simp

lemma torus_of_sel [simp]:
  "t_rperi (torus_of m pr) = m_rperi m" "t_rap (torus_of m pr) = m_rap m"
  "t_ptrperi (torus_of m pr) = pr_rperi pr" "t_ptrap (torus_of m pr) = pr_rap pr"
  by (simp_all add: torus_of_def)

lemma default_pointtransform:
  assumes "pointtransform K p c ms = Inr prs" "\<not> (use_pointtransform c \<and> 1 < pt_deg c)"
  shows "prs = map weird_ptrow ms"
  using assms by (auto simp: pointtransform_def)

lemma weird_sel [simp]:
  "pr_rperi (weird_ptrow m) = m_rperi m" "pr_rap (weird_ptrow m) = m_rap m"
  "pr_coeffs (weird_ptrow m) = [0, 13 / 10, 0, - (3 / 10)]"
  by (simp_all add: weird_ptrow_def Let_def)

text \<open>Helper for the endpoints, the bounds and the reflection of the stored table.\<close>

lemma table_facts:
  assumes init: "actionAngleSphericalInverse_init K c = Inr (e, ws)"
    and i: "i < length (self_rgrid e)"
  shows "length (self_rgrid e ! i) = nta c"
    and "i < length (self_pt_rperi e)" and "i < length (self_pt_rap e)"
    and "i < length (self_rperi e)" and "i < length (self_rap e)"
    and "2 \<le> nta c \<Longrightarrow> self_rgrid e ! i ! 0 = self_pt_rperi e ! i"
    and "self_rgrid e ! i ! (nta c div 2) = self_pt_rap e ! i"
    and "\<not> (use_pointtransform c \<and> 1 < pt_deg c) \<Longrightarrow>
           self_pt_rperi e ! i = self_rperi e ! i \<and> self_pt_rap e ! i = self_rap e ! i"
    and "\<not> (use_pointtransform c \<and> 1 < pt_deg c) \<Longrightarrow> \<not> bisect c \<Longrightarrow> ws = [] \<Longrightarrow>
           2 * (1 / 10 ^ 8) \<le> self_rap e ! i - self_rperi e ! i \<Longrightarrow> k < nta c \<Longrightarrow>
           self_rperi e ! i \<le> self_rgrid e ! i ! k \<and> self_rgrid e ! i ! k \<le> self_rap e ! i"
    and "even (nta c) \<Longrightarrow> 0 < k \<Longrightarrow> k < nta c \<Longrightarrow>
           self_rgrid e ! i ! k = self_rgrid e ! i ! (nta c - k)"
proof -
  let ?n = "nta c"
  let ?th = "linspace 0 (2 * pi * (1 - 1 / real ?n)) ?n"
  from init obtain p ms prs where f:
    "pot c = Some p" "ms \<noteq> []" "length prs = length ms"
    "pointtransform K p c ms = Inr prs"
    "0 < ?n" "reflect_fits ?n"
    "self_rgrid e = map (reflect_row ?n)
        (fst (solve_rgrid K p ?n (angle_tol c) (maxiter c) (bisect c) ?th (map2 torus_of ms prs)))"
    "ws = snd (solve_rgrid K p ?n (angle_tol c) (maxiter c) (bisect c) ?th (map2 torus_of ms prs))"
    "self_rperi e = map m_rperi ms" "self_rap e = map m_rap ms"
    "self_pt_rperi e = map pr_rperi prs" "self_pt_rap e = map pr_rap prs"
    "self_pt_coeffs e = map pr_coeffs prs"
    by (rule init_table)
  let ?tori = "map2 torus_of ms prs"
  let ?S = "fst (solve_rgrid K p ?n (angle_tol c) (maxiter c) (bisect c) ?th ?tori)"
  have lth: "length ?th = ?n" by simp
  have lt: "length ?tori = length ms" using f(3) by simp
  have "length ?S = length ?tori" by (rule solved_shape(1)[OF lth])
  then have lS: "length ?S = length ms" using lt by simp
  have i': "i < length ms" using i f(7) lS by simp
  have it: "i < length ?tori" using i' lt by simp
  have lrow: "length (?S ! i) = ?n" by (rule solved_shape(2)[OF lth it])
  have row: "self_rgrid e ! i = reflect_row ?n (?S ! i)" using f(7) i' lS by simp
  have T: "?tori ! i = torus_of (ms ! i) (prs ! i)" using nth_tori[OF i' f(3)] .
  show "length (self_rgrid e ! i) = ?n" unfolding row using length_reflect_row[OF lrow f(5)] .
  show "i < length (self_pt_rperi e)" "i < length (self_pt_rap e)"
       "i < length (self_rperi e)" "i < length (self_rap e)"
    using i' f(3,9-12) by simp_all
  {
    assume n2: "2 \<le> ?n"
    have "self_rgrid e ! i ! 0 = ?S ! i ! 0"
      unfolding row using reflect_row_low[OF lrow _ f(5), of 0] by simp
    also have "\<dots> = guess_row K p ?n ?th (?tori ! i) ! 0"
      using solved_fixed[OF it _ _ lth, of 0] f(5) by simp
    also have "\<dots> = t_ptrperi (?tori ! i)"
      using guess_row_first[of ?th ?n] n2 by simp
    finally show "self_rgrid e ! i ! 0 = self_pt_rperi e ! i"
      unfolding T using f(11) i' f(3) by simp
  }
  have half: "?n div 2 < ?n" using f(5) by simp
  have "self_rgrid e ! i ! (?n div 2) = ?S ! i ! (?n div 2)"
    unfolding row using reflect_row_low[OF lrow _ f(5), of "?n div 2"] by simp
  also have "\<dots> = guess_row K p ?n ?th (?tori ! i) ! (?n div 2)"
    using solved_fixed[OF it half _ lth] by simp
  also have "\<dots> = t_ptrap (?tori ! i)"
    using guess_row_half[of ?n ?th] half by simp
  finally show "self_rgrid e ! i ! (?n div 2) = self_pt_rap e ! i"
    unfolding T using f(12) i' f(3) by simp
  {
    assume d: "\<not> (use_pointtransform c \<and> 1 < pt_deg c)"
    have prs: "prs = map weird_ptrow ms" using default_pointtransform[OF f(4) d] .
    show pteq: "self_pt_rperi e ! i = self_rperi e ! i \<and> self_pt_rap e ! i = self_rap e ! i"
      using f(9-12) i' prs by simp
    assume nb: "\<not> bisect c" and q: "ws = []"
      and gap: "2 * (1 / 10 ^ 8) \<le> self_rap e ! i - self_rperi e ! i" and k: "k < ?n"
    have rp: "t_rperi (?tori ! i) = self_rperi e ! i" "t_rap (?tori ! i) = self_rap e ! i"
      unfolding T using f(9,10) i' by simp_all
    have ptq: "t_ptrperi (?tori ! i) = t_rperi (?tori ! i)" "t_ptrap (?tori ! i) = t_rap (?tori ! i)"
      unfolding T using prs i' by simp_all
    have gap': "2 * (1 / 10 ^ 8) \<le> t_rap (?tori ! i) - t_rperi (?tori ! i)"
      using gap rp by simp
    have q': "snd (solve_rgrid K p ?n (angle_tol c) (maxiter c) (bisect c) ?th ?tori) = []"
      using q f(8) by simp
    obtain j where j: "j \<le> ?n div 2" "reflect_row ?n (?S ! i) ! k = ?S ! i ! j"
      using reflect_row_elems[OF lrow f(5,6) k] by blast
    have jn: "j < ?n" using j(1) half by simp
    have "t_rperi (?tori ! i) \<le> ?S ! i ! j \<and> ?S ! i ! j \<le> t_rap (?tori ! i)"
      by (rule solved_range[OF it lth f(5) nb q' gap' ptq jn])
    then show "self_rperi e ! i \<le> self_rgrid e ! i ! k \<and> self_rgrid e ! i ! k \<le> self_rap e ! i"
      unfolding row j(2) rp .
  }
  {
    assume "even ?n" "0 < k" "k < ?n"
    then show "self_rgrid e ! i ! k = self_rgrid e ! i ! (?n - k)"
      unfolding row using reflect_row_symmetric[OF lrow] by blast
  }
qed

section \<open>Point transformation rows\<close>

lemma setup_pointtransform_loop_rows:
  "setup_pointtransform_loop K p deg nra ii coeffs ms = Inr rows \<Longrightarrow>
   length rows = length ms \<and> (\<forall>i<length ms. pr_coeffs (rows ! i) = (replicate (deg + 1) 0)[1 := 1])"
proof (induction ms arbitrary: ii coeffs rows)
  case Nil
  then show ?case by simp
next
  case (Cons m ms)
  show ?case
  proof (cases "m_jr m < 1 / 10 ^ 10")
    case True
    from Cons.prems True obtain rest where
      r: "setup_pointtransform_loop K p deg nra (Suc ii) ((replicate (deg + 1) 0)[1 := 1]) ms = Inr rest"
      and rows: "rows = \<lparr>pr_coeffs = (replicate (deg + 1) 0)[1 := 1],
                      pr_deriv_coeffs = replicate deg 1,
                      pr_deriv2_coeffs = replicate (deg - 1) 0,
                      pr_rperi = m_rperi m, pr_rap = m_rap m\<rparr> # rest"
      by (auto simp: Let_def split: sum.splits)
    from Cons.IH[OF r] show ?thesis unfolding rows by (auto simp: nth_Cons split: nat.splits)
  next
    case False
    from Cons.prems False obtain rest r0 where
      r: "setup_pointtransform_loop K p deg nra (Suc ii) ((replicate (deg + 1) 0)[1 := 1]) ms = Inr rest"
      and rows: "rows = r0 # rest" and r0: "pr_coeffs r0 = (replicate (deg + 1) 0)[1 := 1]"
      by (auto simp: Let_def split: sum.splits)
    from Cons.IH[OF r] show ?thesis unfolding rows using r0 by (auto simp: nth_Cons split: nat.splits)
  qed
qed

lemma polyval_zeros: "polyval x (replicate m 0) = 0"
  by (induction m) simp_all

lemma linear_coeffs_eq: "1 \<le> deg \<Longrightarrow> (replicate (deg + 1) 0)[1 := 1] = 0 # 1 # replicate (deg - 1) (0::real)"
  by (cases deg) (simp_all add: replicate_Suc[symmetric] del: replicate_Suc, simp)

lemma polyder1_linear: "polyder1 (0 # 1 # replicate m 0) = 1 # replicate m 0"
proof -
  have "map (\<lambda>j. real j * (0 # 1 # replicate m 0) ! j) [1..<Suc (Suc m)] = 1 # replicate m 0"
  proof (rule nth_equalityI)
    show "length (map (\<lambda>j. real j * (0 # 1 # replicate m 0) ! j) [1..<Suc (Suc m)])
          = length (1 # replicate m (0::real))"
      by (simp del: upt_Suc)
    fix i assume "i < length (map (\<lambda>j. real j * (0 # 1 # replicate m 0) ! j) [1..<Suc (Suc m)])"
    then have i: "i < Suc m" by (simp del: upt_Suc)
    then have "[1..<Suc (Suc m)] ! i = Suc i" by (simp add: nth_upt del: upt_Suc)
    then have "map (\<lambda>j. real j * (0 # 1 # replicate m 0) ! j) [1..<Suc (Suc m)] ! i
               = real (Suc i) * (1 # replicate m 0) ! i"
      using i by (simp del: upt_Suc)
    also have "\<dots> = (1 # replicate m 0) ! i"
      using i by (cases i) simp_all
    finally show "map (\<lambda>j. real j * (0 # 1 # replicate m 0) ! j) [1..<Suc (Suc m)] ! i
               = (1 # replicate m 0) ! i" .
  qed
  then show ?thesis by (simp add: polyder1_def del: upt_Suc)
qed

lemma linear_boundary:
  assumes "1 \<le> deg"
  shows "polyval 0 ((replicate (deg + 1) 0)[1 := 1]) = 0"
    and "polyval 1 ((replicate (deg + 1) 0)[1 := 1]) = 1"
    and "polyval 0 (polyder 1 ((replicate (deg + 1) 0)[1 := 1])) = 1"
    and "polyval 1 (polyder 1 ((replicate (deg + 1) 0)[1 := 1])) = 1"
  unfolding linear_coeffs_eq[OF assms] by (simp_all add: polyval_zeros polyder1_linear)

lemma weird_boundary:
  "polyval 0 [0, 13 / 10, 0, - (3 / 10)] = 0"
  "polyval 1 [0, 13 / 10, 0, - (3 / 10)] = 1"
  "polyval 0 (polyder 1 [0, 13 / 10, 0, - (3 / 10)]) = 13 / 10"
  "polyval 1 (polyder 1 [0, 13 / 10, 0, - (3 / 10)]) = 2 / 5"
  by (simp_all add: polyder1_def upt_conv_Cons)

lemma fitted_pointtransform:
  assumes "pointtransform K p c ms = Inr prs" "use_pointtransform c \<and> 1 < pt_deg c"
    "length prs = length ms" "i < length ms"
  shows "pr_coeffs (prs ! i) = (replicate (pt_deg c + 1) 0)[1 := 1]"
proof -
  let ?ms' = "if setup_interp c then take (nE c) ms else ms"
  have l: "setup_pointtransform_loop K p (pt_deg c) (pt_nra c) 0 [] ?ms' = Inr prs"
    using assms(1,2) by (simp add: pointtransform_def)
  from setup_pointtransform_loop_rows[OF l]
  have a: "length prs = length ?ms'"
    and b: "\<forall>i<length ?ms'. pr_coeffs (prs ! i) = (replicate (pt_deg c + 1) 0)[1 := 1]"
    by blast+
  from a assms(3,4) have "i < length ?ms'" by simp
  with b show ?thesis by blast
qed

text \<open>The stored coefficient rows of a constructed instance.\<close>

lemma stored_coeffs:
  assumes init: "actionAngleSphericalInverse_init K c = Inr (e, ws)"
    and i: "i < length (self_pt_coeffs e)"
  shows "use_pointtransform c \<and> 1 < pt_deg c \<Longrightarrow>
           self_pt_coeffs e ! i = (replicate (pt_deg c + 1) 0)[1 := 1]"
    and "\<not> (use_pointtransform c \<and> 1 < pt_deg c) \<Longrightarrow>
           self_pt_coeffs e ! i = [0, 13 / 10, 0, - (3 / 10)]"
proof -
  from init obtain p ms prs where f:
    "length prs = length ms" "pointtransform K p c ms = Inr prs"
    "self_pt_coeffs e = map pr_coeffs prs"
    by (rule init_table)
  have i': "i < length ms" using i f(1,3) by simp
  {
    assume a: "use_pointtransform c \<and> 1 < pt_deg c"
    show "self_pt_coeffs e ! i = (replicate (pt_deg c + 1) 0)[1 := 1]"
      using fitted_pointtransform[OF f(2) a f(1) i'] f(1,3) i' by simp
  }
  {
    assume a: "\<not> (use_pointtransform c \<and> 1 < pt_deg c)"
    show "self_pt_coeffs e ! i = [0, 13 / 10, 0, - (3 / 10)]"
      using default_pointtransform[OF f(2) a] f(3) i' by simp
  }
qed

section \<open>Angles\<close>

lemma fmod_small: "0 \<le> x \<Longrightarrow> x < y \<Longrightarrow> fmod x y = x"
proof -
  assume a: "0 \<le> x" "x < y"
  then have "0 \<le> x / y" "x / y < 1" by simp_all
  then have "\<lfloor>x / y\<rfloor> = 0" by linarith
  then show ?thesis by (simp add: fmod_def)
qed

lemma wrap_angle_small: "- pi \<le> x \<Longrightarrow> x < pi \<Longrightarrow> wrap_angle x = x"
  unfolding wrap_angle_def by (subst fmod_small) simp_all

lemma wrap_angle_0 [simp]: "wrap_angle 0 = 0"
  by (rule wrap_angle_small) simp_all

section \<open>A loop that starts converged\<close>

lemma newton_step_converged:
  assumes "shaped (length tori) (length thetaa) st" "\<not> any_unconv st"
  shows "newton_step K p n tol thetaa tori st = st"
proof (rule nth_equalityI)
  show l: "length (newton_step K p n tol thetaa tori st) = length st"
    using shapedD(1)[OF assms(1)] by (simp add: newton_step_def)
  fix i assume "i < length (newton_step K p n tol thetaa tori st)"
  then have i: "i < length tori" using l shapedD(1)[OF assms(1)] by simp
  have sh': "shaped (length tori) (length thetaa) (newton_step K p n tol thetaa tori st)"
    using assms(1) by (rule shaped_newton_step)
  show "newton_step K p n tol thetaa tori st ! i = st ! i"
  proof (rule nth_equalityI)
    show "length (newton_step K p n tol thetaa tori st ! i) = length (st ! i)"
      using shapedD(2)[OF sh' i] shapedD(2)[OF assms(1) i] by simp
    fix k assume "k < length (newton_step K p n tol thetaa tori st ! i)"
    then have k: "k < length thetaa" using shapedD(2)[OF sh' i] by simp
    have "\<not> n_unconv (st ! i ! k)"
      using assms(2) any_unconv_iff[OF assms(1)] i k by blast
    then show "newton_step K p n tol thetaa tori st ! i ! k = st ! i ! k"
      using nth_newton_step[OF assms(1) i k, of K p n tol] by simp
  qed
qed

lemma newton_loop_converged:
  assumes "shaped (length tori) (length thetaa) st" "\<not> any_unconv st"
  shows "newton_loop K p n tol mx thetaa tori st cntr = (st, cntr + 1, [])"
  by (subst newton_loop.simps) (simp add: newton_step_converged[OF assms] assms(2))

lemma solve_rgrid_converged:
  assumes "\<not> any_unconv (map (start_row K p (length thetaa) tol thetaa) tori)" "1 \<le> mx"
  shows "solve_rgrid K p (length thetaa) tol mx False thetaa tori
         = (map (map n_r) (map (start_row K p (length thetaa) tol thetaa) tori), [])"
  unfolding solve_rgrid_newton newton_loop_converged[OF shaped_start assms(1)]
  using assms(2) by simp

section \<open>The stored rows\<close>

lemma length_rfft_real [simp]: "length (rfft_real xs) = length xs div 2 + 1"
  by (simp add: rfft_real_def Let_def)

lemma length_extract [simp]:
  "length (extract_nSn jr jra) = length jra div 2"
  "length (extract_dSndJr jra d) = length d div 2"
  "length (extract_dSndLish jra d) = length d div 2"
  by (simp_all add: extract_nSn_def extract_dSndJr_def extract_dSndLish_def)

lemma length_zero_small [simp]: "length (zero_small eps xs) = length xs"
  by (simp add: zero_small_def)

lemma nth_zero_small:
  "j < length xs \<Longrightarrow> zero_small eps xs ! j = (if \<bar>xs ! j\<bar> < eps then 0 else xs ! j)"
  by (simp add: zero_small_def)

lemma length_divide_by_n [simp]: "length (divide_by_n n xs) = min (length xs) (n div 2)"
  by (simp add: divide_by_n_def)

lemma nth_divide_by_n:
  "j < length xs \<Longrightarrow> j < n div 2 \<Longrightarrow> divide_by_n n xs ! j = xs ! j / real (j + 1)"
  by (simp add: divide_by_n_def nth_upt del: upt_Suc)

lemma store_rows:
  assumes "length prs = length ms" "length rgrid = length ms" "i < length ms"
  shows "self_jra (store K p c Lsg ms prs thetaa rgrid) ! i = map (\<lambda>ra. fst (jraora K p (torus_of (ms ! i) (prs ! i)) ra)) (rgrid ! i)"
    and "self_djradjr (store K p c Lsg ms prs thetaa rgrid) ! i = map (\<lambda>ra. fst (djradjrLish K p (torus_of (ms ! i) (prs ! i)) ra)) (rgrid ! i)"
    and "self_djradLish (store K p c Lsg ms prs thetaa rgrid) ! i = map (\<lambda>ra. fst (snd (djradjrLish K p (torus_of (ms ! i) (prs ! i)) ra))) (rgrid ! i)"
    and "length (self_jra (store K p c Lsg ms prs thetaa rgrid)) = length ms" and "length (self_djradjr (store K p c Lsg ms prs thetaa rgrid)) = length ms"
    and "length (self_djradLish (store K p c Lsg ms prs thetaa rgrid)) = length ms"
    and "length (self_jr (store K p c Lsg ms prs thetaa rgrid)) = length ms" and "length (self_Omegar (store K p c Lsg ms prs thetaa rgrid)) = length ms"
    and "length (self_Omegaz (store K p c Lsg ms prs thetaa rgrid)) = length ms"
    and "length (self_nSn (store K p c Lsg ms prs thetaa rgrid)) = length ms" and "length (self_dSndJr (store K p c Lsg ms prs thetaa rgrid)) = length ms"
    and "length (self_dSndLish (store K p c Lsg ms prs thetaa rgrid)) = length ms"
    and "self_jr (store K p c Lsg ms prs thetaa rgrid) ! i = mean (self_jra (store K p c Lsg ms prs thetaa rgrid) ! i)"
    and "self_Omegar (store K p c Lsg ms prs thetaa rgrid) ! i = m_Omegar (ms ! i) / mean (self_djradjr (store K p c Lsg ms prs thetaa rgrid) ! i)"
    and "self_Omegaz (store K p c Lsg ms prs thetaa rgrid) ! i = m_Omegaz (ms ! i) / m_Omegar (ms ! i) * self_Omegar (store K p c Lsg ms prs thetaa rgrid) ! i"
    and "self_nSn (store K p c Lsg ms prs thetaa rgrid) ! i =
           (if setup_interp c then zero_small (1 / 10 ^ 16) (extract_nSn (self_jr (store K p c Lsg ms prs thetaa rgrid) ! i) (self_jra (store K p c Lsg ms prs thetaa rgrid) ! i))
            else extract_nSn (self_jr (store K p c Lsg ms prs thetaa rgrid) ! i) (self_jra (store K p c Lsg ms prs thetaa rgrid) ! i))"
    and "self_dSndJr (store K p c Lsg ms prs thetaa rgrid) ! i = divide_by_n (nta c)
           (if setup_interp c
            then zero_small (1 / 10 ^ 15) (extract_dSndJr (self_jra (store K p c Lsg ms prs thetaa rgrid) ! i) (self_djradjr (store K p c Lsg ms prs thetaa rgrid) ! i))
            else extract_dSndJr (self_jra (store K p c Lsg ms prs thetaa rgrid) ! i) (self_djradjr (store K p c Lsg ms prs thetaa rgrid) ! i))"
    and "self_dSndLish (store K p c Lsg ms prs thetaa rgrid) ! i = divide_by_n (nta c)
           (if setup_interp c
            then zero_small (1 / 10 ^ 15) (extract_dSndLish (self_jra (store K p c Lsg ms prs thetaa rgrid) ! i) (self_djradLish (store K p c Lsg ms prs thetaa rgrid) ! i))
            else extract_dSndLish (self_jra (store K p c Lsg ms prs thetaa rgrid) ! i) (self_djradLish (store K p c Lsg ms prs thetaa rgrid) ! i))"
  using assms by (simp_all add: store_def Let_def)

lemma init_store:
  assumes "actionAngleSphericalInverse_init K c = Inr (e, ws)"
  obtains p Lsg iEs iLs prs rgrid where
    "pot c = Some p" "internal_EL K p c = Inr (Lsg, iEs, iLs)"
    "length prs = length iEs" "length rgrid = length iEs" "iEs \<noteq> []"
    "length (match_nodes K p c iEs iLs) = length iEs"
    "\<forall>i<length iEs. length (rgrid ! i) = nta c" "0 < nta c"
    "e = store K p c Lsg (match_nodes K p c iEs iLs) prs
           (linspace 0 (2 * pi * (1 - 1 / real (nta c))) (nta c)) rgrid"
proof -
  let ?th = "linspace 0 (2 * pi * (1 - 1 / real (nta c))) (nta c)"
  from assms obtain p Lsg iEs iLs prs where f:
    "pot c = Some p" "internal_EL K p c = Inr (Lsg, iEs, iLs)"
    "nta c \<noteq> 0" "length prs = length (match_nodes K p c iEs iLs)"
    "iEs \<noteq> []" "reflect_fits (nta c)"
    "e = store K p c Lsg (match_nodes K p c iEs iLs) prs ?th
           (map (reflect_row (nta c))
              (fst (solve_rgrid K p (nta c) (angle_tol c) (maxiter c) (bisect c) ?th
                 (map2 torus_of (match_nodes K p c iEs iLs) prs))))"
    by (rule init_InrE)
  let ?ms = "match_nodes K p c iEs iLs"
  let ?tori = "map2 torus_of ?ms prs"
  let ?S = "fst (solve_rgrid K p (nta c) (angle_tol c) (maxiter c) (bisect c) ?th ?tori)"
  have lm: "length ?ms = length iEs" by (simp add: match_nodes_def)
  have lth: "length ?th = nta c" by simp
  have lt: "length ?tori = length iEs" using f(4) lm by simp
  have "length ?S = length ?tori" by (rule solved_shape(1)[OF lth])
  then have lS: "length ?S = length iEs" using lt by simp
  have rows: "\<forall>i<length iEs. length (map (reflect_row (nta c)) ?S ! i) = nta c"
  proof (intro allI impI)
    fix i assume i: "i < length iEs"
    then have "i < length ?tori" using lt by simp
    then have "length (?S ! i) = nta c" by (rule solved_shape(2)[OF lth])
    then have "length (reflect_row (nta c) (?S ! i)) = nta c"
      using f(3) by (intro length_reflect_row) simp_all
    then show "length (map (reflect_row (nta c)) ?S ! i) = nta c" using i lS by simp
  qed
  show ?thesis
    by (rule that[of p Lsg iEs iLs prs "map (reflect_row (nta c)) ?S"])
       (use f lm lS rows in \<open>simp_all\<close>)
qed

lemma nth_match_nodes:
  "i < length iEs \<Longrightarrow> match_nodes K p c iEs iLs ! i = match_node K p c i (iEs ! i) (iLs ! i)"
  by (simp add: match_nodes_def del: upt_Suc)

lemma match_node_sel [simp]:
  "m_E (match_node K p c i E L) = E" "m_L (match_node K p c i E L) = L"
  "m_jr (match_node K p c i E L) = fst (forward_node K p c i E L)"
  "m_Omegar (match_node K p c i E L) = fst (snd (forward_node K p c i E L))"
  "m_Omegaz (match_node K p c i E L) = fst (snd (snd (forward_node K p c i E L)))"
  "m_rperi (match_node K p c i E L) = fst (snd (snd (snd (forward_node K p c i E L))))"
  "m_rap (match_node K p c i E L) = snd (snd (snd (snd (forward_node K p c i E L))))"
  by (simp_all add: match_node_def Let_def)

text \<open>The stored action, frequencies and Fourier rows of a constructed instance.\<close>

lemma stored_facts:
  assumes init: "actionAngleSphericalInverse_init K c = Inr (e, ws)"
    and i: "i < length (self_jr e)"
  shows "length (self_jra e ! i) = nta c" and "0 < nta c"
    and "self_jr e ! i = mean (self_jra e ! i)"
    and "self_Omegar e ! i = self_Omegar_orig e ! i / mean (self_djradjr e ! i)"
    and "self_Omegaz e ! i = self_OmegazoverOmegar e ! i * self_Omegar e ! i"
    and "self_OmegazoverOmegar e ! i = self_Omegaz_orig e ! i / self_Omegar_orig e ! i"
    and "pot c = Some p \<Longrightarrow>
           self_jr_orig e ! i = fst (forward_node K p c i (self_internal_Es e ! i) (self_internal_Ls e ! i))
         \<and> self_Omegar_orig e ! i = fst (snd (forward_node K p c i (self_internal_Es e ! i) (self_internal_Ls e ! i)))
         \<and> self_Omegaz_orig e ! i = fst (snd (snd (forward_node K p c i (self_internal_Es e ! i) (self_internal_Ls e ! i))))"
    and "self_nSn e ! i =
           (if setup_interp c then zero_small (1 / 10 ^ 16) (extract_nSn (self_jr e ! i) (self_jra e ! i))
            else extract_nSn (self_jr e ! i) (self_jra e ! i))"
    and "self_dSndJr e ! i = divide_by_n (nta c)
           (if setup_interp c
            then zero_small (1 / 10 ^ 15) (extract_dSndJr (self_jra e ! i) (self_djradjr e ! i))
            else extract_dSndJr (self_jra e ! i) (self_djradjr e ! i))"
    and "self_dSndLish e ! i = divide_by_n (nta c)
           (if setup_interp c
            then zero_small (1 / 10 ^ 15) (extract_dSndLish (self_jra e ! i) (self_djradLish e ! i))
            else extract_dSndLish (self_jra e ! i) (self_djradLish e ! i))"
    and "length (self_djradjr e ! i) = nta c" and "length (self_djradLish e ! i) = nta c"
proof -
  let ?th = "linspace 0 (2 * pi * (1 - 1 / real (nta c))) (nta c)"
  from init obtain q Lsg iEs iLs prs rgrid where f:
    "pot c = Some q" "internal_EL K q c = Inr (Lsg, iEs, iLs)"
    "length prs = length iEs" "length rgrid = length iEs" "iEs \<noteq> []"
    "length (match_nodes K q c iEs iLs) = length iEs"
    "\<forall>i<length iEs. length (rgrid ! i) = nta c" "0 < nta c"
    "e = store K q c Lsg (match_nodes K q c iEs iLs) prs ?th rgrid"
    by (rule init_store)
  let ?ms = "match_nodes K q c iEs iLs"
  have lp: "length prs = length ?ms" and lr: "length rgrid = length ?ms"
    using f(3,4,6) by simp_all
  have i': "i < length ?ms"
    using i store_rows(7)[OF lp lr, of 0 K q c Lsg ?th] f(5,6,9) by simp
  note R = store_rows[OF lp lr i', of K q c Lsg ?th]
  have ii: "i < length iEs" using i' f(6) by simp
  show "0 < nta c" by (rule f(8))
  show "length (self_jra e ! i) = nta c" unfolding f(9) R(1) using f(7)[rule_format, OF ii] by simp
  show "length (self_djradjr e ! i) = nta c" unfolding f(9) R(2) using f(7)[rule_format, OF ii] by simp
  show "length (self_djradLish e ! i) = nta c" unfolding f(9) R(3) using f(7)[rule_format, OF ii] by simp
  show "self_jr e ! i = mean (self_jra e ! i)" unfolding f(9) by (rule R(13))
  show "self_Omegar e ! i = self_Omegar_orig e ! i / mean (self_djradjr e ! i)"
    unfolding f(9) R(14) using i' by (simp add: store_sel)
  show "self_Omegaz e ! i = self_OmegazoverOmegar e ! i * self_Omegar e ! i"
    unfolding f(9) R(15) using i' by (simp add: store_sel)
  show "self_OmegazoverOmegar e ! i = self_Omegaz_orig e ! i / self_Omegar_orig e ! i"
    unfolding f(9) using i' by (simp add: store_sel)
  show "self_nSn e ! i =
           (if setup_interp c then zero_small (1 / 10 ^ 16) (extract_nSn (self_jr e ! i) (self_jra e ! i))
            else extract_nSn (self_jr e ! i) (self_jra e ! i))"
    unfolding f(9) by (rule R(16))
  show "self_dSndJr e ! i = divide_by_n (nta c)
           (if setup_interp c
            then zero_small (1 / 10 ^ 15) (extract_dSndJr (self_jra e ! i) (self_djradjr e ! i))
            else extract_dSndJr (self_jra e ! i) (self_djradjr e ! i))"
    unfolding f(9) by (rule R(17))
  show "self_dSndLish e ! i = divide_by_n (nta c)
           (if setup_interp c
            then zero_small (1 / 10 ^ 15) (extract_dSndLish (self_jra e ! i) (self_djradLish e ! i))
            else extract_dSndLish (self_jra e ! i) (self_djradLish e ! i))"
    unfolding f(9) by (rule R(18))
  {
    assume "pot c = Some p"
    then have pq: "p = q" using f(1) by simp
    show "self_jr_orig e ! i = fst (forward_node K p c i (self_internal_Es e ! i) (self_internal_Ls e ! i))
         \<and> self_Omegar_orig e ! i = fst (snd (forward_node K p c i (self_internal_Es e ! i) (self_internal_Ls e ! i)))
         \<and> self_Omegaz_orig e ! i = fst (snd (snd (forward_node K p c i (self_internal_Es e ! i) (self_internal_Ls e ! i))))"
      unfolding f(9) pq using i' ii by (simp add: store_sel nth_match_nodes)
  }
qed

section \<open>Lookup\<close>

lemma find_torus_Inr:
  assumes "find_torus jrs Lsv jr jphi jz = Inr indx"
  shows "indx = nanargmin (map (\<lambda>j. \<bar>jr - j\<bar>) jrs)" and "indx < length jrs" and "indx < length Lsv"
    and "\<bar>jr - jrs ! indx\<bar> \<le> 1 / 10 ^ 10" and "\<bar>jz + \<bar>jphi\<bar> - Lsv ! indx\<bar> \<le> 1 / 10 ^ 10"
proof -
  from assms have ne: "jrs \<noteq> []" by (auto simp: find_torus_def)
  from assms show a: "indx = nanargmin (map (\<lambda>j. \<bar>jr - j\<bar>) jrs)"
    by (auto simp: find_torus_def Let_def split: if_splits)
  show "indx < length jrs" unfolding a using nanargmin_less[of "map (\<lambda>j. \<bar>jr - j\<bar>) jrs"] ne by simp
  from assms show "indx < length Lsv" "\<bar>jr - jrs ! indx\<bar> \<le> 1 / 10 ^ 10"
      "\<bar>jz + \<bar>jphi\<bar> - Lsv ! indx\<bar> \<le> 1 / 10 ^ 10"
    by (auto simp: find_torus_def Let_def split: if_splits)
qed

lemma find_torus_no_match:
  assumes "\<forall>i<length jrs. \<not> (i < length Lsv \<and> \<bar>jr - jrs ! i\<bar> \<le> 1 / 10 ^ 10
                                 \<and> \<bar>jz + \<bar>jphi\<bar> - Lsv ! i\<bar> \<le> 1 / 10 ^ 10)"
  shows "\<exists>err. find_torus jrs Lsv jr jphi jz = Inl err"
proof (cases "find_torus jrs Lsv jr jphi jz")
  case (Inl a)
  then show ?thesis by blast
next
  case (Inr indx)
  from find_torus_Inr[OF Inr] assms show ?thesis by blast
qed

section \<open>Queries on a constructed instance\<close>

lemma read_torus_constructed:
  assumes init: "actionAngleSphericalInverse_init K c = Inr (e, ws)"
    and i: "indx < length (self_jr e)"
  shows "\<exists>t. read_torus e indx = Inr t"
proof -
  let ?th = "linspace 0 (2 * pi * (1 - 1 / real (nta c))) (nta c)"
  from init obtain q Lsg iEs iLs prs rgrid where f:
    "pot c = Some q" "internal_EL K q c = Inr (Lsg, iEs, iLs)"
    "length prs = length iEs" "length rgrid = length iEs" "iEs \<noteq> []"
    "length (match_nodes K q c iEs iLs) = length iEs"
    "\<forall>i<length iEs. length (rgrid ! i) = nta c" "0 < nta c"
    "e = store K q c Lsg (match_nodes K q c iEs iLs) prs ?th rgrid"
    by (rule init_store)
  let ?ms = "match_nodes K q c iEs iLs"
  have lp: "length prs = length ?ms" and lr: "length rgrid = length ?ms"
    using f(3,4,6) by simp_all
  have i': "indx < length ?ms"
    using i store_rows(7)[OF lp lr, of 0 K q c Lsg ?th] f(5,6,9) by simp
  note R = store_rows[OF lp lr i', of K q c Lsg ?th]
  note S = stored_facts[OF init i]
  have lens: "\<not> list_ex (\<lambda>n. n \<le> indx)
           [length (self_internal_Es e), length (self_nSn e), length (self_dSndJr e),
            length (self_dSndLish e), length (self_OmegazoverOmegar e), length (self_Omegar e),
            length (self_Omegaz e), length (self_amp e), length (self_b e),
            length (self_pt_coeffs e), length (self_pt_deriv_coeffs e), length (self_rperi e),
            length (self_rap e), length (self_pt_rperi e), length (self_pt_rap e)]"
    using i' lp R(8-12) unfolding f(9) by (simp add: store_sel)
  have nf: "length (self_nforSn e) = nta c div 2" unfolding f(9) by (simp add: store_sel)
  have rows: "\<not> list_ex (\<lambda>row. length row \<noteq> length (self_nforSn e))
                [self_nSn e ! indx, self_dSndJr e ! indx, self_dSndLish e ! indx]"
    unfolding nf S(8,9,10) using S(1,11,12) by simp
  show ?thesis using lens rows by (simp add: read_torus_def)
qed

lemma xvFreqs_succeeds:
  assumes "\<not> self_interp e" "find_torus (self_jr e) (self_internal_Ls e) jr jphi jz = Inr indx"
    "read_torus e indx = Inr t"
  shows "\<exists>x ws. xvFreqs K e jr jphi jz angles point = Inr (x, ws)
           \<and> x_OmegaR x = self_Omegar e ! indx \<and> x_Omegaz x = self_Omegaz e ! indx"
proof -
  from assms(3) have "st_Omegar t = self_Omegar e ! indx" "st_Omegaz t = self_Omegaz e ! indx"
    by (auto simp: read_torus_def split: if_splits)
  then show ?thesis using assms by (simp add: xvFreqs_def Let_def)
qed

section \<open>Tables that start converged\<close>

lemma nanargmin_const: "list_all (\<lambda>x. x = c) xs \<Longrightarrow> nanargmin xs = 0"
  by (induction xs rule: nanargmin.induct) (simp_all add: Let_def)

lemma map_n_r_start_row:
  "length thetaa = n \<Longrightarrow> map n_r (start_row K p n tol thetaa T) = guess_row K p n thetaa T"
  by (rule nth_equalityI) (simp_all add: nth_start_row_r)

lemma start_converged:
  assumes "\<forall>i<length tori. \<forall>k<n. 0 < k \<longrightarrow> k < n div 2 \<longrightarrow>
             \<bar>wrap_angle (anglera K p (tori ! i) False (guess_row K p n thetaa (tori ! i) ! k)
                           - thetaa ! k)\<bar> \<le> tol"
  shows "\<not> any_unconv (map (start_row K p n tol thetaa) tori)"
proof -
  have sh: "shaped (length tori) n (map (start_row K p n tol thetaa) tori)"
    by (rule shaped_start)
  have "\<And>i k. i < length tori \<Longrightarrow> k < n \<Longrightarrow> \<not> n_unconv (map (start_row K p n tol thetaa) tori ! i ! k)"
  proof -
    fix i k assume a: "i < length tori" "k < n"
    have "n_unconv (start_row K p n tol thetaa (tori ! i) ! k) =
          (0 < k \<and> k < n div 2 \<and>
            \<bar>wrap_angle (anglera K p (tori ! i) False (guess_row K p n thetaa (tori ! i) ! k) - thetaa ! k)\<bar> > tol)"
      using a(2) by (simp add: start_row_def Let_def del: upt_Suc)
    moreover have "0 < k \<Longrightarrow> k < n div 2 \<Longrightarrow>
            \<bar>wrap_angle (anglera K p (tori ! i) False (guess_row K p n thetaa (tori ! i) ! k) - thetaa ! k)\<bar> \<le> tol"
      using assms a by blast
    ultimately have "\<not> n_unconv (start_row K p n tol thetaa (tori ! i) ! k)"
      by linarith
    then show "\<not> n_unconv (map (start_row K p n tol thetaa) tori ! i ! k)"
      using a(1) by simp
  qed
  then show ?thesis unfolding any_unconv_iff[OF sh] by blast
qed

text \<open>Construction from two input lists when every solved node starts converged.\<close>

lemma init_quiet:
  assumes p: "pot c = Some p" and lm: "\<not> setup_interp c" "length (Es c) = length (Ls c)" "Es c \<noteq> []"
    and ok: "\<not> list_ex (\<lambda>m. ampb_negative ((m_L m)\<^sup>2) (m_Omegar m) (m_Omegaz m))
              (match_nodes K p c (Es c) (Ls c))"
    and pt: "pointtransform K p c (match_nodes K p c (Es c) (Ls c)) = Inr prs"
            "length prs = length (Es c)"
    and n: "nta c \<noteq> 0" "reflect_fits (nta c)"
    and loop: "\<not> bisect c" "1 \<le> maxiter c"
    and conv: "\<forall>i<length (Es c). \<forall>k<nta c. 0 < k \<longrightarrow> k < nta c div 2 \<longrightarrow>
       \<bar>wrap_angle (anglera K p (torus_of (match_nodes K p c (Es c) (Ls c) ! i) (prs ! i)) False
           (guess_row K p (nta c) (linspace 0 (2 * pi * (1 - 1 / real (nta c))) (nta c))
              (torus_of (match_nodes K p c (Es c) (Ls c) ! i) (prs ! i)) ! k)
           - linspace 0 (2 * pi * (1 - 1 / real (nta c))) (nta c) ! k)\<bar> \<le> angle_tol c"
  shows "actionAngleSphericalInverse_init K c =
     Inr (store K p c (Ls c) (match_nodes K p c (Es c) (Ls c)) prs
            (linspace 0 (2 * pi * (1 - 1 / real (nta c))) (nta c))
            (map (\<lambda>T. reflect_row (nta c)
                    (guess_row K p (nta c) (linspace 0 (2 * pi * (1 - 1 / real (nta c))) (nta c)) T))
               (map2 torus_of (match_nodes K p c (Es c) (Ls c)) prs)),
          [])"
proof -
  let ?n = "nta c"
  let ?th = "linspace 0 (2 * pi * (1 - 1 / real ?n)) ?n"
  let ?ms = "match_nodes K p c (Es c) (Ls c)"
  let ?tori = "map2 torus_of ?ms prs"
  have el: "internal_EL K p c = Inr (Ls c, Es c, Ls c)"
    using lm by (simp add: internal_EL_def)
  have lms: "length ?ms = length (Es c)" by (simp add: match_nodes_def)
  have lt: "length ?tori = length (Es c)" using lms pt(2) by simp
  have lth: "length ?th = ?n" by simp
  have c': "\<forall>i<length ?tori. \<forall>k<?n. 0 < k \<longrightarrow> k < ?n div 2 \<longrightarrow>
             \<bar>wrap_angle (anglera K p (?tori ! i) False (guess_row K p ?n ?th (?tori ! i) ! k)
                           - ?th ! k)\<bar> \<le> angle_tol c"
  proof (intro allI impI)
    fix i k assume a: "i < length ?tori" "k < ?n" "0 < k" "k < ?n div 2"
    from a(1) have i: "i < length (Es c)" unfolding lt .
    have T: "?tori ! i = torus_of (?ms ! i) (prs ! i)" using i lms pt(2) by simp
    show "\<bar>wrap_angle (anglera K p (?tori ! i) False (guess_row K p ?n ?th (?tori ! i) ! k) - ?th ! k)\<bar>
            \<le> angle_tol c"
      unfolding T using conv i a(2,3,4) by blast
  qed
  have nu: "\<not> any_unconv (map (start_row K p (length ?th) (angle_tol c) ?th) ?tori)"
    unfolding lth by (rule start_converged[OF c'])
  have sol: "solve_rgrid K p ?n (angle_tol c) (maxiter c) (bisect c) ?th ?tori
             = (map (map n_r) (map (start_row K p ?n (angle_tol c) ?th) ?tori), [])"
    using solve_rgrid_converged[OF nu loop(2)] loop(1) unfolding lth by simp
  have g: "map (reflect_row ?n) (map (map n_r) (map (start_row K p ?n (angle_tol c) ?th) ?tori))
           = map (\<lambda>T. reflect_row ?n (guess_row K p ?n ?th T)) ?tori"
    by (simp add: map_n_r_start_row[OF lth])
  have "actionAngleSphericalInverse_init K c =
           Inr (store K p c (Ls c) ?ms prs ?th
                  (map (reflect_row ?n)
                     (fst (solve_rgrid K p ?n (angle_tol c) (maxiter c) (bisect c) ?th ?tori))),
                snd (solve_rgrid K p ?n (angle_tol c) (maxiter c) (bisect c) ?th ?tori))"
    by (rule init_succeeds[OF p el _ ok pt(1) n(1) _ lm(3) n(2)]) (use lm(1) pt(2) lms in simp_all)
  then show ?thesis unfolding sol fst_conv snd_conv g .
qed

section \<open>Example collaborators\<close>

lemma no_reject:
  assumes "\<And>x y z. fst (snd (actionsFreqs K p x y z)) = Or"
    and "\<And>x y z. snd (snd (actionsFreqs K p x y z)) = Oz"
    and "0 \<le> Oz * (Or - Oz)"
  shows "\<not> list_ex (\<lambda>m. ampb_negative ((m_L m)\<^sup>2) (m_Omegar m) (m_Omegaz m))
              (match_nodes K p c iEs iLs)"
proof -
  have "\<And>i. i < length iEs \<Longrightarrow>
          \<not> ampb_negative ((m_L (match_nodes K p c iEs iLs ! i))\<^sup>2)
              (m_Omegar (match_nodes K p c iEs iLs ! i)) (m_Omegaz (match_nodes K p c iEs iLs ! i))"
  proof -
    fix i assume i: "i < length iEs"
    have "0 \<le> (iLs ! i)\<^sup>2 * (Oz * (Or - Oz))" using assms(3) by simp
    then have "\<not> (iLs ! i)\<^sup>2 * Oz * (Or - Oz) < 0" by (simp add: mult.assoc)
    then show "\<not> ampb_negative ((m_L (match_nodes K p c iEs iLs ! i))\<^sup>2)
              (m_Omegar (match_nodes K p c iEs iLs ! i)) (m_Omegaz (match_nodes K p c iEs iLs ! i))"
      unfolding ampb_negative_iff nth_match_nodes[OF i]
      by (simp add: forward_node_def Let_def assms(1,2))
  qed
  then show ?thesis by (simp add: list_ex_length match_nodes_def del: upt_Suc)
qed

lemma anglera_const:
  "iso_angler K = (\<lambda>_ _ _ _ _ _. a) \<Longrightarrow> anglera K p T vrneg ra = a"
  by (simp add: anglera_def Let_def)

lemma mean_const: "xs \<noteq> [] \<Longrightarrow> mean (map (\<lambda>_. c) xs) = c"
  by (simp add: mean_def sum_list_triv)

lemma jra_const:
  "iso_Jr K = (\<lambda>_ _ _ _. v) \<Longrightarrow> fst (jraora K p T ra) = v"
  by (simp add: jraora_def Let_def)

text \<open>
  Construction from two lists with the default branch of the point transformation and a
  collaborator whose angle is constant: every solved node starts converged when the
  constant is within tolerance of every target of the solved nodes.
\<close>

lemma init_const_angle:
  assumes p: "pot c = Some p" and lm: "\<not> setup_interp c" "length (Es c) = length (Ls c)" "Es c \<noteq> []"
    and ok: "\<not> list_ex (\<lambda>m. ampb_negative ((m_L m)\<^sup>2) (m_Omegar m) (m_Omegaz m))
              (match_nodes K p c (Es c) (Ls c))"
    and pt: "pointtransform K p c (match_nodes K p c (Es c) (Ls c)) = Inr prs"
            "length prs = length (Es c)"
    and n: "nta c \<noteq> 0" "reflect_fits (nta c)"
    and loop: "\<not> bisect c" "1 \<le> maxiter c"
    and ang: "iso_angler K = (\<lambda>_ _ _ _ _ _. a)"
    and conv: "\<forall>k<nta c. 0 < k \<longrightarrow> k < nta c div 2 \<longrightarrow>
       \<bar>wrap_angle (a - linspace 0 (2 * pi * (1 - 1 / real (nta c))) (nta c) ! k)\<bar> \<le> angle_tol c"
  shows "actionAngleSphericalInverse_init K c =
     Inr (store K p c (Ls c) (match_nodes K p c (Es c) (Ls c)) prs
            (linspace 0 (2 * pi * (1 - 1 / real (nta c))) (nta c))
            (map (\<lambda>T. reflect_row (nta c)
                    (guess_row K p (nta c) (linspace 0 (2 * pi * (1 - 1 / real (nta c))) (nta c)) T))
               (map2 torus_of (match_nodes K p c (Es c) (Ls c)) prs)),
          [])"
  by (rule init_quiet[OF p lm ok pt n loop]) (use conv in \<open>simp add: anglera_const[OF ang]\<close>)

lemma guess_row_const_angle:
  assumes ang: "iso_angler K = (\<lambda>_ _ _ _ _ _. a)" and k: "k < length thetaa" "k \<noteq> 0" "k \<noteq> n div 2"
    and n: "0 < n"
  shows "guess_row K p n thetaa T ! k = t_rperi T + 1 / 10 ^ 8"
proof -
  have "list_all (\<lambda>x. x = \<bar>wrap_angle (a - thetaa ! k)\<bar>)
          (map (\<lambda>t. \<bar>wrap_angle (t - thetaa ! k)\<bar>) (rta_row K p n T))"
    by (simp add: rta_row_def anglera_const[OF ang] list_all_iff)
  then have z: "nanargmin (map (\<lambda>t. \<bar>wrap_angle (t - thetaa ! k)\<bar>) (rta_row K p n T)) = 0"
    by (rule nanargmin_const)
  have l0: "linspace 0 1 (2 * n) ! 0 = 0" using n by (simp add: nth_linspace)
  show ?thesis using k by (simp add: guess_row_def z l0)
qed

section \<open>What every constructed instance stores\<close>

lemma map_m_E_match_nodes: "map m_E (match_nodes K p c iEs iLs) = iEs"
  by (rule nth_equalityI) (simp_all add: match_nodes_def del: upt_Suc)

lemma length_concat_const:
  "(\<And>x. x \<in> set xs \<Longrightarrow> length (f x) = n) \<Longrightarrow> length (concat (map f xs)) = length xs * n"
  by (induction xs) auto

lemma internal_EL_lengths:
  assumes "internal_EL K p c = Inr (Lsg, iEs, iLs)"
  shows "length iLs = length iEs"
proof (cases "setup_interp c")
  case False
  then show ?thesis using assms by (auto simp: internal_EL_def split: if_splits)
next
  case True
  let ?L = "linspace (1 / 100) (Rmax c * vcirc K p (Rmax c)) (nL c)"
  let ?ERRL = "map2 (\<lambda>r l. evaluatePotentials K p r + l\<^sup>2 / 2 / r\<^sup>2) (map (rl K p) ?L) ?L"
  let ?ERRa = "map (\<lambda>l. evaluatePotentials K p (Rinf c) + l\<^sup>2 / 2 / (Rinf c)\<^sup>2) ?L"
  let ?f = "\<lambda>(a, r). map (\<lambda>x. x * (a - r) + r) (linspace 0 1 (nE c))"
  from assms True have E: "iEs = concat (map ?f (zip ?ERRa ?ERRL))"
    and L: "iLs = concat (map (replicate (nE c)) ?L)"
    by (auto simp: internal_EL_def Let_def split: if_splits)
  have "length iEs = length (zip ?ERRa ?ERRL) * nE c"
    unfolding E by (rule length_concat_const) auto
  moreover have "length iLs = length ?L * nE c"
    unfolding L by (rule length_concat_const) auto
  ultimately show ?thesis by simp
qed

lemma map_m_L_match_nodes: "length iLs = length iEs \<Longrightarrow> map m_L (match_nodes K p c iEs iLs) = iLs"
  by (rule nth_equalityI) (simp_all add: match_nodes_def del: upt_Suc)

lemma init_arrays:
  assumes init: "actionAngleSphericalInverse_init K c = Inr (e, ws)"
    and p: "pot c = Some p" and el: "internal_EL K p c = Inr (Lsg, iEs, iLs)"
  shows "self_internal_Es e = iEs" and "self_internal_Ls e = iLs" and "self_Ls e = Lsg"
    and "length (self_jr e) = length iEs" and "length (self_rgrid e) = length iEs"
    and "length (self_pt_coeffs e) = length iEs" and "iEs \<noteq> []"
    and "self_jr_orig e = map m_jr (match_nodes K p c iEs iLs)"
    and "self_Omegar_orig e = map m_Omegar (match_nodes K p c iEs iLs)"
    and "self_Omegaz_orig e = map m_Omegaz (match_nodes K p c iEs iLs)"
    and "self_rperi e = map m_rperi (match_nodes K p c iEs iLs)"
    and "self_rap e = map m_rap (match_nodes K p c iEs iLs)"
proof -
  let ?th = "linspace 0 (2 * pi * (1 - 1 / real (nta c))) (nta c)"
  from init obtain q Lsg' iEs' iLs' prs rgrid where f:
    "pot c = Some q" "internal_EL K q c = Inr (Lsg', iEs', iLs')"
    "length prs = length iEs'" "length rgrid = length iEs'" "iEs' \<noteq> []"
    "length (match_nodes K q c iEs' iLs') = length iEs'"
    "\<forall>i<length iEs'. length (rgrid ! i) = nta c" "0 < nta c"
    "e = store K q c Lsg' (match_nodes K q c iEs' iLs') prs ?th rgrid"
    by (rule init_store)
  have q: "q = p" "Lsg' = Lsg" "iEs' = iEs" "iLs' = iLs" using f(1,2) p el by simp_all
  have lp: "length prs = length (match_nodes K p c iEs iLs)"
    and lr: "length rgrid = length (match_nodes K p c iEs iLs)"
    using f(3,4,6) q by simp_all
  have ll: "length iLs = length iEs" using el by (rule internal_EL_lengths)
  show "self_internal_Es e = iEs" unfolding f(9) q by (simp add: store_sel map_m_E_match_nodes)
  show "self_internal_Ls e = iLs" unfolding f(9) q by (simp add: store_sel map_m_L_match_nodes[OF ll])
  show "self_Ls e = Lsg" unfolding f(9) q by (simp add: store_sel)
  have i0: "0 < length (match_nodes K p c iEs iLs)" using f(5,6) q by simp
  show "length (self_jr e) = length iEs"
    unfolding f(9) q using store_rows(7)[OF lp lr i0, of K p c Lsg ?th] f(6) q by simp
  show "length (self_rgrid e) = length iEs" unfolding f(9) using f(4) q by (simp add: store_sel)
  show "length (self_pt_coeffs e) = length iEs" unfolding f(9) using f(3) q by (simp add: store_sel)
  show "iEs \<noteq> []" using f(5) q by simp
  show "self_jr_orig e = map m_jr (match_nodes K p c iEs iLs)"
    "self_Omegar_orig e = map m_Omegar (match_nodes K p c iEs iLs)"
    "self_Omegaz_orig e = map m_Omegaz (match_nodes K p c iEs iLs)"
    "self_rperi e = map m_rperi (match_nodes K p c iEs iLs)"
    "self_rap e = map m_rap (match_nodes K p c iEs iLs)"
    unfolding f(9) q by (simp_all add: store_sel)
qed

lemma const_jr:
  assumes init: "actionAngleSphericalInverse_init K c = Inr (e, ws)"
    and jr: "iso_Jr K = (\<lambda>_ _ _ _. v)" and i: "i < length (self_jr e)"
  shows "self_jr e ! i = v"
proof -
  let ?th = "linspace 0 (2 * pi * (1 - 1 / real (nta c))) (nta c)"
  from init obtain q Lsg iEs iLs prs rgrid where f:
    "pot c = Some q" "internal_EL K q c = Inr (Lsg, iEs, iLs)"
    "length prs = length iEs" "length rgrid = length iEs" "iEs \<noteq> []"
    "length (match_nodes K q c iEs iLs) = length iEs"
    "\<forall>i<length iEs. length (rgrid ! i) = nta c" "0 < nta c"
    "e = store K q c Lsg (match_nodes K q c iEs iLs) prs ?th rgrid"
    by (rule init_store)
  let ?ms = "match_nodes K q c iEs iLs"
  have lp: "length prs = length ?ms" and lr: "length rgrid = length ?ms"
    using f(3,4,6) by simp_all
  have i0: "0 < length ?ms" using f(5,6) by simp
  have i': "i < length ?ms"
    using i store_rows(7)[OF lp lr i0, of K q c Lsg ?th] f(9) by simp
  note R = store_rows[OF lp lr i', of K q c Lsg ?th]
  have ne: "rgrid ! i \<noteq> []" using f(7,8) i' f(6) by auto
  have "self_jr e ! i = mean (self_jra e ! i)" unfolding f(9) by (rule R(13))
  also have "self_jra e ! i = map (\<lambda>_. v) (rgrid ! i)"
    unfolding f(9) R(1) by (simp add: jra_const[OF jr])
  also have "mean (map (\<lambda>_. v) (rgrid ! i)) = v" using ne by (rule mean_const)
  finally show ?thesis .
qed

section \<open>The examples\<close>

lemma K_ex_sel:
  "actionsFreqs K_ex p x y z = (1, 1, 3 / 4)" "EccZmaxRperiRap K_ex p x y z = (1, 2)"
  "iso_angler K_ex = (\<lambda>_ _ _ _ _ _. pi / 2)" "iso_Jr K_ex = (\<lambda>_ _ _ _. 1 / 2)"
  "iso_rperirap K_ex a b E L2 = (1, 3)"
  by (simp_all add: K_ex_def)

lemma c_ex_sel:
  "pot c_ex = Some ()" "Es c_ex = [1]" "Ls c_ex = [2]" "\<not> setup_interp c_ex" "nta c_ex = 4"
  "\<not> use_pointtransform c_ex" "pt_deg c_ex = 7" "maxiter c_ex = 100" "angle_tol c_ex = 1 / 10 ^ 12"
  "\<not> bisect c_ex" "pt_nra c_ex = 301"
  by (simp_all add: c_ex_def)

lemma theta4: "linspace 0 (2 * pi * (1 - 1 / real 4)) 4 ! 1 = pi / 2"
  by (simp add: nth_linspace)

lemma reflect_fits_4: "reflect_fits 4"
  by (simp add: reflect_fits_def)

lemma conv4:
  "\<forall>k<4. 0 < k \<longrightarrow> k < 4 div 2 \<longrightarrow>
       \<bar>wrap_angle (pi / 2 - linspace 0 (2 * pi * (1 - 1 / real 4)) 4 ! k)\<bar> \<le> 1 / 10 ^ 12"
proof (intro allI impI)
  fix k :: nat assume "k < 4" "0 < k" "k < 4 div 2"
  then have k: "k = 1" by simp
  have z: "wrap_angle (pi / 2 - linspace 0 (2 * pi * (1 - 1 / real 4)) 4 ! 1) = 0"
    by (simp only: theta4 diff_self wrap_angle_0)
  show "\<bar>wrap_angle (pi / 2 - linspace 0 (2 * pi * (1 - 1 / real 4)) 4 ! k)\<bar> \<le> 1 / 10 ^ 12"
    unfolding k z by simp
qed

lemma K_ex_ok:
  "\<not> list_ex (\<lambda>m. ampb_negative ((m_L m)\<^sup>2) (m_Omegar m) (m_Omegaz m)) (match_nodes K_ex p c iEs iLs)"
  by (rule no_reject[where Or = 1 and Oz = "3 / 4"]) (simp_all add: K_ex_sel)

text \<open>The default example: one torus, four nodes.\<close>

lemma ex_default:
  obtains e where "actionAngleSphericalInverse_init K_ex c_ex = Inr (e, [])"
    and "length (self_rgrid e) = 1" and "length (self_jr e) = 1" and "length (self_pt_coeffs e) = 1"
    and "self_rperi e = [1]" and "self_rap e = [2]"
    and "self_jr e = [1 / 2]" and "self_internal_Ls e = [2]" and "self_Ls e = [2]"
    and "\<not> self_interp e"
proof -
  let ?ms = "match_nodes K_ex () c_ex (Es c_ex) (Ls c_ex)"
  let ?th = "linspace 0 (2 * pi * (1 - 1 / real (nta c_ex))) (nta c_ex)"
  have pt: "pointtransform K_ex () c_ex ?ms = Inr (map weird_ptrow ?ms)"
    by (simp add: pointtransform_def c_ex_sel)
  have l: "length (Es c_ex) = length (Ls c_ex)" "Es c_ex \<noteq> []"
    "length (map weird_ptrow ?ms) = length (Es c_ex)" "nta c_ex \<noteq> 0" "1 \<le> maxiter c_ex"
    by (simp_all add: c_ex_sel match_nodes_def)
  have rf: "reflect_fits (nta c_ex)" unfolding c_ex_sel(5) by (rule reflect_fits_4)
  have cv: "\<forall>k<nta c_ex. 0 < k \<longrightarrow> k < nta c_ex div 2 \<longrightarrow>
       \<bar>wrap_angle (pi / 2 - ?th ! k)\<bar> \<le> angle_tol c_ex"
    unfolding c_ex_sel(5,9) by (rule conv4)
  have init: "actionAngleSphericalInverse_init K_ex c_ex =
     Inr (store K_ex () c_ex (Ls c_ex) ?ms (map weird_ptrow ?ms) ?th
            (map (\<lambda>T. reflect_row (nta c_ex) (guess_row K_ex () (nta c_ex) ?th T))
               (map2 torus_of ?ms (map weird_ptrow ?ms))),
          [])" (is "_ = Inr (?e, [])")
    by (rule init_const_angle[OF c_ex_sel(1) c_ex_sel(4) l(1,2) K_ex_ok pt l(3,4) rf c_ex_sel(10) l(5) K_ex_sel(3) cv])
  have el: "internal_EL K_ex () c_ex = Inr ([2], [1], [2])"
    by (simp add: internal_EL_def c_ex_sel)
  note A = init_arrays[OF init c_ex_sel(1) el]
  have jr: "self_jr ?e = [1 / 2]"
  proof (rule nth_equalityI)
    show "length (self_jr ?e) = length [1 / 2 :: real]" using A(4) by simp
    fix i assume i: "i < length (self_jr ?e)"
    then have "i = 0" using A(4) by simp
    then show "self_jr ?e ! i = [1 / 2] ! i"
      using const_jr[OF init K_ex_sel(4) i] by simp
  qed
  have rp: "self_rperi ?e = [1]" "self_rap ?e = [2]"
    unfolding A(11,12)
    by (simp_all add: match_nodes_def forward_node_def Let_def K_ex_sel)
  have ni: "\<not> self_interp ?e" using init_interp[OF init] c_ex_sel(4) by simp
  show ?thesis
    by (rule that[OF init _ _ _ rp jr _ _ ni]) (simp_all only: A list.size)
qed

lemma c_interp_sel:
  "pot c_interp = Some ()" "setup_interp c_interp" "nta c_interp = 4"
  "\<not> use_pointtransform c_interp" "nE c_interp = 2" "nL c_interp = 1"
  by (simp_all add: c_interp_def c_ex_def)

text \<open>The grid example: one angular momentum, two energies.\<close>

lemma ex_interp:
  obtains e ws where "actionAngleSphericalInverse_init K_ex c_interp = Inr (e, ws)"
proof -
  obtain Lsg iEs iLs where el: "internal_EL K_ex () c_interp = Inr (Lsg, iEs, iLs)" and ne: "iEs \<noteq> []"
    by (simp add: internal_EL_def Let_def linspace_def c_interp_def c_ex_def)
  let ?ms = "match_nodes K_ex () c_interp iEs iLs"
  have pt: "pointtransform K_ex () c_interp ?ms = Inr (map weird_ptrow ?ms)"
    by (simp add: pointtransform_def c_interp_sel)
  have rf: "reflect_fits (nta c_interp)" unfolding c_interp_sel(3) by (rule reflect_fits_4)
  have l: "\<not> (setup_interp c_interp \<and> nE c_interp = 0)" "nta c_interp \<noteq> 0"
    "length (map weird_ptrow ?ms) = length ?ms"
    by (simp_all add: c_interp_sel)
  show ?thesis
    by (rule that, rule init_succeeds[OF c_interp_sel(1) el l(1) K_ex_ok pt l(2,3) ne rf])
qed

text \<open>The example with forward frequencies \<open>Omegaz = Omegar / 4\<close>.\<close>

lemma K_low_sel:
  "actionsFreqs K_low p x y z = (1 / 10, 1, 1 / 4)" "EccZmaxRperiRap K_low p x y z = (1, 2)"
  "iso_angler K_low = (\<lambda>_ _ _ _ _ _. pi / 2)" "iso_Jr K_low = (\<lambda>_ _ _ _. 1 / 2)"
  by (simp_all add: K_low_def K_ex_def)

lemma K_low_ok:
  "\<not> list_ex (\<lambda>m. ampb_negative ((m_L m)\<^sup>2) (m_Omegar m) (m_Omegaz m)) (match_nodes K_low p c iEs iLs)"
  by (rule no_reject[where Or = 1 and Oz = "1 / 4"]) (simp_all add: K_low_sel)

lemma ex_low:
  obtains e where "actionAngleSphericalInverse_init K_low c_ex = Inr (e, [])"
    and "self_Omegar_orig e = [1]" and "self_Omegaz_orig e = [1 / 4]"
proof -
  let ?ms = "match_nodes K_low () c_ex (Es c_ex) (Ls c_ex)"
  let ?th = "linspace 0 (2 * pi * (1 - 1 / real (nta c_ex))) (nta c_ex)"
  have pt: "pointtransform K_low () c_ex ?ms = Inr (map weird_ptrow ?ms)"
    by (simp add: pointtransform_def c_ex_sel)
  have l: "length (Es c_ex) = length (Ls c_ex)" "Es c_ex \<noteq> []"
    "length (map weird_ptrow ?ms) = length (Es c_ex)" "nta c_ex \<noteq> 0" "1 \<le> maxiter c_ex"
    by (simp_all add: c_ex_sel match_nodes_def)
  have rf: "reflect_fits (nta c_ex)" unfolding c_ex_sel(5) by (rule reflect_fits_4)
  have cv: "\<forall>k<nta c_ex. 0 < k \<longrightarrow> k < nta c_ex div 2 \<longrightarrow>
       \<bar>wrap_angle (pi / 2 - ?th ! k)\<bar> \<le> angle_tol c_ex"
    unfolding c_ex_sel(5,9) by (rule conv4)
  have init: "actionAngleSphericalInverse_init K_low c_ex =
     Inr (store K_low () c_ex (Ls c_ex) ?ms (map weird_ptrow ?ms) ?th
            (map (\<lambda>T. reflect_row (nta c_ex) (guess_row K_low () (nta c_ex) ?th T))
               (map2 torus_of ?ms (map weird_ptrow ?ms))),
          [])" (is "_ = Inr (?e, [])")
    by (rule init_const_angle[OF c_ex_sel(1) c_ex_sel(4) l(1,2) K_low_ok pt l(3,4) rf c_ex_sel(10) l(5) K_low_sel(3) cv])
  have el: "internal_EL K_low () c_ex = Inr ([2], [1], [2])"
    by (simp add: internal_EL_def c_ex_sel)
  note A = init_arrays[OF init c_ex_sel(1) el]
  have om: "self_Omegar_orig ?e = [1]" "self_Omegaz_orig ?e = [1 / 4]"
    unfolding A(9,10)
    by (simp_all add: match_nodes_def forward_node_def Let_def K_low_sel)
  show ?thesis by (rule that[OF init om])
qed

lemma default_query:
  assumes "self_jr e = [1 / 2]" "self_internal_Ls e = [2]"
  shows "find_torus (self_jr e) (self_internal_Ls e) (1 / 2) 2 0 = Inr 0"
  unfolding assms by (simp add: find_torus_def Let_def)

lemma list1: "length xs = 1 \<Longrightarrow> xs = [xs ! 0]"
  by (cases xs) auto



lemma const_jr_all:
  assumes init: "actionAngleSphericalInverse_init K c = Inr (e, ws)"
    and jr: "iso_Jr K = (\<lambda>_ _ _ _. v)"
  shows "self_jr e = replicate (length (self_jr e)) v"
  by (rule nth_equalityI) (simp_all add: const_jr[OF init jr])

text \<open>The example with a fitted point transformation.\<close>

lemma c_pt_sel:
  "pot c_pt = Some ()" "Es c_pt = [1]" "Ls c_pt = [2]" "\<not> setup_interp c_pt" "nta c_pt = 4"
  "use_pointtransform c_pt" "pt_deg c_pt = 7" "maxiter c_pt = 100" "angle_tol c_pt = 1 / 10 ^ 12"
  "\<not> bisect c_pt" "pt_nra c_pt = 301"
  by (simp_all add: c_pt_def c_ex_def)

lemma K_fit_sel:
  "actionsFreqs (K_fit g) p x y z = (1, 1, 3 / 4)" "EccZmaxRperiRap (K_fit g) p x y z = (1, 2)"
  "iso_angler (K_fit g) = (\<lambda>_ _ _ _ _ _. pi / 2)" "iso_Jr (K_fit g) = (\<lambda>_ _ _ _. 1 / 2)"
  "iso_rperirap (K_fit g) a b E L2 = (1, 3)"
  "leastsq (K_fit g) f s = (case f s of Inl e \<Rightarrow> Inl e | Inr _ \<Rightarrow> Inr (g s))"
  by (simp_all add: K_fit_def K_ex_def)

lemma K_fit_id: "K_fit (\<lambda>s. s) = K_ex"
  by (simp add: K_fit_def K_ex_def)

lemma K_fit_update: "K_ex\<lparr>leastsq := leastsq (K_fit g)\<rparr> = K_fit g"
  by (simp add: K_fit_def)

lemma K_fit_ok:
  "\<not> list_ex (\<lambda>m. ampb_negative ((m_L m)\<^sup>2) (m_Omegar m) (m_Omegaz m)) (match_nodes (K_fit g) p c iEs iLs)"
  by (rule no_reject[where Or = 1 and Oz = "3 / 4"]) (simp_all add: K_fit_sel)

lemma ex_pt_rows:
  "\<exists>row. pointtransform (K_fit g) () c_pt (match_nodes (K_fit g) () c_pt (Es c_pt) (Ls c_pt)) = Inr [row]
      \<and> pr_rperi row = 1 \<and> pr_rap row = 3"
proof -
  have ms: "match_nodes (K_fit g) () c_pt (Es c_pt) (Ls c_pt) = [match_node (K_fit g) () c_pt 0 1 2]"
    by (simp add: match_nodes_def c_pt_sel)
  have jr: "forward_node (K_fit g) () c_pt 0 1 2 = (1, 1, 3 / 4, 1, 2)"
    by (simp add: forward_node_def Let_def K_fit_sel)
  have cc: "\<exists>v. constrained_coeffs 7 (0 # replicate 3 0) = Inr v"
    by (simp add: constrained_coeffs_def Let_def)
  then obtain v where v: "constrained_coeffs 7 (0 # replicate 3 0) = Inr v" ..
  have lsq: "\<And>E L2 rp ra prp pra amp b Ea.
      leastsq (K_fit g) (opt_func (K_fit g) () 7 301 E L2 rp ra prp pra amp b Ea) (0 # replicate 3 0)
        = Inr (g (0 # replicate 3 0))"
    by (simp add: K_fit_sel opt_func_def v)
  show ?thesis
    unfolding ms by (simp add: pointtransform_def c_pt_sel jr Let_def lsq K_fit_sel(5))
qed

lemma ex_fit_any:
  obtains e where "actionAngleSphericalInverse_init (K_fit g) c_pt = Inr (e, [])"
    and "length (self_rgrid e) = 1" and "length (self_pt_coeffs e) = 1"
    and "self_rap e = [2]" and "self_pt_rap e = [3]"
proof -
  let ?ms = "match_nodes (K_fit g) () c_pt (Es c_pt) (Ls c_pt)"
  let ?th = "linspace 0 (2 * pi * (1 - 1 / real (nta c_pt))) (nta c_pt)"
  from ex_pt_rows obtain row where pt: "pointtransform (K_fit g) () c_pt ?ms = Inr [row]"
    and row: "pr_rperi row = 1" "pr_rap row = 3" by blast
  have l: "length (Es c_pt) = length (Ls c_pt)" "Es c_pt \<noteq> []"
    "length [row] = length (Es c_pt)" "nta c_pt \<noteq> 0" "1 \<le> maxiter c_pt"
    by (simp_all add: c_pt_sel)
  have rf: "reflect_fits (nta c_pt)" unfolding c_pt_sel(5) by (rule reflect_fits_4)
  have cv: "\<forall>k<nta c_pt. 0 < k \<longrightarrow> k < nta c_pt div 2 \<longrightarrow>
       \<bar>wrap_angle (pi / 2 - ?th ! k)\<bar> \<le> angle_tol c_pt"
    unfolding c_pt_sel(5,9) by (rule conv4)
  have init: "actionAngleSphericalInverse_init (K_fit g) c_pt =
     Inr (store (K_fit g) () c_pt (Ls c_pt) ?ms [row] ?th
            (map (\<lambda>T. reflect_row (nta c_pt) (guess_row (K_fit g) () (nta c_pt) ?th T))
               (map2 torus_of ?ms [row])),
          [])" (is "_ = Inr (?e, [])")
    by (rule init_const_angle[OF c_pt_sel(1) c_pt_sel(4) l(1,2) K_fit_ok pt l(3,4) rf c_pt_sel(10) l(5) K_fit_sel(3) cv])
  have el: "internal_EL (K_fit g) () c_pt = Inr ([2], [1], [2])"
    by (simp add: internal_EL_def c_pt_sel)
  note A = init_arrays[OF init c_pt_sel(1) el]
  have rap: "self_rap ?e = [2]"
    unfolding A(12) by (simp add: match_nodes_def forward_node_def Let_def K_fit_sel)
  have prap: "self_pt_rap ?e = [3]" by (simp add: store_sel row)
  show ?thesis
    by (rule that[OF init _ _ rap prap]) (simp_all only: A list.size)
qed

lemma ex_fit:
  obtains e where "actionAngleSphericalInverse_init K_ex c_pt = Inr (e, [])"
    and "length (self_rgrid e) = 1" and "length (self_pt_coeffs e) = 1"
    and "self_rap e = [2]" and "self_pt_rap e = [3]"
  using ex_fit_any[of "\<lambda>s. s"] unfolding K_fit_id by blast

text \<open>The example with five nodes.\<close>

lemma K_odd_sel:
  "actionsFreqs K_odd p x y z = (1, 1, 3 / 4)" "EccZmaxRperiRap K_odd p x y z = (1, 2)"
  "iso_angler K_odd = (\<lambda>_ _ _ _ _ _. 2 * pi / 5)" "iso_Jr K_odd = (\<lambda>_ _ _ _. 1 / 2)"
  by (simp_all add: K_odd_def K_ex_def)

lemma c_odd_sel:
  "pot c_odd = Some ()" "Es c_odd = [1]" "Ls c_odd = [2]" "\<not> setup_interp c_odd" "nta c_odd = 5"
  "\<not> use_pointtransform c_odd" "pt_deg c_odd = 7" "maxiter c_odd = 100" "angle_tol c_odd = 1 / 10 ^ 12"
  "\<not> bisect c_odd"
  by (simp_all add: c_odd_def c_ex_def)

lemma K_odd_ok:
  "\<not> list_ex (\<lambda>m. ampb_negative ((m_L m)\<^sup>2) (m_Omegar m) (m_Omegaz m)) (match_nodes K_odd p c iEs iLs)"
  by (rule no_reject[where Or = 1 and Oz = "3 / 4"]) (simp_all add: K_odd_sel)

lemma theta5: "linspace 0 (2 * pi * (1 - 1 / real 5)) 5 ! 1 = 2 * pi / 5"
  by (simp add: nth_linspace)

lemma conv5:
  "\<forall>k<5. 0 < k \<longrightarrow> k < 5 div 2 \<longrightarrow>
       \<bar>wrap_angle (2 * pi / 5 - linspace 0 (2 * pi * (1 - 1 / real 5)) 5 ! k)\<bar> \<le> 1 / 10 ^ 12"
proof (intro allI impI)
  fix k :: nat assume "k < 5" "0 < k" "k < 5 div 2"
  then have k: "k = 1" by simp
  have z: "wrap_angle (2 * pi / 5 - linspace 0 (2 * pi * (1 - 1 / real 5)) 5 ! 1) = 0"
    by (simp only: theta5 diff_self wrap_angle_0)
  show "\<bar>wrap_angle (2 * pi / 5 - linspace 0 (2 * pi * (1 - 1 / real 5)) 5 ! k)\<bar> \<le> 1 / 10 ^ 12"
    unfolding k z by simp
qed

lemma reflect_row_5_list:
  "reflect_row 5 [a, b, c, d, f] = [a, b, c, b, b]"
proof -
  have h: "(5::nat) div 2 = 2" "(5::nat) - (2 + 1) = 2" "(2::nat) - 1 = 1" by simp_all
  have r: "replicate 2 b = [b, b]" by (simp add: numeral_2_eq_2)
  show ?thesis
    unfolding reflect_row_def Let_def h by (simp add: r)
qed

lemma reflect_row_5:
  assumes "length row = 5"
  shows "reflect_row 5 row ! 3 = row ! 1" and "reflect_row 5 row ! 4 = row ! 1"
proof -
  from assms obtain a b c d f where r: "row = [a, b, c, d, f]"
    by (auto simp: length_Suc_conv eval_nat_numeral)
  show "reflect_row 5 row ! 3 = row ! 1" "reflect_row 5 row ! 4 = row ! 1"
    unfolding r reflect_row_5_list by simp_all
qed

lemma ex_odd:
  obtains e where "actionAngleSphericalInverse_init K_odd c_odd = Inr (e, [])"
    and "length (self_rgrid e) = 1"
    and "self_rgrid e ! 0 ! 2 = 2" and "self_rgrid e ! 0 ! 3 = 1 + 1 / 10 ^ 8"
proof -
  let ?ms = "match_nodes K_odd () c_odd (Es c_odd) (Ls c_odd)"
  let ?th = "linspace 0 (2 * pi * (1 - 1 / real (nta c_odd))) (nta c_odd)"
  have pt: "pointtransform K_odd () c_odd ?ms = Inr (map weird_ptrow ?ms)"
    by (simp add: pointtransform_def c_odd_sel)
  have l: "length (Es c_odd) = length (Ls c_odd)" "Es c_odd \<noteq> []"
    "length (map weird_ptrow ?ms) = length (Es c_odd)" "nta c_odd \<noteq> 0" "1 \<le> maxiter c_odd"
    by (simp_all add: c_odd_sel match_nodes_def)
  have rf: "reflect_fits (nta c_odd)" unfolding c_odd_sel(5) by (simp add: reflect_fits_def)
  have cv: "\<forall>k<nta c_odd. 0 < k \<longrightarrow> k < nta c_odd div 2 \<longrightarrow>
       \<bar>wrap_angle (2 * pi / 5 - ?th ! k)\<bar> \<le> angle_tol c_odd"
    unfolding c_odd_sel(5,9) by (rule conv5)
  have init: "actionAngleSphericalInverse_init K_odd c_odd =
     Inr (store K_odd () c_odd (Ls c_odd) ?ms (map weird_ptrow ?ms) ?th
            (map (\<lambda>T. reflect_row (nta c_odd) (guess_row K_odd () (nta c_odd) ?th T))
               (map2 torus_of ?ms (map weird_ptrow ?ms))),
          [])" (is "_ = Inr (?e, [])")
    by (rule init_const_angle[OF c_odd_sel(1) c_odd_sel(4) l(1,2) K_odd_ok pt l(3,4) rf c_odd_sel(10) l(5) K_odd_sel(3) cv])
  have el: "internal_EL K_odd () c_odd = Inr ([2], [1], [2])"
    by (simp add: internal_EL_def c_odd_sel)
  note A = init_arrays[OF init c_odd_sel(1) el]
  have i: "0 < length (self_rgrid ?e)" using A(5) by simp
  note T = table_facts[OF init i]
  have rap: "self_rap ?e = [2]"
    unfolding A(12) by (simp add: match_nodes_def forward_node_def Let_def K_odd_sel)
  have d: "\<not> (use_pointtransform c_odd \<and> 1 < pt_deg c_odd)" by (simp add: c_odd_sel)
  have two: "self_rgrid ?e ! 0 ! 2 = 2"
    using T(7) T(8)[OF d] rap by (simp add: c_odd_sel)
  have ms: "?ms = [match_node K_odd () c_odd 0 1 2]"
    by (simp add: match_nodes_def c_odd_sel)
  let ?T = "torus_of (match_node K_odd () c_odd 0 1 2) (weird_ptrow (match_node K_odd () c_odd 0 1 2))"
  have row: "self_rgrid ?e ! 0 = reflect_row 5 (guess_row K_odd () 5 (linspace 0 (2 * pi * (1 - 1 / real 5)) 5) ?T)"
    unfolding store_sel ms c_odd_sel(5) by simp
  have lg: "length (guess_row K_odd () 5 (linspace 0 (2 * pi * (1 - 1 / real 5)) 5) ?T) = 5"
    by (simp add: length_guess_row)
  have g1: "guess_row K_odd () 5 (linspace 0 (2 * pi * (1 - 1 / real 5)) 5) ?T ! 1 = t_rperi ?T + 1 / 10 ^ 8"
    by (rule guess_row_const_angle[OF K_odd_sel(3)]) simp_all
  have rp: "t_rperi ?T = 1"
    by (simp add: forward_node_def Let_def K_odd_sel)
  have three: "self_rgrid ?e ! 0 ! 3 = 1 + 1 / 10 ^ 8"
    unfolding row reflect_row_5(1)[OF lg] g1 rp by simp
  show ?thesis
    by (rule that[OF init _ two three]) (simp only: A list.size)
qed

text \<open>The example with two tori of one radial action.\<close>

lemma c_two_sel:
  "pot c_two = Some ()" "Es c_two = [1, 2]" "Ls c_two = [1, 6 / 5]" "\<not> setup_interp c_two" "nta c_two = 4"
  "\<not> use_pointtransform c_two" "pt_deg c_two = 7" "maxiter c_two = 100" "angle_tol c_two = 1 / 10 ^ 12"
  "\<not> bisect c_two"
  by (simp_all add: c_two_def c_ex_def)

lemma ex_two:
  obtains e where "actionAngleSphericalInverse_init K_ex c_two = Inr (e, [])"
    and "self_jr e = [1 / 2, 1 / 2]" and "self_internal_Ls e = [1, 6 / 5]" and "self_Ls e = [1, 6 / 5]"
    and "\<not> self_interp e"
proof -
  let ?ms = "match_nodes K_ex () c_two (Es c_two) (Ls c_two)"
  let ?th = "linspace 0 (2 * pi * (1 - 1 / real (nta c_two))) (nta c_two)"
  have pt: "pointtransform K_ex () c_two ?ms = Inr (map weird_ptrow ?ms)"
    by (simp add: pointtransform_def c_two_sel)
  have l: "length (Es c_two) = length (Ls c_two)" "Es c_two \<noteq> []"
    "length (map weird_ptrow ?ms) = length (Es c_two)" "nta c_two \<noteq> 0" "1 \<le> maxiter c_two"
    by (simp_all add: c_two_sel match_nodes_def)
  have rf: "reflect_fits (nta c_two)" unfolding c_two_sel(5) by (rule reflect_fits_4)
  have cv: "\<forall>k<nta c_two. 0 < k \<longrightarrow> k < nta c_two div 2 \<longrightarrow>
       \<bar>wrap_angle (pi / 2 - ?th ! k)\<bar> \<le> angle_tol c_two"
    unfolding c_two_sel(5,9) by (rule conv4)
  have init: "actionAngleSphericalInverse_init K_ex c_two =
     Inr (store K_ex () c_two (Ls c_two) ?ms (map weird_ptrow ?ms) ?th
            (map (\<lambda>T. reflect_row (nta c_two) (guess_row K_ex () (nta c_two) ?th T))
               (map2 torus_of ?ms (map weird_ptrow ?ms))),
          [])" (is "_ = Inr (?e, [])")
    by (rule init_const_angle[OF c_two_sel(1) c_two_sel(4) l(1,2) K_ex_ok pt l(3,4) rf c_two_sel(10) l(5) K_ex_sel(3) cv])
  have el: "internal_EL K_ex () c_two = Inr ([1, 6 / 5], [1, 2], [1, 6 / 5])"
    by (simp add: internal_EL_def c_two_sel)
  note A = init_arrays[OF init c_two_sel(1) el]
  have jr: "self_jr ?e = [1 / 2, 1 / 2]"
    using const_jr_all[OF init K_ex_sel(4)] A(4) by (simp add: eval_nat_numeral)
  have ni: "\<not> self_interp ?e" using init_interp[OF init] c_two_sel(4) by simp
  show ?thesis
    by (rule that[OF init jr A(2,3) ni])
qed






section \<open>Further facts about every constructed instance\<close>


lemma reflect_fits_cases: "reflect_fits n \<Longrightarrow> even n \<or> n = 1 \<or> n = 5"
  unfolding reflect_fits_def by presburger

lemma init_nta:
  assumes "actionAngleSphericalInverse_init K c = Inr (e, ws)"
  shows "even (nta c) \<or> nta c = 1 \<or> nta c = 5"
proof -
  from assms obtain p ms prs where "reflect_fits (nta c)" by (rule init_table)
  then show ?thesis by (rule reflect_fits_cases)
qed

lemma internal_EL_leastsq [simp]: "internal_EL (K\<lparr>leastsq := lsq\<rparr>) p c = internal_EL K p c"
  by (simp add: internal_EL_def Let_def)

lemma pt_coeffs_length:
  assumes init: "actionAngleSphericalInverse_init K c = Inr (e, ws)"
    and p: "pot c = Some p" and el: "internal_EL K p c = Inr (Lsg, iEs, iLs)"
  shows "length (self_pt_coeffs e) = length iEs"
  by (rule init_arrays(6)[OF init p el])

lemma pt_coeffs_any_leastsq:
  assumes init: "actionAngleSphericalInverse_init K c = Inr (e, ws)"
    and init': "actionAngleSphericalInverse_init (K\<lparr>leastsq := lsq\<rparr>) c = Inr (e', ws')"
  shows "self_pt_coeffs e' = self_pt_coeffs e"
proof -
  from init obtain p Lsg iEs iLs prs rgrid where f:
    "pot c = Some p" "internal_EL K p c = Inr (Lsg, iEs, iLs)"
    "length prs = length iEs" "length rgrid = length iEs" "iEs \<noteq> []"
    "length (match_nodes K p c iEs iLs) = length iEs"
    "\<forall>i<length iEs. length (rgrid ! i) = nta c" "0 < nta c"
    "e = store K p c Lsg (match_nodes K p c iEs iLs) prs
           (linspace 0 (2 * pi * (1 - 1 / real (nta c))) (nta c)) rgrid"
    by (rule init_store)
  have el': "internal_EL (K\<lparr>leastsq := lsq\<rparr>) p c = Inr (Lsg, iEs, iLs)" using f(2) by simp
  have l: "length (self_pt_coeffs e) = length iEs" by (rule pt_coeffs_length[OF init f(1,2)])
  have l': "length (self_pt_coeffs e') = length iEs" by (rule pt_coeffs_length[OF init' f(1) el'])
  show ?thesis
  proof (rule nth_equalityI)
    show "length (self_pt_coeffs e') = length (self_pt_coeffs e)" using l l' by simp
    fix i assume i': "i < length (self_pt_coeffs e')"
    then have i: "i < length (self_pt_coeffs e)" using l l' by simp
    show "self_pt_coeffs e' ! i = self_pt_coeffs e ! i"
    proof (cases "use_pointtransform c \<and> 1 < pt_deg c")
      case True
      show ?thesis
        unfolding stored_coeffs(1)[OF init i True] stored_coeffs(1)[OF init' i' True] ..
    next
      case False
      show ?thesis
        unfolding stored_coeffs(2)[OF init i False] stored_coeffs(2)[OF init' i' False] ..
    qed
  qed
qed

lemma two_torus_query:
  assumes "self_jr e = [1 / 2, 1 / 2]" "Lsv = [1, 6 / 5]"
  shows "find_torus (self_jr e) Lsv (1 / 2) (6 / 5) 0 = Inl ValueError_not_found"
  unfolding assms by (simp add: find_torus_def Let_def)

text \<open>The rows of \<open>_jra\<close> and \<open>_djradjr\<close> are the kernels at the radii of the stored table.\<close>

lemma torus_at_store:
  assumes "length prs = length ms" "i < length ms"
  shows "torus_at (store K p c Lsg ms prs thetaa rgrid) i = torus_of (ms ! i) (prs ! i)"
  using assms by (simp add: torus_at_def torus_of_def store_sel)

lemma kernel_rows:
  assumes init: "actionAngleSphericalInverse_init K c = Inr (e, ws)"
    and p: "pot c = Some p" and i: "i < length (self_jr e)"
  shows "self_jra e ! i = map (\<lambda>ra. fst (jraora K p (torus_at e i) ra)) (self_rgrid e ! i)"
    and "self_djradjr e ! i = map (\<lambda>ra. fst (djradjrLish K p (torus_at e i) ra)) (self_rgrid e ! i)"
    and "i < length (self_rgrid e)" and "length (self_rgrid e ! i) = nta c"
proof -
  let ?th = "linspace 0 (2 * pi * (1 - 1 / real (nta c))) (nta c)"
  from init obtain q Lsg iEs iLs prs rgrid where f:
    "pot c = Some q" "internal_EL K q c = Inr (Lsg, iEs, iLs)"
    "length prs = length iEs" "length rgrid = length iEs" "iEs \<noteq> []"
    "length (match_nodes K q c iEs iLs) = length iEs"
    "\<forall>i<length iEs. length (rgrid ! i) = nta c" "0 < nta c"
    "e = store K q c Lsg (match_nodes K q c iEs iLs) prs ?th rgrid"
    by (rule init_store)
  have q: "q = p" using f(1) p by simp
  let ?ms = "match_nodes K p c iEs iLs"
  have lp: "length prs = length ?ms" and lr: "length rgrid = length ?ms"
    using f(3,4,6) q by simp_all
  have e: "e = store K p c Lsg ?ms prs ?th rgrid" using f(9) q by simp
  have i0: "0 < length ?ms" using f(5,6) q by simp
  have i': "i < length ?ms"
    using i store_rows(7)[OF lp lr i0, of K p c Lsg ?th] e by simp
  have T: "torus_at e i = torus_of (?ms ! i) (prs ! i)"
    unfolding e by (rule torus_at_store[OF lp i'])
  have g: "self_rgrid e = rgrid" unfolding e by (simp add: store_sel)
  show "self_jra e ! i = map (\<lambda>ra. fst (jraora K p (torus_at e i) ra)) (self_rgrid e ! i)"
    unfolding T g unfolding e by (rule store_rows(1)[OF lp lr i'])
  show "self_djradjr e ! i = map (\<lambda>ra. fst (djradjrLish K p (torus_at e i) ra)) (self_rgrid e ! i)"
    unfolding T g unfolding e by (rule store_rows(2)[OF lp lr i'])
  show "i < length (self_rgrid e)" using g lr i' by simp
  show "length (self_rgrid e ! i) = nta c" using g f(7) f(6) i' q by simp
qed

text \<open>With an even number of nodes the stored table is its own mirror image.\<close>

lemma even_table_is_symmetric:
  assumes "actionAngleSphericalInverse_init K c = Inr (e, ws)"
    and "i < length (self_rgrid e)" and "even (nta c)" and "0 < k" and "k < nta c"
  shows "self_rgrid e ! i ! k = self_rgrid e ! i ! (nta c - k)"
  by (rule table_facts(10)[OF assms])

lemma default_table_is_symmetric:
  "\<exists>e ws. actionAngleSphericalInverse_init K_ex c_ex = Inr (e, ws)
     \<and> 0 < length (self_rgrid e) \<and> even (nta c_ex) \<and> nta c_ex - 1 = 3
     \<and> self_rgrid e ! 0 ! 1 = self_rgrid e ! 0 ! 3"
proof (rule ex_default)
  fix e assume e: "actionAngleSphericalInverse_init K_ex c_ex = Inr (e, [])"
    and l: "length (self_rgrid e) = 1"
  have i: "0 < length (self_rgrid e)" using l by simp
  have n: "even (nta c_ex)" "nta c_ex - 1 = 3" "0 < (1::nat)" "1 < nta c_ex"
    by (simp_all add: c_ex_sel)
  have "self_rgrid e ! 0 ! 1 = self_rgrid e ! 0 ! (nta c_ex - 1)"
    by (rule even_table_is_symmetric[OF e i n(1,3,4)])
  with e i n show ?thesis by auto
qed

section \<open>The claims\<close>

text \<open>
  C1. The constructor's check on the isochrone parameters rejects a torus exactly when
  \<open>L\<^sup>2 Omegaz (Omegar - Omegaz) < 0\<close>: among orbits with positive frequencies that is
  \<open>Omegaz > Omegar\<close> only. A forward solution with \<open>Omegar = 1\<close> and
  \<open>Omegaz = 1/4 < Omegar / 2\<close> passes the check: the grid constructor returns an
  instance that stores these frequencies, and the single-torus constructor raises
  neither this error nor any other before it sets up its isochrone.
\<close>

theorem low_frequency_ratio_is_accepted:
  "(\<forall>L2 Omegar Omegaz. ampb_negative L2 Omegar Omegaz = (L2 * Omegaz * (Omegar - Omegaz) < 0))
   \<and> (\<exists>e ws. actionAngleSphericalInverse_init K_low c_ex = Inr (e, ws)
         \<and> self_Omegar_orig e = [1] \<and> self_Omegaz_orig e = [1 / 4])
   \<and> (\<forall>pyfloats. single_isochrone pyfloats 2 (1 / 10) 1 (1 / 4) \<noteq> Inl NotImplementedError
          \<and> single_isochrone pyfloats 2 (1 / 10) 1 (1 / 4) \<noteq> Inl ZeroDivisionError)"
proof (intro conjI allI)
  fix L2 Omegar Omegaz :: real
  show "ampb_negative L2 Omegar Omegaz = (L2 * Omegaz * (Omegar - Omegaz) < 0)"
    by (rule ampb_negative_iff)
next
  show "\<exists>e ws. actionAngleSphericalInverse_init K_low c_ex = Inr (e, ws)
         \<and> self_Omegar_orig e = [1] \<and> self_Omegaz_orig e = [1 / 4]"
    by (rule ex_low) blast
next
  fix pyfloats
  have "\<not> ampb_negative (2\<^sup>2) 1 (1 / 4)" by (simp add: ampb_negative_iff)
  then show "single_isochrone pyfloats 2 (1 / 10) 1 (1 / 4) \<noteq> Inl NotImplementedError"
    "single_isochrone pyfloats 2 (1 / 10) 1 (1 / 4) \<noteq> Inl ZeroDivisionError"
    by (simp_all add: single_isochrone_def)
qed

text \<open>
  C2, as amended. For every torus of a constructed instance the stored polynomial \<open>P\<close>
  (row \<open>i\<close> of \<open>_pt_coeffs\<close>) has \<open>P(0) = 0\<close> and \<open>P(1) = 1\<close>. Its slopes at the two ends
  are \<open>P'(0) = P'(1) = 1\<close> only when the instance was built with \<open>use_pointtransform\<close>
  and \<open>pt_deg > 1\<close>; in every other construction they are \<open>P'(0) = 1.3\<close> and
  \<open>P'(1) = 0.4\<close>.
\<close>

theorem point_transform_boundary_values:
  assumes "actionAngleSphericalInverse_init K c = Inr (e, ws)"
    and "i < length (self_pt_coeffs e)"
  shows "polyval 0 (self_pt_coeffs e ! i) = 0 \<and> polyval 1 (self_pt_coeffs e ! i) = 1
     \<and> (use_pointtransform c \<and> 1 < pt_deg c \<longrightarrow>
           polyval 0 (polyder 1 (self_pt_coeffs e ! i)) = 1
         \<and> polyval 1 (polyder 1 (self_pt_coeffs e ! i)) = 1)
     \<and> (\<not> (use_pointtransform c \<and> 1 < pt_deg c) \<longrightarrow>
           polyval 0 (polyder 1 (self_pt_coeffs e ! i)) = 13 / 10
         \<and> polyval 1 (polyder 1 (self_pt_coeffs e ! i)) = 2 / 5)"
proof (cases "use_pointtransform c \<and> 1 < pt_deg c")
  case True
  then have d: "1 \<le> pt_deg c" by simp
  show ?thesis
    unfolding stored_coeffs(1)[OF assms True] using True linear_boundary[OF d] by simp
next
  case False
  show ?thesis
    unfolding stored_coeffs(2)[OF assms False] using False weird_boundary by simp
qed

theorem point_transform_boundary_values_witness:
  "(\<exists>e ws. actionAngleSphericalInverse_init K_ex c_pt = Inr (e, ws)
       \<and> 0 < length (self_pt_coeffs e) \<and> use_pointtransform c_pt \<and> 1 < pt_deg c_pt
       \<and> polyval 0 (self_pt_coeffs e ! 0) = 0 \<and> polyval 1 (self_pt_coeffs e ! 0) = 1
       \<and> polyval 0 (polyder 1 (self_pt_coeffs e ! 0)) = 1
       \<and> polyval 1 (polyder 1 (self_pt_coeffs e ! 0)) = 1)
   \<and> (\<exists>e ws. actionAngleSphericalInverse_init K_ex c_ex = Inr (e, ws)
       \<and> 0 < length (self_pt_coeffs e) \<and> \<not> (use_pointtransform c_ex \<and> 1 < pt_deg c_ex)
       \<and> polyval 0 (self_pt_coeffs e ! 0) = 0 \<and> polyval 1 (self_pt_coeffs e ! 0) = 1
       \<and> polyval 0 (polyder 1 (self_pt_coeffs e ! 0)) = 13 / 10
       \<and> polyval 1 (polyder 1 (self_pt_coeffs e ! 0)) = 2 / 5)"
proof (rule conjI)
  show "\<exists>e ws. actionAngleSphericalInverse_init K_ex c_pt = Inr (e, ws)
       \<and> 0 < length (self_pt_coeffs e) \<and> use_pointtransform c_pt \<and> 1 < pt_deg c_pt
       \<and> polyval 0 (self_pt_coeffs e ! 0) = 0 \<and> polyval 1 (self_pt_coeffs e ! 0) = 1
       \<and> polyval 0 (polyder 1 (self_pt_coeffs e ! 0)) = 1
       \<and> polyval 1 (polyder 1 (self_pt_coeffs e ! 0)) = 1"
  proof (rule ex_fit)
    fix e assume e: "actionAngleSphericalInverse_init K_ex c_pt = Inr (e, [])"
      and l: "length (self_pt_coeffs e) = 1"
    have i: "0 < length (self_pt_coeffs e)" using l by simp
    have b: "use_pointtransform c_pt \<and> 1 < pt_deg c_pt" by (simp add: c_pt_sel)
    from point_transform_boundary_values[OF e i] e i b show ?thesis by blast
  qed
  show "\<exists>e ws. actionAngleSphericalInverse_init K_ex c_ex = Inr (e, ws)
       \<and> 0 < length (self_pt_coeffs e) \<and> \<not> (use_pointtransform c_ex \<and> 1 < pt_deg c_ex)
       \<and> polyval 0 (self_pt_coeffs e ! 0) = 0 \<and> polyval 1 (self_pt_coeffs e ! 0) = 1
       \<and> polyval 0 (polyder 1 (self_pt_coeffs e ! 0)) = 13 / 10
       \<and> polyval 1 (polyder 1 (self_pt_coeffs e ! 0)) = 2 / 5"
  proof (rule ex_default)
    fix e assume e: "actionAngleSphericalInverse_init K_ex c_ex = Inr (e, [])"
      and l: "length (self_pt_coeffs e) = 1"
    have i: "0 < length (self_pt_coeffs e)" using l by simp
    have b: "\<not> (use_pointtransform c_ex \<and> 1 < pt_deg c_ex)" by (simp add: c_ex_sel)
    from point_transform_boundary_values[OF e i] e i b show ?thesis by blast
  qed
qed

text \<open>
  C2 as stated fails on the default construction (\<open>use_pointtransform = False\<close>): the
  instance built from one torus stores \<open>(0, 1.3, 0, -0.3)\<close>, whose slope at \<open>0\<close> is
  \<open>1.3\<close> and at \<open>1\<close> is \<open>0.4\<close>, neither within \<open>10\<^sup>-\<^sup>8\<close> of \<open>1\<close>.
\<close>

theorem default_transform_slopes_are_not_one:
  "\<exists>e ws. actionAngleSphericalInverse_init K_ex c_ex = Inr (e, ws)
     \<and> 0 < length (self_pt_coeffs e)
     \<and> self_pt_coeffs e ! 0 = [0, 13 / 10, 0, - (3 / 10)]
     \<and> \<not> \<bar>polyval 0 (polyder 1 (self_pt_coeffs e ! 0)) - 1\<bar> \<le> 1 / 10 ^ 8
     \<and> \<not> \<bar>polyval 1 (polyder 1 (self_pt_coeffs e ! 0)) - 1\<bar> \<le> 1 / 10 ^ 8"
proof (rule ex_default)
  fix e assume e: "actionAngleSphericalInverse_init K_ex c_ex = Inr (e, [])"
    and l: "length (self_pt_coeffs e) = 1"
  have i: "0 < length (self_pt_coeffs e)" using l by simp
  have b: "\<not> (use_pointtransform c_ex \<and> 1 < pt_deg c_ex)" by (simp add: c_ex_sel)
  have r: "self_pt_coeffs e ! 0 = [0, 13 / 10, 0, - (3 / 10)]"
    by (rule stored_coeffs(2)[OF e i b])
  have "\<not> \<bar>polyval 0 (polyder 1 (self_pt_coeffs e ! 0)) - 1\<bar> \<le> 1 / 10 ^ 8"
    "\<not> \<bar>polyval 1 (polyder 1 (self_pt_coeffs e ! 0)) - 1\<bar> \<le> 1 / 10 ^ 8"
    unfolding r weird_boundary by simp_all
  with e i r show ?thesis by blast
qed

text \<open>
  C3. The coefficients that a constructed instance stores for a torus do not depend on
  any fit. Unless the instance was built with \<open>use_pointtransform\<close> and \<open>pt_deg > 1\<close>
  they are the cubic \<open>(0, 1.3, 0, -0.3)\<close>, not the identity; with both they are the
  linear \<open>(0, 1, 0, ..., 0)\<close>, whatever optimize.leastsq returned: replacing the
  optimiser by any other leaves every stored row unchanged.
\<close>

theorem point_transform_is_hardcoded:
  assumes "actionAngleSphericalInverse_init K c = Inr (e, ws)"
    and "i < length (self_pt_coeffs e)"
  shows "(\<not> (use_pointtransform c \<and> 1 < pt_deg c) \<longrightarrow>
            self_pt_coeffs e ! i = [0, 13 / 10, 0, - (3 / 10)])
     \<and> (use_pointtransform c \<and> 1 < pt_deg c \<longrightarrow>
            self_pt_coeffs e ! i = 0 # 1 # replicate (pt_deg c - 1) 0)
     \<and> (\<forall>lsq e' ws'. actionAngleSphericalInverse_init (K\<lparr>leastsq := lsq\<rparr>) c = Inr (e', ws') \<longrightarrow>
            self_pt_coeffs e' = self_pt_coeffs e)"
proof (intro conjI impI allI)
  assume "\<not> (use_pointtransform c \<and> 1 < pt_deg c)"
  then show "self_pt_coeffs e ! i = [0, 13 / 10, 0, - (3 / 10)]"
    by (rule stored_coeffs(2)[OF assms])
next
  assume b: "use_pointtransform c \<and> 1 < pt_deg c"
  then have d: "1 \<le> pt_deg c" by simp
  show "self_pt_coeffs e ! i = 0 # 1 # replicate (pt_deg c - 1) 0"
    unfolding stored_coeffs(1)[OF assms b] by (rule linear_coeffs_eq[OF d])
next
  fix lsq e' ws'
  assume "actionAngleSphericalInverse_init (K\<lparr>leastsq := lsq\<rparr>) c = Inr (e', ws')"
  then show "self_pt_coeffs e' = self_pt_coeffs e"
    by (rule pt_coeffs_any_leastsq[OF assms(1)])
qed

theorem point_transform_is_hardcoded_witness:
  "(\<exists>e ws e' ws'. actionAngleSphericalInverse_init K_ex c_pt = Inr (e, ws)
       \<and> 0 < length (self_pt_coeffs e) \<and> use_pointtransform c_pt \<and> 1 < pt_deg c_pt
       \<and> self_pt_coeffs e ! 0 = [0, 1, 0, 0, 0, 0, 0, 0]
       \<and> actionAngleSphericalInverse_init (K_ex\<lparr>leastsq := leastsq (K_fit (map (\<lambda>_. 1)))\<rparr>) c_pt
             = Inr (e', ws')
       \<and> self_pt_coeffs e' = self_pt_coeffs e)
   \<and> (\<exists>e ws. actionAngleSphericalInverse_init K_ex c_ex = Inr (e, ws)
       \<and> 0 < length (self_pt_coeffs e) \<and> \<not> (use_pointtransform c_ex \<and> 1 < pt_deg c_ex)
       \<and> self_pt_coeffs e ! 0 = [0, 13 / 10, 0, - (3 / 10)])"
proof (rule conjI)
  show "\<exists>e ws e' ws'. actionAngleSphericalInverse_init K_ex c_pt = Inr (e, ws)
       \<and> 0 < length (self_pt_coeffs e) \<and> use_pointtransform c_pt \<and> 1 < pt_deg c_pt
       \<and> self_pt_coeffs e ! 0 = [0, 1, 0, 0, 0, 0, 0, 0]
       \<and> actionAngleSphericalInverse_init (K_ex\<lparr>leastsq := leastsq (K_fit (map (\<lambda>_. 1)))\<rparr>) c_pt
             = Inr (e', ws')
       \<and> self_pt_coeffs e' = self_pt_coeffs e"
  proof (rule ex_fit)
    fix e assume e: "actionAngleSphericalInverse_init K_ex c_pt = Inr (e, [])"
      and l: "length (self_pt_coeffs e) = 1"
    obtain e' where e': "actionAngleSphericalInverse_init
        (K_ex\<lparr>leastsq := leastsq (K_fit (map (\<lambda>_. 1)))\<rparr>) c_pt = Inr (e', [])"
      unfolding K_fit_update by (rule ex_fit_any)
    have i: "0 < length (self_pt_coeffs e)" using l by simp
    have b: "use_pointtransform c_pt \<and> 1 < pt_deg c_pt" by (simp add: c_pt_sel)
    note H = point_transform_is_hardcoded[OF e i]
    have "self_pt_coeffs e ! 0 = 0 # 1 # replicate (pt_deg c_pt - 1) 0"
      using H b by blast
    then have r: "self_pt_coeffs e ! 0 = [0, 1, 0, 0, 0, 0, 0, 0]"
      by (simp add: c_pt_sel eval_nat_numeral)
    have s: "self_pt_coeffs e' = self_pt_coeffs e" using H e' by blast
    from e i b r e' s show ?thesis by blast
  qed
  show "\<exists>e ws. actionAngleSphericalInverse_init K_ex c_ex = Inr (e, ws)
       \<and> 0 < length (self_pt_coeffs e) \<and> \<not> (use_pointtransform c_ex \<and> 1 < pt_deg c_ex)
       \<and> self_pt_coeffs e ! 0 = [0, 13 / 10, 0, - (3 / 10)]"
  proof (rule ex_default)
    fix e assume e: "actionAngleSphericalInverse_init K_ex c_ex = Inr (e, [])"
      and l: "length (self_pt_coeffs e) = 1"
    have i: "0 < length (self_pt_coeffs e)" using l by simp
    have b: "\<not> (use_pointtransform c_ex \<and> 1 < pt_deg c_ex)" by (simp add: c_ex_sel)
    have "self_pt_coeffs e ! 0 = [0, 13 / 10, 0, - (3 / 10)]"
      using point_transform_is_hardcoded[OF e i] b by blast
    with e i b show ?thesis by blast
  qed
qed

text \<open>
  C4, as amended. In every row \<open>i\<close> of the stored table (one entry per angle node, with
  at least two nodes) the entry of node \<open>0\<close> is \<open>_pt_rperi[i]\<close> and the entry of node
  \<open>nta div 2\<close> is \<open>_pt_rap[i]\<close>, whatever the root-finding did. These are the orbit's
  \<open>rperi\<close> and \<open>rap\<close> unless the instance was built with \<open>use_pointtransform\<close> and
  \<open>pt_deg > 1\<close>. Without that, without \<open>bisect\<close>, when the construction raised no
  warning and \<open>rap - rperi\<close> is at least \<open>2 10\<^sup>-\<^sup>8\<close>, every entry of the row lies between
  \<open>rperi\<close> and \<open>rap\<close>.
\<close>

theorem table_endpoints_and_bounds:
  assumes "actionAngleSphericalInverse_init K c = Inr (e, ws)"
    and "i < length (self_rgrid e)"
  shows "length (self_rgrid e ! i) = nta c
     \<and> (2 \<le> nta c \<longrightarrow> self_rgrid e ! i ! 0 = self_pt_rperi e ! i)
     \<and> self_rgrid e ! i ! (nta c div 2) = self_pt_rap e ! i
     \<and> (\<not> (use_pointtransform c \<and> 1 < pt_deg c) \<longrightarrow>
           self_pt_rperi e ! i = self_rperi e ! i \<and> self_pt_rap e ! i = self_rap e ! i)
     \<and> (\<not> (use_pointtransform c \<and> 1 < pt_deg c) \<and> \<not> bisect c \<and> ws = []
          \<and> 2 * (1 / 10 ^ 8) \<le> self_rap e ! i - self_rperi e ! i \<longrightarrow>
           (\<forall>k<nta c. self_rperi e ! i \<le> self_rgrid e ! i ! k
                     \<and> self_rgrid e ! i ! k \<le> self_rap e ! i))"
  using table_facts(1,6,7,8,9)[OF assms] by blast

theorem table_endpoints_and_bounds_witness:
  "\<exists>e. actionAngleSphericalInverse_init K_ex c_ex = Inr (e, [])
     \<and> 0 < length (self_rgrid e) \<and> 2 \<le> nta c_ex
     \<and> \<not> (use_pointtransform c_ex \<and> 1 < pt_deg c_ex) \<and> \<not> bisect c_ex
     \<and> 2 * (1 / 10 ^ 8) \<le> self_rap e ! 0 - self_rperi e ! 0
     \<and> self_rgrid e ! 0 ! 0 = 1 \<and> self_rgrid e ! 0 ! 2 = 2
     \<and> 1 \<le> self_rgrid e ! 0 ! 1 \<and> self_rgrid e ! 0 ! 1 \<le> 2
     \<and> 1 \<le> self_rgrid e ! 0 ! 3 \<and> self_rgrid e ! 0 ! 3 \<le> 2"
proof (rule ex_default)
  fix e assume e: "actionAngleSphericalInverse_init K_ex c_ex = Inr (e, [])"
    and l: "length (self_rgrid e) = 1"
    and rp: "self_rperi e = [1]" and ra: "self_rap e = [2]"
  have i: "0 < length (self_rgrid e)" using l by simp
  have b: "\<not> (use_pointtransform c_ex \<and> 1 < pt_deg c_ex)" "\<not> bisect c_ex" "2 \<le> nta c_ex"
    by (simp_all add: c_ex_sel)
  have w: "2 * (1 / 10 ^ 8) \<le> self_rap e ! 0 - self_rperi e ! 0" unfolding rp ra by simp
  note T = table_endpoints_and_bounds[OF e i]
  have e0: "self_rgrid e ! 0 ! 0 = 1" using T b rp by simp
  have e2: "self_rgrid e ! 0 ! 2 = 2" using T b ra by (simp add: c_ex_sel)
  have bd: "\<forall>k<nta c_ex. self_rperi e ! 0 \<le> self_rgrid e ! 0 ! k
                     \<and> self_rgrid e ! 0 ! k \<le> self_rap e ! 0"
    using T b w by blast
  have b1: "1 \<le> self_rgrid e ! 0 ! 1 \<and> self_rgrid e ! 0 ! 1 \<le> 2"
    using bd[rule_format, of 1] rp ra by (simp add: c_ex_sel)
  have b3: "1 \<le> self_rgrid e ! 0 ! 3 \<and> self_rgrid e ! 0 ! 3 \<le> 2"
    using bd[rule_format, of 3] rp ra by (simp add: c_ex_sel)
  from e i b w e0 e2 b1 b3 show ?thesis by blast
qed

text \<open>
  C4 as stated fails on an instance built with \<open>use_pointtransform = True\<close>: the table
  holds radii of the auxiliary isochrone orbit, its node \<open>nta div 2\<close> (angle \<open>pi\<close>) is the
  apocentre \<open>_pt_rap = 3\<close> of that orbit, which is neither equal to nor below the orbit's
  \<open>rap = 2\<close>.
\<close>

theorem fitted_table_ends_beyond_rap:
  "\<exists>e ws. actionAngleSphericalInverse_init K_ex c_pt = Inr (e, ws)
     \<and> 0 < length (self_rgrid e) \<and> nta c_pt div 2 = 2
     \<and> self_rap e ! 0 = 2 \<and> self_rgrid e ! 0 ! 2 = 3
     \<and> \<not> self_rgrid e ! 0 ! 2 \<le> self_rap e ! 0"
proof (rule ex_fit)
  fix e assume e: "actionAngleSphericalInverse_init K_ex c_pt = Inr (e, [])"
    and l: "length (self_rgrid e) = 1"
    and ra: "self_rap e = [2]" and pra: "self_pt_rap e = [3]"
  have i: "0 < length (self_rgrid e)" using l by simp
  have n: "nta c_pt div 2 = 2" by (simp add: c_pt_sel)
  have "self_rgrid e ! 0 ! 2 = 3" using table_facts(7)[OF e i] pra n by simp
  with e i n ra show ?thesis by auto
qed

text \<open>
  C5. The second half of every row of the stored table is written by line 746 as the
  mirror image of the first half, and with an even number of nodes the row is symmetric
  (\<open>even_table_is_symmetric\<close>). With five nodes (angles \<open>2 pi k / 5\<close>) the construction
  succeeds and the row is not symmetric: the assignment repeats the radius of node \<open>1\<close>
  in nodes \<open>3\<close> and \<open>4\<close>, so node \<open>3\<close> (angle \<open>2 pi - 4 pi / 5\<close>) holds \<open>1 + 10\<^sup>-\<^sup>8\<close>
  while its mirror image, node \<open>2\<close> (angle \<open>4 pi / 5\<close>), holds \<open>2\<close>.
\<close>

theorem five_node_table_is_not_symmetric:
  "\<exists>e ws. actionAngleSphericalInverse_init K_odd c_odd = Inr (e, ws)
     \<and> 0 < length (self_rgrid e) \<and> nta c_odd = 5
     \<and> self_rgrid e ! 0 ! 2 = 2 \<and> self_rgrid e ! 0 ! 3 = 1 + 1 / 10 ^ 8
     \<and> self_rgrid e ! 0 ! 2 \<noteq> self_rgrid e ! 0 ! (5 - 2)"
proof (rule ex_odd)
  fix e assume e: "actionAngleSphericalInverse_init K_odd c_odd = Inr (e, [])"
    and l: "length (self_rgrid e) = 1"
    and two: "self_rgrid e ! 0 ! 2 = 2" and three: "self_rgrid e ! 0 ! 3 = 1 + 1 / 10 ^ 8"
  have i: "0 < length (self_rgrid e)" using l by simp
  have "self_rgrid e ! 0 ! 2 \<noteq> self_rgrid e ! 0 ! (5 - 2)" using two three by simp
  with e i two three c_odd_sel(5) show ?thesis by blast
qed

text \<open>
  C6. The lookup tests one stored torus only, the first whose \<open>Jr\<close> is nearest to the
  query. On the instance built from two tori with \<open>Jr = 1/2\<close> and \<open>L = 1\<close>, \<open>L = 6/5\<close>,
  the query \<open>Jr = 1/2\<close>, \<open>jphi = 6/5\<close>, \<open>jz = 0\<close> matches the second torus in both
  coordinates exactly, and still \<open>_xvFreqs\<close>, \<open>_evaluate\<close> and \<open>_Freqs\<close> raise the lookup
  error.
\<close>

theorem lookup_misses_a_stored_torus:
  "\<exists>e ws. actionAngleSphericalInverse_init K_ex c_two = Inr (e, ws)
     \<and> self_jr e = [1 / 2, 1 / 2] \<and> self_internal_Ls e = [1, 6 / 5] \<and> self_Ls e = [1, 6 / 5]
     \<and> \<bar>1 / 2 - self_jr e ! 1\<bar> \<le> 1 / 10 ^ 10
     \<and> \<bar>0 + \<bar>6 / 5\<bar> - self_internal_Ls e ! 1\<bar> \<le> 1 / 10 ^ 10
     \<and> xvFreqs K_ex e (1 / 2) (6 / 5) 0 [(0, 0, 0)] True = Inl ValueError_not_found
     \<and> evaluate K_ex e (1 / 2) (6 / 5) 0 [(0, 0, 0)] True = Inl ValueError_not_found
     \<and> Freqs e (1 / 2) (6 / 5) 0 = Inl ValueError_not_found"
proof (rule ex_two)
  fix e assume e: "actionAngleSphericalInverse_init K_ex c_two = Inr (e, [])"
    and jr: "self_jr e = [1 / 2, 1 / 2]" and iL: "self_internal_Ls e = [1, 6 / 5]"
    and L: "self_Ls e = [1, 6 / 5]" and ni: "\<not> self_interp e"
  have x: "xvFreqs K_ex e (1 / 2) (6 / 5) 0 [(0, 0, 0)] True = Inl ValueError_not_found"
    using ni two_torus_query[OF jr iL] by (simp add: xvFreqs_def)
  then have v: "evaluate K_ex e (1 / 2) (6 / 5) 0 [(0, 0, 0)] True = Inl ValueError_not_found"
    by (simp add: evaluate_def)
  have f: "Freqs e (1 / 2) (6 / 5) 0 = Inl ValueError_not_found"
    using ni two_torus_query[OF jr L] by (simp add: Freqs_def)
  have m: "\<bar>1 / 2 - self_jr e ! 1\<bar> \<le> 1 / 10 ^ 10"
    "\<bar>0 + \<bar>6 / 5\<bar> - self_internal_Ls e ! 1\<bar> \<le> 1 / 10 ^ 10"
    unfolding jr iL by simp_all
  from e jr iL L m x v f show ?thesis by blast
qed

text \<open>
  C7. For every torus \<open>i\<close> of a constructed instance, row \<open>i\<close> of \<open>_jra\<close> holds
  \<open>Jr\<^sup>A\<close> and row \<open>i\<close> of \<open>_djradjr\<close> holds \<open>dJr\<^sup>A/dJr\<close>, both evaluated by the kernels
  at the \<open>nta\<close> radii of row \<open>i\<close> of the stored angle table with the parameters of that torus.
  The stored radial action is the mean of that row of \<open>Jr\<^sup>A\<close>, while the forward solver's
  action is kept in \<open>_jr_orig\<close>; the stored radial frequency is the forward solver's
  divided by the mean of that row of \<open>dJr\<^sup>A/dJr\<close>; the stored vertical frequency is that
  radial frequency times the ratio of the forward solver's two frequencies.
\<close>

theorem refined_action_and_frequencies:
  assumes "actionAngleSphericalInverse_init K c = Inr (e, ws)" and "pot c = Some p"
    and "i < length (self_jr e)"
  shows "i < length (self_rgrid e) \<and> length (self_rgrid e ! i) = nta c
     \<and> self_jra e ! i = map (\<lambda>ra. fst (jraora K p (torus_at e i) ra)) (self_rgrid e ! i)
     \<and> self_djradjr e ! i = map (\<lambda>ra. fst (djradjrLish K p (torus_at e i) ra)) (self_rgrid e ! i)
     \<and> self_jr e ! i = mean (self_jra e ! i)
     \<and> length (self_jra e ! i) = nta c \<and> length (self_djradjr e ! i) = nta c
     \<and> self_jr_orig e ! i =
         fst (forward_node K p c i (self_internal_Es e ! i) (self_internal_Ls e ! i))
     \<and> self_Omegar e ! i =
         fst (snd (forward_node K p c i (self_internal_Es e ! i) (self_internal_Ls e ! i)))
           / mean (self_djradjr e ! i)
     \<and> self_Omegaz e ! i =
         fst (snd (snd (forward_node K p c i (self_internal_Es e ! i) (self_internal_Ls e ! i))))
           / fst (snd (forward_node K p c i (self_internal_Es e ! i) (self_internal_Ls e ! i)))
           * self_Omegar e ! i"
proof -
  note R = kernel_rows[OF assms]
  have "self_jr e ! i = mean (self_jra e ! i)
     \<and> length (self_jra e ! i) = nta c \<and> length (self_djradjr e ! i) = nta c
     \<and> self_jr_orig e ! i =
         fst (forward_node K p c i (self_internal_Es e ! i) (self_internal_Ls e ! i))
     \<and> self_Omegar e ! i =
         fst (snd (forward_node K p c i (self_internal_Es e ! i) (self_internal_Ls e ! i)))
           / mean (self_djradjr e ! i)
     \<and> self_Omegaz e ! i =
         fst (snd (snd (forward_node K p c i (self_internal_Es e ! i) (self_internal_Ls e ! i))))
           / fst (snd (forward_node K p c i (self_internal_Es e ! i) (self_internal_Ls e ! i)))
           * self_Omegar e ! i"
    using stored_facts(1,3,4,5,6,11)[OF assms(1,3)] stored_facts(7)[OF assms(1,3,2)]
    by simp
  with R show ?thesis by (intro conjI) (rule R, rule R, rule R, rule R, simp_all)
qed

theorem refined_action_and_frequencies_witness:
  "\<exists>e ws. actionAngleSphericalInverse_init K_ex c_ex = Inr (e, ws) \<and> pot c_ex = Some ()
     \<and> 0 < length (self_jr e)
     \<and> self_jra e ! 0 = map (\<lambda>ra. fst (jraora K_ex () (torus_at e 0) ra)) (self_rgrid e ! 0)
     \<and> self_djradjr e ! 0 = map (\<lambda>ra. fst (djradjrLish K_ex () (torus_at e 0) ra)) (self_rgrid e ! 0)
     \<and> length (self_rgrid e ! 0) = 4
     \<and> self_jr e ! 0 = mean (self_jra e ! 0) \<and> self_jr e ! 0 = 1 / 2
     \<and> self_jr_orig e ! 0 = 1
     \<and> self_Omegar e ! 0 = 1 / mean (self_djradjr e ! 0)
     \<and> self_Omegaz e ! 0 = 3 / 4 / 1 * self_Omegar e ! 0"
proof (rule ex_default)
  fix e assume e: "actionAngleSphericalInverse_init K_ex c_ex = Inr (e, [])"
    and l: "length (self_jr e) = 1" and jr: "self_jr e = [1 / 2]"
  have i: "0 < length (self_jr e)" using l by simp
  have h: "self_jr e ! 0 = 1 / 2" using jr by simp
  have fw: "forward_node K_ex () c_ex 0 (self_internal_Es e ! 0) (self_internal_Ls e ! 0)
              = (1, 1, 3 / 4, 1, 2)"
    by (simp add: forward_node_def Let_def K_ex_sel)
  note T = refined_action_and_frequencies[OF e c_ex_sel(1) i, unfolded fw c_ex_sel(5)]
  have a: "self_jra e ! 0 = map (\<lambda>ra. fst (jraora K_ex () (torus_at e 0) ra)) (self_rgrid e ! 0)"
    "self_djradjr e ! 0 = map (\<lambda>ra. fst (djradjrLish K_ex () (torus_at e 0) ra)) (self_rgrid e ! 0)"
    "length (self_rgrid e ! 0) = 4" "self_jr e ! 0 = mean (self_jra e ! 0)"
    using T by blast+
  note T7 = T[THEN conjunct2, THEN conjunct2, THEN conjunct2, THEN conjunct2, THEN conjunct2,
              THEN conjunct2, THEN conjunct2]
  have b: "self_jr_orig e ! 0 = 1" "self_Omegar e ! 0 = 1 / mean (self_djradjr e ! 0)"
    "self_Omegaz e ! 0 = 3 / 4 / 1 * self_Omegar e ! 0"
    using T7[THEN conjunct1] T7[THEN conjunct2, THEN conjunct1] T7[THEN conjunct2, THEN conjunct2]
    by simp_all
  from e c_ex_sel(1) i a h b show ?thesis by blast
qed




text \<open>
  C9. On an instance constructed with \<open>setup_interp = True\<close>, every call of
  \<open>_evaluate\<close>, \<open>_xvFreqs\<close> and \<open>_Freqs\<close> fails, whatever its arguments, with the error
  Python raises on reading a local variable that was never assigned.
\<close>

theorem interpolation_queries_fail:
  assumes "actionAngleSphericalInverse_init K c = Inr (e, ws)" and "setup_interp c"
  shows "xvFreqs K e jr jphi jz angles point = Inl UnboundLocalError
     \<and> evaluate K e jr jphi jz angles point = Inl UnboundLocalError
     \<and> Freqs e jr jphi jz = Inl UnboundLocalError"
  using init_interp[OF assms(1)] assms(2)
  by (simp add: xvFreqs_def evaluate_def Freqs_def)

theorem interpolation_queries_fail_witness:
  "\<exists>e ws. actionAngleSphericalInverse_init K_ex c_interp = Inr (e, ws) \<and> setup_interp c_interp
     \<and> xvFreqs K_ex e 1 1 0 [(0, 0, 0)] True = Inl UnboundLocalError
     \<and> evaluate K_ex e 1 1 0 [(0, 0, 0)] True = Inl UnboundLocalError
     \<and> Freqs e 1 1 0 = Inl UnboundLocalError"
proof (rule ex_interp)
  fix e ws assume e: "actionAngleSphericalInverse_init K_ex c_interp = Inr (e, ws)"
  from interpolation_queries_fail[OF e c_interp_sel(2), of 1 1 0 "[(0, 0, 0)]" True] e c_interp_sel(2)
  show ?thesis by blast
qed

text \<open>
  C10. Whenever \<open>_xvFreqs\<close> or \<open>_Freqs\<close> returns, the azimuthal frequency it returns is
  \<open>sign(jphi)\<close> times the vertical frequency it returns; it is zero when \<open>jphi = 0\<close>.
\<close>

theorem azimuthal_frequency:
  "(xvFreqs K e jr jphi jz angles point = Inr (x, ws) \<longrightarrow>
      x_Omegaphi x = sgn jphi * x_Omegaz x \<and> (jphi = 0 \<longrightarrow> x_Omegaphi x = 0))
   \<and> (Freqs e jr jphi jz = Inr (Or, Ophi, Oz) \<longrightarrow>
      Ophi = sgn jphi * Oz \<and> (jphi = 0 \<longrightarrow> Ophi = 0))"
proof (intro conjI impI)
  assume a: "xvFreqs K e jr jphi jz angles point = Inr (x, ws)"
  show s: "x_Omegaphi x = sgn jphi * x_Omegaz x" using a by (rule xv_sign)
  show "x_Omegaphi x = 0" if "jphi = 0" using s that by simp
next
  assume a: "Freqs e jr jphi jz = Inr (Or, Ophi, Oz)"
  show s: "Ophi = sgn jphi * Oz" using a by (rule Freqs_sign)
  show "Ophi = 0" if "jphi = 0" using s that by simp
qed

theorem azimuthal_frequency_witness:
  "\<exists>e ws0 x ws Or Ophi Oz. actionAngleSphericalInverse_init K_ex c_ex = Inr (e, ws0)
     \<and> xvFreqs K_ex e (1 / 2) 2 0 [(0, 0, 0)] True = Inr (x, ws)
     \<and> x_Omegaphi x = sgn 2 * x_Omegaz x
     \<and> Freqs e (1 / 2) 2 0 = Inr (Or, Ophi, Oz) \<and> Ophi = sgn 2 * Oz"
proof (rule ex_default)
  fix e assume e: "actionAngleSphericalInverse_init K_ex c_ex = Inr (e, [])"
    and l: "length (self_jr e) = 1" and jr: "self_jr e = [1 / 2]"
    and iL: "self_internal_Ls e = [2]" and L: "self_Ls e = [2]" and ni: "\<not> self_interp e"
  have ft: "find_torus (self_jr e) (self_internal_Ls e) (1 / 2) 2 0 = Inr 0"
    using jr iL by (rule default_query)
  have ft': "find_torus (self_jr e) (self_Ls e) (1 / 2) 2 0 = Inr 0"
    using ft iL L by simp
  obtain t where t: "read_torus e 0 = Inr t"
    using read_torus_constructed[OF e, of 0] l by auto
  obtain x ws where x: "xvFreqs K_ex e (1 / 2) 2 0 [(0, 0, 0)] True = Inr (x, ws)"
    using xvFreqs_succeeds[OF ni ft t] by blast
  have lo: "self_Omegar e \<noteq> []" "self_Omegaz e \<noteq> []"
    using t by (auto simp: read_torus_def list_ex_iff split: if_splits)
  obtain Or Ophi Oz where f: "Freqs e (1 / 2) 2 0 = Inr (Or, Ophi, Oz)"
    using ni ft' lo by (simp add: Freqs_def)
  from azimuthal_frequency[of K_ex e "1 / 2" 2 0 "[(0, 0, 0)]" True x ws Or Ophi Oz] x f e
  show ?thesis by blast
qed

end
